theory Spec2Isabelle
  imports Complex_Main "HOL-Library.Word"
begin

unbundle bit_operations_syntax

section \<open>Numbers, bytes and strings of the host language\<close>

text \<open>
  A JavaScript number is an IEEE-754 double. The model keeps its four kinds of value apart:
  a finite number (a real that a double holds), the two infinities and NaN. An operation on
  finite numbers gives the exact result rounded to the nearest double, ties to even, and an
  infinity when that is out of range. The sign of zero is not modelled (a zero divisor counts
  as \<open>+0\<close>, which is what every division of the loader meets).
\<close>

datatype number = Num real | Infinity | NegInfinity | NaN

fun num_lt :: "number \<Rightarrow> number \<Rightarrow> bool" where
  "num_lt (Num a) (Num b) = (a < b)"
| "num_lt (Num a) Infinity = True"
| "num_lt NegInfinity (Num b) = True"
| "num_lt NegInfinity Infinity = True"
| "num_lt a b = False"

definition num_gt :: "number \<Rightarrow> number \<Rightarrow> bool" where
  "num_gt a b = num_lt b a"

text \<open>\<open>a <= b\<close>, which is false when one of the two is NaN.\<close>

definition num_le :: "number \<Rightarrow> number \<Rightarrow> bool" where
  "num_le a b = (num_lt a b \<or> (a = b \<and> a \<noteq> NaN))"

fun num_neg :: "number \<Rightarrow> number" where
  "num_neg (Num a) = Num (- a)"
| "num_neg Infinity = NegInfinity"
| "num_neg NegInfinity = Infinity"
| "num_neg NaN = NaN"

text \<open>
  Rounding to the nearest value of a binary format, ties to even. The format has \<open>p\<close> bits
  of precision and exponents from \<open>emin\<close> to \<open>emax\<close>: a double is \<open>p = 53\<close>,
  \<open>emin = -1022\<close>, \<open>emax = 1023\<close>, and a single is \<open>p = 24\<close>, \<open>emin = -126\<close>,
  \<open>emax = 127\<close>. \<open>normExp n x e\<close> halves or doubles a positive \<open>x\<close> until it lies
  between 1 and 2, at most \<open>n\<close> times, and counts the exponent; below \<open>emin\<close> the exponent
  is \<open>emin\<close> (the subnormal numbers), and a result from \<open>2 ^ (emax + 1)\<close> on is an
  infinity.
\<close>

definition pow2 :: "int \<Rightarrow> real" where
  "pow2 e = (if 0 \<le> e then 2 ^ nat e else 1 / 2 ^ nat (- e))"

fun normExp :: "nat \<Rightarrow> real \<Rightarrow> int \<Rightarrow> int" where
  "normExp 0 x e = e"
| "normExp (Suc n) x e =
     (if 2 \<le> x then normExp n (x / 2) (e + 1)
      else if x < 1 then normExp n (2 * x) (e - 1)
      else e)"

definition tieEven :: "real \<Rightarrow> int \<Rightarrow> int" where
  "tieEven q f =
     (if q - of_int f < 1 / 2 then f
      else if 1 / 2 < q - of_int f then f + 1
      else if even f then f else f + 1)"

definition roundEven :: "real \<Rightarrow> int" where
  "roundEven q = tieEven q \<lfloor>q\<rfloor>"

definition ulp :: "nat \<Rightarrow> int \<Rightarrow> int \<Rightarrow> real \<Rightarrow> real" where
  "ulp p emin emax a =
     pow2 (max emin (normExp (nat (max (emax + 1) (1 - emin))) a 0) - (int p - 1))"

definition quantize :: "real \<Rightarrow> real \<Rightarrow> real" where
  "quantize u a = of_int (roundEven (a / u)) * u"

definition nearest :: "nat \<Rightarrow> int \<Rightarrow> int \<Rightarrow> real \<Rightarrow> real" where
  "nearest p emin emax a = quantize (ulp p emin emax a) a"

definition withSign :: "int \<Rightarrow> real \<Rightarrow> real \<Rightarrow> number" where
  "withSign emax x r =
     (if pow2 (emax + 1) \<le> r then (if 0 < x then Infinity else NegInfinity)
      else Num (if 0 < x then r else - r))"

definition roundTo :: "nat \<Rightarrow> int \<Rightarrow> int \<Rightarrow> real \<Rightarrow> number" where
  "roundTo p emin emax x =
     (if x = 0 then Num 0 else withSign emax x (nearest p emin emax \<bar>x\<bar>))"

definition toDouble :: "real \<Rightarrow> number" where
  "toDouble = roundTo 53 (- 1022) 1023"

definition toFloat32 :: "real \<Rightarrow> number" where
  "toFloat32 = roundTo 24 (- 126) 127"

text \<open>The result of an operation, rounded to a double.\<close>

definition rounded :: "number \<Rightarrow> number" where
  "rounded v = (case v of Num a \<Rightarrow> toDouble a | _ \<Rightarrow> v)"

text \<open>\<open>Math.fround\<close>, which is also what a store into a \<open>Float32Array\<close> does to the
  number: the nearest single.\<close>

definition fround :: "number \<Rightarrow> number" where
  "fround v = (case v of Num a \<Rightarrow> toFloat32 a | _ \<Rightarrow> v)"

text \<open>The exact results, before rounding.\<close>

fun ext_add :: "number \<Rightarrow> number \<Rightarrow> number" where
  "ext_add (Num a) (Num b) = Num (a + b)"
| "ext_add NaN b = NaN"
| "ext_add a NaN = NaN"
| "ext_add Infinity NegInfinity = NaN"
| "ext_add NegInfinity Infinity = NaN"
| "ext_add Infinity b = Infinity"
| "ext_add a Infinity = Infinity"
| "ext_add NegInfinity b = NegInfinity"
| "ext_add a NegInfinity = NegInfinity"

fun ext_mul :: "number \<Rightarrow> number \<Rightarrow> number" where
  "ext_mul (Num a) (Num b) = Num (a * b)"
| "ext_mul NaN b = NaN"
| "ext_mul a NaN = NaN"
| "ext_mul (Num a) Infinity = (if a = 0 then NaN else if 0 < a then Infinity else NegInfinity)"
| "ext_mul (Num a) NegInfinity = (if a = 0 then NaN else if 0 < a then NegInfinity else Infinity)"
| "ext_mul Infinity (Num b) = (if b = 0 then NaN else if 0 < b then Infinity else NegInfinity)"
| "ext_mul NegInfinity (Num b) = (if b = 0 then NaN else if 0 < b then NegInfinity else Infinity)"
| "ext_mul Infinity Infinity = Infinity"
| "ext_mul NegInfinity NegInfinity = Infinity"
| "ext_mul Infinity NegInfinity = NegInfinity"
| "ext_mul NegInfinity Infinity = NegInfinity"

fun ext_div :: "number \<Rightarrow> number \<Rightarrow> number" where
  "ext_div (Num a) (Num b) =
     (if b = 0 then (if a = 0 then NaN else if 0 < a then Infinity else NegInfinity)
      else Num (a / b))"
| "ext_div NaN b = NaN"
| "ext_div a NaN = NaN"
| "ext_div (Num a) Infinity = Num 0"
| "ext_div (Num a) NegInfinity = Num 0"
| "ext_div Infinity (Num b) = (if 0 \<le> b then Infinity else NegInfinity)"
| "ext_div NegInfinity (Num b) = (if 0 \<le> b then NegInfinity else Infinity)"
| "ext_div a b = NaN"

fun ext_sqrt :: "number \<Rightarrow> number" where
  "ext_sqrt (Num a) = (if a < 0 then NaN else Num (sqrt a))"
| "ext_sqrt Infinity = Infinity"
| "ext_sqrt NegInfinity = NaN"
| "ext_sqrt NaN = NaN"

fun ext_exp :: "number \<Rightarrow> number" where
  "ext_exp (Num a) = Num (exp a)"
| "ext_exp Infinity = Infinity"
| "ext_exp NegInfinity = Num 0"
| "ext_exp NaN = NaN"

text \<open>
  The operations of the language on numbers. \<open>Math.sqrt\<close> is the square root of IEEE-754,
  which is rounded correctly. For \<open>Math.exp\<close> the standard of the language lets the engine
  approximate; the model takes the correctly rounded value here too, with its overflow to
  \<open>Infinity\<close> and its underflow to 0.
\<close>

definition num_add :: "number \<Rightarrow> number \<Rightarrow> number" where
  "num_add a b = rounded (ext_add a b)"

definition num_sub :: "number \<Rightarrow> number \<Rightarrow> number" where
  "num_sub a b = num_add a (num_neg b)"

definition num_mul :: "number \<Rightarrow> number \<Rightarrow> number" where
  "num_mul a b = rounded (ext_mul a b)"

definition num_div :: "number \<Rightarrow> number \<Rightarrow> number" where
  "num_div a b = rounded (ext_div a b)"

definition Math_sqrt :: "number \<Rightarrow> number" where
  "Math_sqrt a = rounded (ext_sqrt a)"

definition Math_exp :: "number \<Rightarrow> number" where
  "Math_exp a = rounded (ext_exp a)"

fun Math_min :: "number \<Rightarrow> number \<Rightarrow> number" where
  "Math_min NaN b = NaN"
| "Math_min a NaN = NaN"
| "Math_min a b = (if num_lt b a then b else a)"

fun Math_max :: "number \<Rightarrow> number \<Rightarrow> number" where
  "Math_max NaN b = NaN"
| "Math_max a NaN = NaN"
| "Math_max a b = (if num_lt a b then b else a)"

text \<open>
  What the loader can throw: an \<open>Error\<close> it constructs itself, with its message, or a
  \<open>RangeError\<close> or \<open>TypeError\<close> of the runtime (their messages are the engine's own
  wording).
\<close>

datatype exn = Error string | RangeError string | TypeError string

fun message :: "exn \<Rightarrow> string" where
  "message (Error m) = m"
| "message (RangeError m) = m"
| "message (TypeError m) = m"

definition bind :: "exn + 'a \<Rightarrow> ('a \<Rightarrow> exn + 'b) \<Rightarrow> exn + 'b" where
  "bind m f = (case m of Inl e \<Rightarrow> Inl e | Inr v \<Rightarrow> f v)"

type_synonym byte = "8 word"
type_synonym ArrayBuffer = "byte list"

text \<open>
  \<open>TextDecoder.decode\<close> on 7-bit ASCII text, which is what a PLY header is made of: one
  character for each byte. (On bytes from \<open>0x80\<close> up the UTF-8 decoder of the platform
  joins or replaces bytes; the model maps them one to one.)
\<close>

definition decode :: "byte list \<Rightarrow> string" where
  "decode bs = map (\<lambda>b. char_of (unat b)) bs"

definition startsWith :: "string \<Rightarrow> string \<Rightarrow> bool" where
  "startsWith s p = (take (length p) s = p)"

text \<open>\<open>String.prototype.indexOf\<close>: the first index where the pattern occurs, or \<open>-1\<close>.\<close>

fun indexOf :: "string \<Rightarrow> string \<Rightarrow> int" where
  "indexOf [] p = (if p = [] then 0 else - 1)"
| "indexOf (c # cs) p =
     (if startsWith (c # cs) p then 0
      else (let r = indexOf cs p in if r < 0 then - 1 else r + 1))"

text \<open>\<open>String.prototype.substring\<close>: both ends are clamped to the string, and swapped when
  the first is the larger.\<close>

definition substring :: "string \<Rightarrow> int \<Rightarrow> int \<Rightarrow> string" where
  "substring s a b =
     (let n = int (length s);
          a' = max 0 (min a n);
          b' = max 0 (min b n);
          lo = min a' b';
          hi = max a' b'
      in take (nat (hi - lo)) (drop (nat lo) s))"

text \<open>\<open>String.prototype.split\<close> with a one-character separator: the empty string gives
  one empty piece, and two separators in a row give an empty piece between them.\<close>

fun splitStr :: "string \<Rightarrow> char \<Rightarrow> string list" where
  "splitStr [] sep = [[]]"
| "splitStr (c # cs) sep =
     (if c = sep then [] # splitStr cs sep
      else (case splitStr cs sep of
              [] \<Rightarrow> [[c]]
            | w # ws \<Rightarrow> (c # w) # ws))"

text \<open>White space of the language among the ASCII characters: tab, line feed, vertical tab,
  form feed, carriage return and space.\<close>

definition isWhiteSpace :: "char \<Rightarrow> bool" where
  "isWhiteSpace c = (c \<in> set [CHR 0x09, CHR 0x0A, CHR 0x0B, CHR 0x0C, CHR 0x0D, CHR 0x20])"

definition trim :: "string \<Rightarrow> string" where
  "trim s = rev (dropWhile isWhiteSpace (rev (dropWhile isWhiteSpace s)))"

text \<open>
  \<open>parseInt\<close> with no radix: leading white space is skipped, a sign is read, a prefix
  \<open>0x\<close> or \<open>0X\<close> selects base 16, and the longest run of digits is the value; no digit
  at all gives NaN, which is \<open>None\<close> here. The argument \<open>undefined\<close> (\<open>None\<close>) reads as
  the text \<open>undefined\<close>, which has no digit. The value is the exact integer (a double
  rounds it from \<open>2^53\<close> on).
\<close>

definition digitValue :: "char \<Rightarrow> nat option" where
  "digitValue c =
     (let n = (of_char c :: nat) in
      if 48 \<le> n \<and> n \<le> 57 then Some (n - 48)
      else if 97 \<le> n \<and> n \<le> 102 then Some (n - 87)
      else if 65 \<le> n \<and> n \<le> 70 then Some (n - 55)
      else None)"

fun digitsValue :: "nat \<Rightarrow> string \<Rightarrow> nat \<Rightarrow> bool \<Rightarrow> nat option" where
  "digitsValue R [] acc seen = (if seen then Some acc else None)"
| "digitsValue R (c # cs) acc seen =
     (case digitValue c of
        None \<Rightarrow> (if seen then Some acc else None)
      | Some d \<Rightarrow> (if d < R then digitsValue R cs (acc * R + d) True
                   else if seen then Some acc else None))"

definition parseInt :: "string option \<Rightarrow> int option" where
  "parseInt arg =
     (case arg of
        None \<Rightarrow> None
      | Some str \<Rightarrow>
          (let S = dropWhile isWhiteSpace str;
               sign = (if startsWith S ''-'' then - 1 else 1 :: int);
               S1 = (if startsWith S ''+'' \<or> startsWith S ''-'' then drop 1 S else S);
               hex = (startsWith S1 ''0x'' \<or> startsWith S1 ''0X'');
               S2 = (if hex then drop 2 S1 else S1);
               R = (if hex then 16 else 10)
           in map_option (\<lambda>v. sign * int v) (digitsValue R S2 0 False)))"

definition join :: "string list \<Rightarrow> string \<Rightarrow> string" where
  "join xs sep = (case xs of [] \<Rightarrow> [] | y # ys \<Rightarrow> y @ concat (map (\<lambda>z. sep @ z) ys))"

definition elemAt :: "'a list \<Rightarrow> nat \<Rightarrow> 'a option" where
  "elemAt xs i = (if i < length xs then Some (xs ! i) else None)"

section \<open>Typed arrays and the view on the payload\<close>

text \<open>\<open>new Uint8Array(buffer, byteOffset, length)\<close> throws when the window leaves the buffer.\<close>

definition newUint8Array :: "ArrayBuffer \<Rightarrow> nat \<Rightarrow> nat \<Rightarrow> exn + byte list" where
  "newUint8Array buffer byteOffset len =
     (if length buffer < byteOffset + len then Inl (RangeError ''Invalid typed array length'')
      else Inr (take len (drop byteOffset buffer)))"

text \<open>\<open>new Float32Array(n)\<close>: \<open>n\<close> zeros; a NaN length counts as 0 and a negative one throws.
  The array is a list of numbers, and every store into it rounds the number with
  \<open>fround\<close>.
  (A length that the engine cannot allocate throws a RangeError as well. The model allocates
  any length; the loop then reads beyond the end of the file and throws a RangeError
  there.)\<close>

definition newFloat32Array :: "int option \<Rightarrow> exn + number list" where
  "newFloat32Array n =
     (case n of
        None \<Rightarrow> Inr []
      | Some k \<Rightarrow> (if k < 0 then Inl (RangeError ''Invalid typed array length'')
                   else Inr (replicate (nat k) (Num 0))))"

definition newDataView :: "ArrayBuffer \<Rightarrow> int \<Rightarrow> exn + byte list" where
  "newDataView buffer byteOffset =
     (if byteOffset < 0 \<or> int (length buffer) < byteOffset
      then Inl (RangeError ''Start offset is outside the bounds of the buffer'')
      else Inr (drop (nat byteOffset) buffer))"

definition bits32 :: "byte \<Rightarrow> byte \<Rightarrow> byte \<Rightarrow> byte \<Rightarrow> 32 word" where
  "bits32 b0 b1 b2 b3 =
     ucast b0 OR push_bit 8 (ucast b1) OR push_bit 16 (ucast b2) OR push_bit 24 (ucast b3)"

text \<open>The value of a binary32 bit pattern: sign, 8 bits of exponent, 23 bits of fraction.\<close>

definition float32_value :: "32 word \<Rightarrow> number" where
  "float32_value w =
     (let sg = (if bit w 31 then - 1 else 1 :: real);
          e = unat (drop_bit 23 w AND 0xFF);
          m = unat (w AND 0x7FFFFF)
      in if e = 255 then (if m = 0 then (if bit w 31 then NegInfinity else Infinity) else NaN)
         else if e = 0 then Num (sg * real m / 2 ^ 149)
         else if e < 150 then Num (sg * (2 ^ 23 + real m) / 2 ^ (150 - e))
         else Num (sg * (2 ^ 23 + real m) * 2 ^ (e - 150)))"

text \<open>\<open>DataView.getFloat32(byteOffset, true)\<close>: four bytes, little endian.\<close>

definition getFloat32 :: "byte list \<Rightarrow> nat \<Rightarrow> exn + number" where
  "getFloat32 view byteOffset =
     (if length view < byteOffset + 4
      then Inl (RangeError ''Offset is outside the bounds of the DataView'')
      else Inr (float32_value (bits32 (view ! byteOffset) (view ! (byteOffset + 1))
                                      (view ! (byteOffset + 2)) (view ! (byteOffset + 3)))))"

definition getUint8 :: "byte list \<Rightarrow> nat \<Rightarrow> exn + number" where
  "getUint8 view byteOffset =
     (if length view < byteOffset + 1
      then Inl (RangeError ''Offset is outside the bounds of the DataView'')
      else Inr (Num (real (unat (view ! byteOffset)))))"

section \<open>The data model\<close>

type_synonym Vector3 = "number \<times> number \<times> number"

text \<open>\<open>Box3\<close> of the three.js library: the empty box has \<open>+Infinity\<close> as its minimum and
  \<open>-Infinity\<close> as its maximum, and \<open>expandByPoint\<close> takes \<open>Math.min\<close> and \<open>Math.max\<close>
  with the point, component by component.\<close>

record Box3 =
  box_min :: Vector3
  box_max :: Vector3

definition newBox3 :: Box3 where
  "newBox3 = \<lparr>box_min = (Infinity, Infinity, Infinity),
              box_max = (NegInfinity, NegInfinity, NegInfinity)\<rparr>"

definition vec_min :: "Vector3 \<Rightarrow> Vector3 \<Rightarrow> Vector3" where
  "vec_min a b = (case a of (ax, ay, az) \<Rightarrow> case b of (bx, by, bz) \<Rightarrow>
     (Math_min ax bx, Math_min ay by, Math_min az bz))"

definition vec_max :: "Vector3 \<Rightarrow> Vector3 \<Rightarrow> Vector3" where
  "vec_max a b = (case a of (ax, ay, az) \<Rightarrow> case b of (bx, by, bz) \<Rightarrow>
     (Math_max ax bx, Math_max ay by, Math_max az bz))"

definition expandByPoint :: "Box3 \<Rightarrow> Vector3 \<Rightarrow> Box3" where
  "expandByPoint box p = \<lparr>box_min = vec_min (box_min box) p, box_max = vec_max (box_max box) p\<rparr>"

datatype RenderMode = ORIGINAL | COLORMAP | SPLAT

record PlyData =
  positions :: "number list"
  colors :: "number list"
  elevations :: "number list"
  scales :: "number list option"
  rotations :: "number list option"
  boundingBox :: Box3
  pointCount :: "int option"

section \<open>The loader: header\<close>

record property =
  prop_type :: string
  prop_name :: string
  prop_offset :: nat

text \<open>The locals of the header loop. \<open>pointCount\<close> is a number that \<open>parseInt\<close> made:
  an integer, or NaN (\<open>None\<close>).\<close>

record header =
  h_pointCount :: "int option"
  h_isBinary :: bool
  h_properties :: "property list"
  h_currentOffset :: nat

definition header0 :: header where
  "header0 = \<lparr>h_pointCount = Some 0, h_isBinary = False, h_properties = [], h_currentOffset = 0\<rparr>"

definition typeSize :: "string \<Rightarrow> nat" where
  "typeSize t =
     (if t = ''float'' \<or> t = ''int32'' then 4
      else if t = ''uchar'' then 1
      else if t = ''double'' then 8
      else 4)"

definition headerLine :: "header \<Rightarrow> string \<Rightarrow> exn + header" where
  "headerLine h line =
     (if startsWith line ''element vertex''
      then Inr (h\<lparr>h_pointCount := parseInt (elemAt (splitStr line CHR '' '') 2)\<rparr>)
      else if startsWith line ''property''
      then (let parts = splitStr line CHR '' '' in
            case (elemAt parts 1, elemAt parts 2) of
              (Some t, Some n) \<Rightarrow>
                Inr (h\<lparr>h_properties := h_properties h @
                           [\<lparr>prop_type = t, prop_name = trim n, prop_offset = h_currentOffset h\<rparr>],
                       h_currentOffset := h_currentOffset h + typeSize t\<rparr>)
            | _ \<Rightarrow> Inl (TypeError ''Cannot read properties of undefined (reading trim)''))
      else if startsWith line ''format binary_little_endian''
      then Inr (h\<lparr>h_isBinary := True\<rparr>)
      else Inr h)"

fun headerLoop :: "header \<Rightarrow> string list \<Rightarrow> exn + header" where
  "headerLoop h [] = Inr h"
| "headerLoop h (line # rest) = bind (headerLine h line) (\<lambda>h'. headerLoop h' rest)"

definition headerEndOf :: "string \<Rightarrow> int" where
  "headerEndOf headerText = indexOf headerText ''end_header'' + int (length ''end_header'') + 1"

text \<open>Lines 26 to 55 of the loader: the text of the first 10 KiB, the end of the header,
  and the loop over the header's lines.\<close>

definition parseHeader :: "ArrayBuffer \<Rightarrow> exn + (header \<times> int)" where
  "parseHeader buffer =
     bind (newUint8Array buffer 0 (1024 * 10)) (\<lambda>bytes.
       let headerText = decode bytes;
           headerEnd = headerEndOf headerText;
           headerLines = splitStr (substring headerText 0 headerEnd) (CHR 0x0A)
       in bind (headerLoop header0 headerLines) (\<lambda>h. Inr (h, headerEnd)))"

text \<open>\<open>new Map(properties.map(p => [p.name, p]))\<close>: of two properties of one name the later
  one stays.\<close>

definition propMapOf :: "property list \<Rightarrow> string \<Rightarrow> property option" where
  "propMapOf props = map_of (rev (map (\<lambda>p. (prop_name p, p)) props))"

definition has :: "(string \<Rightarrow> property option) \<Rightarrow> string \<Rightarrow> bool" where
  "has m k = (m k \<noteq> None)"

definition hasPosition :: "property list \<Rightarrow> bool" where
  "hasPosition props = list_all (has (propMapOf props)) [''x'', ''y'', ''z'']"

definition hasClassicColor :: "property list \<Rightarrow> bool" where
  "hasClassicColor props = list_all (has (propMapOf props)) [''red'', ''green'', ''blue'']"

definition hasSHColor :: "property list \<Rightarrow> bool" where
  "hasSHColor props = list_all (has (propMapOf props)) [''f_dc_0'', ''f_dc_1'', ''f_dc_2'']"

definition hasSplat :: "property list \<Rightarrow> bool" where
  "hasSplat props =
     (list_all (has (propMapOf props)) [''scale_0'', ''scale_1'', ''scale_2''] \<and>
      list_all (has (propMapOf props)) [''rot_0'', ''rot_1'', ''rot_2'', ''rot_3''])"

definition missingColorMessage :: "property list \<Rightarrow> string" where
  "missingColorMessage props =
     ''PLY file must contain color properties. Found: '' @ join (map prop_name props) '', ''"

text \<open>Lines 57 to 67: the four checks, in the order of the source.\<close>

definition validateHeader :: "header \<Rightarrow> exn + unit" where
  "validateHeader h =
     (if \<not> h_isBinary h then Inl (Error ''Only binary_little_endian PLY format is supported.'')
      else if h_pointCount h = Some 0 then Inl (Error ''No vertices found in PLY file.'')
      else if \<not> hasPosition (h_properties h)
      then Inl (Error ''PLY file must contain x, y, z properties.'')
      else if \<not> hasClassicColor (h_properties h) \<and> \<not> hasSHColor (h_properties h)
      then Inl (Error (missingColorMessage (h_properties h)))
      else Inr ())"

section \<open>The loader: points\<close>

definition sigmoid :: "number \<Rightarrow> number" where
  "sigmoid v = num_div (Num 1) (num_add (Num 1) (Math_exp (num_neg v)))"

text \<open>What the loop over the points reads but does not change.\<close>

record layout =
  l_dataView :: "byte list"
  l_stride :: nat
  l_propMap :: "string \<Rightarrow> property option"
  l_useSHColor :: bool
  l_hasSplat :: bool

text \<open>What the loop changes: the arrays and the box of the result, and the two bounds.\<close>

record decoding = PlyData +
  minY :: number
  maxY :: number

text \<open>\<open>propMap.get(k)!.offset\<close>: reading \<open>offset\<close> of a missing entry would throw.\<close>

definition offsetOf :: "(string \<Rightarrow> property option) \<Rightarrow> string \<Rightarrow> exn + nat" where
  "offsetOf m k =
     (case m k of
        None \<Rightarrow> Inl (TypeError ''Cannot read properties of undefined (reading offset)'')
      | Some p \<Rightarrow> Inr (prop_offset p))"

definition readFloat32 :: "layout \<Rightarrow> nat \<Rightarrow> string \<Rightarrow> exn + number" where
  "readFloat32 L i k =
     bind (offsetOf (l_propMap L) k) (\<lambda>off. getFloat32 (l_dataView L) (i * l_stride L + off))"

definition readUint8 :: "layout \<Rightarrow> nat \<Rightarrow> string \<Rightarrow> exn + number" where
  "readUint8 L i k =
     bind (offsetOf (l_propMap L) k) (\<lambda>off. getUint8 (l_dataView L) (i * l_stride L + off))"

definition decodeColor :: "layout \<Rightarrow> nat \<Rightarrow> number list \<Rightarrow> exn + number list" where
  "decodeColor L i cols =
     (let posIdx = i * 3 in
      if l_useSHColor L
      then bind (readFloat32 L i ''f_dc_0'') (\<lambda>r_sh.
           bind (readFloat32 L i ''f_dc_1'') (\<lambda>g_sh.
           bind (readFloat32 L i ''f_dc_2'') (\<lambda>b_sh.
             Inr (cols[posIdx := fround (sigmoid r_sh), posIdx + 1 := fround (sigmoid g_sh),
                       posIdx + 2 := fround (sigmoid b_sh)]))))
      else bind (readUint8 L i ''red'') (\<lambda>r.
           bind (readUint8 L i ''green'') (\<lambda>g.
           bind (readUint8 L i ''blue'') (\<lambda>b.
             Inr (cols[posIdx := fround (num_div r (Num 255)),
                       posIdx + 1 := fround (num_div g (Num 255)),
                       posIdx + 2 := fround (num_div b (Num 255))])))))"

definition quatNorm :: "number \<Rightarrow> number \<Rightarrow> number \<Rightarrow> number \<Rightarrow> number" where
  "quatNorm qx qy qz qw =
     Math_sqrt (num_add (num_add (num_add (num_mul qx qx) (num_mul qy qy)) (num_mul qz qz))
                        (num_mul qw qw))"

text \<open>Lines 106 to 123. The four components are read as \<open>qx, qy, qz, qw\<close> from
  \<open>rot_0 .. rot_3\<close> and stored with \<open>qw\<close> first. The arrays are \<open>Float32Array\<close>s,
  so each store rounds to a single.\<close>

definition decodeSplat ::
  "layout \<Rightarrow> nat \<Rightarrow> number list option \<Rightarrow> number list option
     \<Rightarrow> exn + (number list option \<times> number list option)" where
  "decodeSplat L i scs rots =
     (if l_hasSplat L
      then (case (scs, rots) of
              (Some sc, Some ro) \<Rightarrow>
                (let scaleIdx = i * 3 in
                 bind (readFloat32 L i ''scale_0'') (\<lambda>s0.
                 bind (readFloat32 L i ''scale_1'') (\<lambda>s1.
                 bind (readFloat32 L i ''scale_2'') (\<lambda>s2.
                 let sc' = sc[scaleIdx := fround (Math_exp s0),
                              scaleIdx + 1 := fround (Math_exp s1),
                              scaleIdx + 2 := fround (Math_exp s2)];
                     rotIdx = i * 4 in
                 bind (readFloat32 L i ''rot_0'') (\<lambda>qx.
                 bind (readFloat32 L i ''rot_1'') (\<lambda>qy.
                 bind (readFloat32 L i ''rot_2'') (\<lambda>qz.
                 bind (readFloat32 L i ''rot_3'') (\<lambda>qw.
                 let len = quatNorm qx qy qz qw in
                 Inr (Some sc',
                      Some (ro[rotIdx := fround (num_div qw len),
                               rotIdx + 1 := fround (num_div qx len),
                               rotIdx + 2 := fround (num_div qy len),
                               rotIdx + 3 := fround (num_div qz len)]))))))))))
            | _ \<Rightarrow> Inl (TypeError ''Cannot set properties of undefined''))
      else Inr (scs, rots))"

text \<open>The body of the loop, lines 83 to 128, for the point \<open>i\<close>.\<close>

definition decodePoint :: "layout \<Rightarrow> nat \<Rightarrow> decoding \<Rightarrow> exn + decoding" where
  "decodePoint L i st =
     bind (readFloat32 L i ''x'') (\<lambda>x.
     bind (readFloat32 L i ''y'') (\<lambda>y.
     bind (readFloat32 L i ''z'') (\<lambda>z.
     let posIdx = i * 3;
         pos' = (positions st)[posIdx := fround x, posIdx + 1 := fround y,
                               posIdx + 2 := fround z] in
     bind (decodeColor L i (colors st)) (\<lambda>cols'.
     bind (decodeSplat L i (scales st) (rotations st)) (\<lambda>(scs', rots').
       Inr (st\<lparr>positions := pos', colors := cols', scales := scs', rotations := rots',
               elevations := (elevations st)[i := fround y],
               minY := (if num_lt y (minY st) then y else minY st),
               maxY := (if num_gt y (maxY st) then y else maxY st),
               boundingBox := expandByPoint (boundingBox st) (x, y, z)\<rparr>))))))"

text \<open>\<open>i < pointCount\<close>, which is false when \<open>pointCount\<close> is NaN.\<close>

definition belowCount :: "nat \<Rightarrow> int option \<Rightarrow> bool" where
  "belowCount i n = (case n of None \<Rightarrow> False | Some k \<Rightarrow> int i < k)"

function decodeLoop :: "layout \<Rightarrow> nat \<Rightarrow> int option \<Rightarrow> decoding \<Rightarrow> exn + decoding" where
  "decodeLoop L i n st =
     (if belowCount i n
      then bind (decodePoint L i st) (\<lambda>st'. decodeLoop L (i + 1) n st')
      else Inr st)"
  by pat_completeness auto
termination
  by (relation "measure (\<lambda>(L, i, n, st). case n of None \<Rightarrow> 0 | Some k \<Rightarrow> nat (k - int i))")
     (auto simp: belowCount_def split: option.splits)

definition scaleCount :: "int option \<Rightarrow> int \<Rightarrow> int option" where
  "scaleCount n c = map_option (\<lambda>k. k * c) n"

definition optionalArray :: "bool \<Rightarrow> int option \<Rightarrow> exn + number list option" where
  "optionalArray present n =
     (if present then bind (newFloat32Array n) (\<lambda>a. Inr (Some a)) else Inr None)"

definition layoutOf :: "byte list \<Rightarrow> header \<Rightarrow> layout" where
  "layoutOf view h =
     \<lparr>l_dataView = view, l_stride = h_currentOffset h, l_propMap = propMapOf (h_properties h),
      l_useSHColor = hasSHColor (h_properties h), l_hasSplat = hasSplat (h_properties h)\<rparr>"

text \<open>Lines 69 to 129: the arrays, the view on the payload that starts at \<open>headerEnd\<close>, and
  the loop.\<close>

definition decodePoints :: "ArrayBuffer \<Rightarrow> header \<Rightarrow> int \<Rightarrow> exn + decoding" where
  "decodePoints buffer h headerEnd =
     (let n = h_pointCount h;
          props = h_properties h
      in bind (newFloat32Array (scaleCount n 3)) (\<lambda>pos.
         bind (newFloat32Array (scaleCount n 3)) (\<lambda>cols.
         bind (newFloat32Array n) (\<lambda>elev.
         bind (optionalArray (hasSplat props) (scaleCount n 3)) (\<lambda>scs.
         bind (optionalArray (hasSplat props) (scaleCount n 4)) (\<lambda>rots.
         bind (newDataView buffer headerEnd) (\<lambda>view.
           decodeLoop (layoutOf view h) 0 n
             \<lparr>positions = pos, colors = cols, elevations = elev, scales = scs,
              rotations = rots, boundingBox = newBox3, pointCount = n,
              minY = Infinity, maxY = NegInfinity\<rparr>)))))))"

text \<open>Lines 131 to 138, the second pass over the elevations. The literal \<open>1e-6\<close> is the
  double nearest to one millionth, and the elevations are stored into the same
  \<open>Float32Array\<close>.\<close>

definition normalizeElevations :: "number \<Rightarrow> number \<Rightarrow> number list \<Rightarrow> number list" where
  "normalizeElevations lo hi elev =
     (let yRange = num_sub hi lo in
      if num_gt yRange (toDouble (1 / 1000000))
      then map (\<lambda>e. fround (num_div (num_sub e lo) yRange)) elev
      else map (\<lambda>e. fround (Num (1 / 2))) elev)"

definition finish :: "decoding \<Rightarrow> PlyData" where
  "finish st =
     \<lparr>positions = positions st, colors = colors st,
      elevations = normalizeElevations (minY st) (maxY st) (elevations st),
      scales = scales st, rotations = rotations st, boundingBox = boundingBox st,
      pointCount = pointCount st\<rparr>"

text \<open>The loader on the bytes of the file.\<close>

definition loadPlyBuffer :: "ArrayBuffer \<Rightarrow> exn + PlyData" where
  "loadPlyBuffer buffer =
     bind (parseHeader buffer) (\<lambda>(h, headerEnd).
     bind (validateHeader h) (\<lambda>u.
     bind (decodePoints buffer h headerEnd) (\<lambda>st. Inr (finish st))))"

text \<open>A file of the user: its bytes, or a file that the reader fails to read. The progress
  callback only reports how much of the file has been read and is left out.\<close>

datatype File = File ArrayBuffer | Unreadable

definition readAsArrayBuffer :: "File \<Rightarrow> exn + ArrayBuffer" where
  "readAsArrayBuffer source =
     (case source of
        File buffer \<Rightarrow> Inr buffer
      | Unreadable \<Rightarrow> Inl (Error ''Failed to read local file.''))"

definition loadPly :: "File \<Rightarrow> exn + PlyData" where
  "loadPly source = bind (readAsArrayBuffer source) loadPlyBuffer"

section \<open>The application state\<close>

record Transformations =
  t_position :: "real \<times> real \<times> real"
  t_rotation :: "real \<times> real \<times> real"
  t_scale :: real

record CropSettings =
  crop_min :: Vector3
  crop_max :: Vector3
  crop_enabled :: bool

record PerformanceStats =
  fps :: nat
  stat_pointCount :: "int option"

text \<open>The state of \<open>App\<close> that \<open>handleLoad\<close> writes (appearance and helpers it never
  touches).\<close>

record AppState =
  plyData :: "PlyData option"
  isLoading :: bool
  loadingProgress :: real
  error :: "string option"
  splatDataAvailable :: bool
  transformations :: Transformations
  crop :: CropSettings
  renderMode :: RenderMode
  stats :: PerformanceStats

definition defaultTransformations :: Transformations where
  "defaultTransformations = \<lparr>t_position = (0, 0, 0), t_rotation = (0, 0, 0), t_scale = 1\<rparr>"

text \<open>\<open>!!(data.scales && data.rotations)\<close>: an array, even an empty one, is truthy.\<close>

definition hasSplatData :: "PlyData \<Rightarrow> bool" where
  "hasSplatData d = (scales d \<noteq> None \<and> rotations d \<noteq> None)"

definition handleLoad :: "AppState \<Rightarrow> File \<Rightarrow> AppState" where
  "handleLoad s source =
     (let s1 = s\<lparr>isLoading := True, error := None, loadingProgress := 0,
                 splatDataAvailable := False, renderMode := ORIGINAL\<rparr>;
          s2 = (case loadPly source of
                  Inr d \<Rightarrow>
                    s1\<lparr>plyData := Some d,
                       stats := (stats s1)\<lparr>stat_pointCount := pointCount d\<rparr>,
                       splatDataAvailable := hasSplatData d,
                       renderMode := (if hasSplatData d then SPLAT else ORIGINAL),
                       crop := \<lparr>crop_min = box_min (boundingBox d),
                                crop_max = box_max (boundingBox d), crop_enabled = False\<rparr>,
                       transformations := defaultTransformations\<rparr>
                | Inl e \<Rightarrow>
                    s1\<lparr>error := Some (if message e = [] then
                                        ''An unknown error occurred while loading the model.''
                                      else message e),
                       plyData := None,
                       stats := (stats s1)\<lparr>stat_pointCount := Some 0\<rparr>\<rparr>)
      in s2\<lparr>isLoading := False, loadingProgress := 0\<rparr>)"

text \<open>The state that \<open>App\<close> starts with.\<close>

definition initialState :: AppState where
  "initialState =
     \<lparr>plyData = None, isLoading = False, loadingProgress = 0, error = None,
      splatDataAvailable = False, transformations = defaultTransformations,
      crop = \<lparr>crop_min = (Num 0, Num 0, Num 0), crop_max = (Num 0, Num 0, Num 0),
               crop_enabled = False\<rparr>,
      renderMode = ORIGINAL, stats = \<lparr>fps = 0, stat_pointCount = Some 0\<rparr>\<rparr>"

section \<open>The shaders\<close>

text \<open>
  A float of the GPU is a number as well: finite, an infinity or NaN. GLSL leaves the
  precision of the arithmetic to the GPU, so the arithmetic is a parameter of the model: the
  record \<open>arith\<close> holds the operations as one GPU computes them, and what is shown of the
  shaders holds for every such record. Comparisons, the unary minus, \<open>max\<close>, the literals
  that every binary format holds (0, 0.5, 1, 2, 3, 4, 200) and the moving of components are
  exact. The uniforms, the position of a point and the coordinate of a fragment are finite.
  Matrices are stored by columns, as in GLSL: \<open>m[i][j]\<close> is the component \<open>j\<close> of the
  column \<open>i\<close>.
\<close>

type_synonym vec2 = "real \<times> real"
type_synonym vec3 = "real \<times> real \<times> real"
type_synonym vec4 = "real \<times> real \<times> real \<times> real"
type_synonym mat4 = "vec4 \<times> vec4 \<times> vec4 \<times> vec4"

type_synonym fvec2 = "number \<times> number"
type_synonym fvec3 = "number \<times> number \<times> number"
type_synonym fvec4 = "number \<times> number \<times> number \<times> number"
type_synonym fmat3 = "fvec3 \<times> fvec3 \<times> fvec3"
type_synonym fmat4 = "fvec4 \<times> fvec4 \<times> fvec4 \<times> fvec4"

record arith =
  g_add :: "number \<Rightarrow> number \<Rightarrow> number"
  g_sub :: "number \<Rightarrow> number \<Rightarrow> number"
  g_mul :: "number \<Rightarrow> number \<Rightarrow> number"
  g_div :: "number \<Rightarrow> number \<Rightarrow> number"
  g_sqrt :: "number \<Rightarrow> number"
  g_exp :: "number \<Rightarrow> number"
  g_normalize :: "fvec4 \<Rightarrow> fvec4"
  g_lit :: "real \<Rightarrow> number"

text \<open>\<open>max(x, y)\<close> of GLSL: \<open>y\<close> if \<open>x < y\<close>, otherwise \<open>x\<close>.\<close>

definition gl_max :: "number \<Rightarrow> number \<Rightarrow> number" where
  "gl_max x y = (if num_lt x y then y else x)"

definition lift4 :: "vec4 \<Rightarrow> fvec4" where
  "lift4 v = (case v of (a, b, c, d) \<Rightarrow> (Num a, Num b, Num c, Num d))"

definition liftMat4 :: "mat4 \<Rightarrow> fmat4" where
  "liftMat4 m = (case m of (c0, c1, c2, c3) \<Rightarrow> (lift4 c0, lift4 c1, lift4 c2, lift4 c3))"

definition fvec3_add :: "arith \<Rightarrow> fvec3 \<Rightarrow> fvec3 \<Rightarrow> fvec3" where
  "fvec3_add G a b = (case a of (a0, a1, a2) \<Rightarrow> case b of (b0, b1, b2) \<Rightarrow>
     (g_add G a0 b0, g_add G a1 b1, g_add G a2 b2))"

definition fvec3_scale :: "arith \<Rightarrow> fvec3 \<Rightarrow> number \<Rightarrow> fvec3" where
  "fvec3_scale G a k = (case a of (a0, a1, a2) \<Rightarrow> (g_mul G a0 k, g_mul G a1 k, g_mul G a2 k))"

text \<open>A matrix times a vector: the columns of the matrix, each times its component of the
  vector, added from the left.\<close>

definition fmat3_vec :: "arith \<Rightarrow> fmat3 \<Rightarrow> fvec3 \<Rightarrow> fvec3" where
  "fmat3_vec G m v = (case m of (c0, c1, c2) \<Rightarrow> case v of (v0, v1, v2) \<Rightarrow>
     fvec3_add G (fvec3_add G (fvec3_scale G c0 v0) (fvec3_scale G c1 v1)) (fvec3_scale G c2 v2))"

definition fmat3_mul :: "arith \<Rightarrow> fmat3 \<Rightarrow> fmat3 \<Rightarrow> fmat3" where
  "fmat3_mul G a b = (case b of (c0, c1, c2) \<Rightarrow>
     (fmat3_vec G a c0, fmat3_vec G a c1, fmat3_vec G a c2))"

definition transpose3 :: "fmat3 \<Rightarrow> fmat3" where
  "transpose3 m = (case m of ((a0, a1, a2), (b0, b1, b2), (c0, c1, c2)) \<Rightarrow>
     ((a0, b0, c0), (a1, b1, c1), (a2, b2, c2)))"

definition mat3_of_mat4 :: "fmat4 \<Rightarrow> fmat3" where
  "mat3_of_mat4 m = (case m of ((a0, a1, a2, a3), (b0, b1, b2, b3), (c0, c1, c2, c3), d) \<Rightarrow>
     ((a0, a1, a2), (b0, b1, b2), (c0, c1, c2)))"

definition fvec4_add :: "arith \<Rightarrow> fvec4 \<Rightarrow> fvec4 \<Rightarrow> fvec4" where
  "fvec4_add G a b = (case a of (a0, a1, a2, a3) \<Rightarrow> case b of (b0, b1, b2, b3) \<Rightarrow>
     (g_add G a0 b0, g_add G a1 b1, g_add G a2 b2, g_add G a3 b3))"

definition fvec4_scale :: "arith \<Rightarrow> fvec4 \<Rightarrow> number \<Rightarrow> fvec4" where
  "fvec4_scale G a k = (case a of (a0, a1, a2, a3) \<Rightarrow>
     (g_mul G a0 k, g_mul G a1 k, g_mul G a2 k, g_mul G a3 k))"

definition fmat4_vec :: "arith \<Rightarrow> fmat4 \<Rightarrow> fvec4 \<Rightarrow> fvec4" where
  "fmat4_vec G m v = (case m of (c0, c1, c2, c3) \<Rightarrow> case v of (v0, v1, v2, v3) \<Rightarrow>
     fvec4_add G
       (fvec4_add G (fvec4_add G (fvec4_scale G c0 v0) (fvec4_scale G c1 v1))
                    (fvec4_scale G c2 v2))
       (fvec4_scale G c3 v3))"

record uniforms =
  u_point_size :: real
  u_scale :: real
  u_splat_scale :: real
  u_crop_min :: vec3
  u_crop_max :: vec3
  u_crop_enabled :: bool
  u_render_mode :: int
  u_focal :: vec2
  u_opacity :: real
  modelViewMatrix :: mat4
  projectionMatrix :: mat4

text \<open>The attributes of a point. Its colour, elevation, scale and rotation come out of the
  arrays of the loader, which can hold an infinity or NaN.\<close>

record attributes =
  position :: vec3
  color :: fvec3
  elevation :: number
  a_scale :: fvec3
  a_rotation :: fvec4

record varyings =
  v_color :: fvec3
  v_discard :: real
  v_cov_a :: fvec3
  v_cov_b :: fvec3
  v_radius :: number

record vertex = varyings +
  gl_PointSize :: number
  gl_Position :: fvec4

text \<open>\<open>a * t * t * t + b * t * t + c * t + d\<close>, read from the left as GLSL does.\<close>

definition cubic :: "arith \<Rightarrow> real \<Rightarrow> real \<Rightarrow> real \<Rightarrow> real \<Rightarrow> number \<Rightarrow> number" where
  "cubic G a b c d t =
     g_add G
       (g_add G
          (g_add G (g_mul G (g_mul G (g_mul G (g_lit G a) t) t) t)
                   (g_mul G (g_mul G (g_lit G b) t) t))
          (g_mul G (g_lit G c) t))
       (g_lit G d)"

definition viridis :: "arith \<Rightarrow> number \<Rightarrow> fvec3" where
  "viridis G t =
     (cubic G (- 3.916112) 5.646949 (- 1.385481) 0.222733 t,
      cubic G (- 2.253683) 3.093823 0.117286 0.024924 t,
      cubic G 2.875323 (- 3.489865) 1.297495 0.203291 t)"

text \<open>Lines 58 to 66 of the vertex shader: the value of \<open>v_discard\<close> after the crop
  test.\<close>

definition cropTest :: "uniforms \<Rightarrow> vec3 \<Rightarrow> real" where
  "cropTest U p =
     (case p of (px, py, pz) \<Rightarrow>
      case u_crop_min U of (nx, ny, nz) \<Rightarrow>
      case u_crop_max U of (mx, my, mz) \<Rightarrow>
        (if u_crop_enabled U
         then (if px < nx \<or> px > mx \<or> py < ny \<or> py > my \<or> pz < nz \<or> pz > mz then 1 else 0)
         else 0))"

definition camPos :: "arith \<Rightarrow> uniforms \<Rightarrow> attributes \<Rightarrow> fvec4" where
  "camPos G U A = (case position A of (px, py, pz) \<Rightarrow>
     fmat4_vec G (liftMat4 (modelViewMatrix U)) (Num px, Num py, Num pz, Num 1))"

text \<open>Lines 80 to 114: the covariance of the splat on the screen, as the GPU computes it.
  (The matrix \<open>T\<close> and the factor \<open>P\<close> of the source are computed there and never
  used.)\<close>

definition rotationMatrix :: "arith \<Rightarrow> fvec4 \<Rightarrow> fmat3" where
  "rotationMatrix G q =
     (case q of (qx, qy, qz, qw) \<Rightarrow>
        ((g_sub G (Num 1) (g_mul G (Num 2) (g_add G (g_mul G qy qy) (g_mul G qz qz))),
          g_mul G (Num 2) (g_sub G (g_mul G qx qy) (g_mul G qz qw)),
          g_mul G (Num 2) (g_add G (g_mul G qx qz) (g_mul G qy qw))),
         (g_mul G (Num 2) (g_add G (g_mul G qx qy) (g_mul G qz qw)),
          g_sub G (Num 1) (g_mul G (Num 2) (g_add G (g_mul G qx qx) (g_mul G qz qz))),
          g_mul G (Num 2) (g_sub G (g_mul G qy qz) (g_mul G qx qw))),
         (g_mul G (Num 2) (g_sub G (g_mul G qx qz) (g_mul G qy qw)),
          g_mul G (Num 2) (g_add G (g_mul G qy qz) (g_mul G qx qw)),
          g_sub G (Num 1) (g_mul G (Num 2) (g_add G (g_mul G qx qx) (g_mul G qy qy))))))"

definition projectedCovariance :: "arith \<Rightarrow> uniforms \<Rightarrow> attributes \<Rightarrow> fmat3" where
  "projectedCovariance G U A =
     (case a_rotation A of (rx, ry, rz, rw) \<Rightarrow>
      case a_scale A of (sx, sy, sz) \<Rightarrow>
      case camPos G U A of (cx, cy, cz, cw) \<Rightarrow>
      case u_focal U of (fx, fy) \<Rightarrow>
        (let R = rotationMatrix G (g_normalize G (ry, rz, rw, rx));
             S = ((sx, Num 0, Num 0), (Num 0, sy, Num 0), (Num 0, Num 0, sz));
             V = fmat3_mul G (fmat3_mul G (fmat3_mul G R S) (transpose3 S)) (transpose3 R);
             J = ((g_div G (Num fx) cz, Num 0, Num 0), (Num 0, g_div G (Num fy) cz, Num 0),
                  (Num 0, Num 0, Num 0));
             W = transpose3 (mat3_of_mat4 (liftMat4 (modelViewMatrix U)))
         in transpose3
              (fmat3_mul G (fmat3_mul G (fmat3_mul G (fmat3_mul G J W) V) (transpose3 W))
                 (transpose3 J))))"

text \<open>\<open>cov[0][0] * cov[1][1] - cov[0][1] * cov[0][1]\<close>, the value \<open>d\<close> of the
  shader.\<close>

definition covDet :: "arith \<Rightarrow> fmat3 \<Rightarrow> number" where
  "covDet G cov = (case cov of ((c00, c01, c02), (c10, c11, c12), c2) \<Rightarrow>
     g_sub G (g_mul G c00 c11) (g_mul G c01 c01))"

text \<open>
  \<open>main\<close> of the vertex shader. A varying that the shader does not write keeps what it
  held, which GLSL leaves undefined: the second argument stands for that content.
\<close>

definition vertexShader :: "arith \<Rightarrow> vertex \<Rightarrow> uniforms \<Rightarrow> attributes \<Rightarrow> vertex" where
  "vertexShader G undef U A =
     (let v1 = undef\<lparr>v_discard := cropTest U (position A)\<rparr>;
          v2 = v1\<lparr>v_color := (if u_render_mode U = 0 \<or> u_render_mode U = 2 then color A
                               else viridis G (elevation A))\<rparr>;
          cam_pos = camPos G U A;
          pos_hom = fmat4_vec G (liftMat4 (projectionMatrix U)) cam_pos;
          v3 = (if u_render_mode U = 2
                then (let cov = projectedCovariance G U A;
                          d = covDet G cov;
                          v2a = (if num_le d (Num 0) then v2\<lparr>v_discard := 1\<rparr> else v2)
                      in case cov of ((c00, c01, c02), (c10, c11, c12), c2) \<Rightarrow>
                         case cam_pos of (cx, cy, cz, cw) \<Rightarrow>
                         (let mid = g_mul G (Num (1 / 2)) (g_add G c00 c11);
                              disc = gl_max (g_lit G (1 / 100)) (g_sub G (g_mul G mid mid) d);
                              lambda1 = g_add G mid (g_sqrt G disc);
                              lambda2 = g_sub G mid (g_sqrt G disc);
                              radius = g_mul G (Num 3) (g_sqrt G (gl_max lambda1 lambda2))
                          in v2a\<lparr>v_radius := g_mul G radius (Num (u_splat_scale U)),
                                 gl_PointSize := g_mul G radius (Num (u_splat_scale U)),
                                 v_cov_a := (c00, c01, c11),
                                 v_cov_b := (cz, d, Num 0)\<rparr>))
                else (case cam_pos of (cx, cy, cz, cw) \<Rightarrow>
                        v2\<lparr>gl_PointSize :=
                             g_mul G (Num (u_point_size U)) (g_div G (Num 200) (num_neg cz))\<rparr>))
      in v3\<lparr>gl_Position := pos_hom\<rparr>)"

datatype fragment = Discarded | FragColor "fvec3 \<times> number"

text \<open>\<open>main\<close> of the fragment shader, at the point coordinate \<open>pc\<close> of a fragment of the
  sprite. A point has one vertex, so each of its fragments gets the varyings as the vertex
  shader left them.\<close>

definition fragmentShader :: "arith \<Rightarrow> uniforms \<Rightarrow> vertex \<Rightarrow> vec2 \<Rightarrow> fragment" where
  "fragmentShader G U V pc =
     (if v_discard V > 0.5 then Discarded
      else (case pc of (pcx, pcy) \<Rightarrow>
        (let cx = g_sub G (g_mul G (Num 2) (Num pcx)) (Num 1);
             cy = g_sub G (g_mul G (Num 2) (Num pcy)) (Num 1) in
         if u_render_mode U = 2
         then (let h = g_div G (v_radius V) (Num 2);
                   sx = g_mul G cx h;
                   sy = g_mul G cy h in
               case v_cov_b V of (b0, det, b2) \<Rightarrow>
               case v_cov_a V of (a0, a1, a2) \<Rightarrow>
                 if num_le det (Num 0) then Discarded
                 else (let ix = g_add G (g_mul G (g_div G a2 det) sx)
                                        (g_mul G (g_div G (num_neg a1) det) sy);
                           iy = g_add G (g_mul G (g_div G (num_neg a1) det) sx)
                                        (g_mul G (g_div G a0 det) sy);
                           D = g_add G (g_mul G sx ix) (g_mul G sy iy)
                       in if num_gt D (Num 4) then Discarded
                          else FragColor (v_color V,
                                 g_mul G (Num (u_opacity U))
                                   (g_exp G (g_mul G (Num (- (1 / 2))) D)))))
         else (let r_squared = g_add G (g_mul G cx cx) (g_mul G cy cy) in
               if num_gt r_squared (Num 1) then Discarded
               else FragColor (v_color V,
                      g_mul G (Num (u_opacity U))
                        (g_exp G (g_mul G (Num (- 4)) r_squared)))))))"

text \<open>One arithmetic among those that the model admits: every operation gives the exact
  result rounded to the nearest single, as IEEE-754 asks of the basic operations.\<close>

definition normalize32 :: "fvec4 \<Rightarrow> fvec4" where
  "normalize32 v = (case v of (a, b, c, d) \<Rightarrow>
     (let len = fround (ext_sqrt
                  (fround (ext_add
                     (fround (ext_add
                        (fround (ext_add (fround (ext_mul a a)) (fround (ext_mul b b))))
                        (fround (ext_mul c c))))
                     (fround (ext_mul d d)))))
      in (fround (ext_div a len), fround (ext_div b len), fround (ext_div c len),
          fround (ext_div d len))))"

definition binary32 :: arith where
  "binary32 =
     \<lparr>g_add = (\<lambda>a b. fround (ext_add a b)),
      g_sub = (\<lambda>a b. fround (ext_add a (num_neg b))),
      g_mul = (\<lambda>a b. fround (ext_mul a b)),
      g_div = (\<lambda>a b. fround (ext_div a b)),
      g_sqrt = (\<lambda>a. fround (ext_sqrt a)),
      g_exp = (\<lambda>a. fround (ext_exp a)),
      g_normalize = normalize32,
      g_lit = toFloat32\<rparr>"

section \<open>Vocabulary of the properties\<close>

text \<open>The number of points that the loop visits: none when the count is NaN.\<close>

definition countOf :: "int option \<Rightarrow> nat" where
  "countOf n = (case n of None \<Rightarrow> 0 | Some k \<Rightarrow> nat k)"

text \<open>The least and the greatest element of a list of numbers.\<close>

definition least :: "number \<Rightarrow> number list \<Rightarrow> bool" where
  "least m xs = (m \<in> set xs \<and> (\<forall>v \<in> set xs. num_le m v))"

definition greatest :: "number \<Rightarrow> number list \<Rightarrow> bool" where
  "greatest m xs = (m \<in> set xs \<and> (\<forall>v \<in> set xs. num_le v m))"

text \<open>The numbers of a list are its elements other than NaN. The minimum of a list is the
  least of its numbers, and \<open>+Infinity\<close> when it has none; the maximum is the greatest
  of them, and \<open>-Infinity\<close> when it has none.\<close>

definition numbers :: "number list \<Rightarrow> number list" where
  "numbers xs = filter (\<lambda>v. v \<noteq> NaN) xs"

definition minimumOf :: "number \<Rightarrow> number list \<Rightarrow> bool" where
  "minimumOf m xs = (if numbers xs = [] then m = Infinity else least m (numbers xs))"

definition maximumOf :: "number \<Rightarrow> number list \<Rightarrow> bool" where
  "maximumOf m xs = (if numbers xs = [] then m = NegInfinity else greatest m (numbers xs))"

text \<open>The two bounds of a box along one axis, for the coordinates \<open>xs\<close> of the points
  along it: the least and the greatest coordinate, and NaN twice when a coordinate is
  NaN.\<close>

definition extentOf :: "number \<Rightarrow> number \<Rightarrow> number list \<Rightarrow> bool" where
  "extentOf lo hi xs =
     (if NaN \<in> set xs then lo = NaN \<and> hi = NaN else least lo xs \<and> greatest hi xs)"

text \<open>The coordinates of the points of a dataset along one axis (0, 1 or 2), in the order
  of the points.\<close>

definition coords :: "PlyData \<Rightarrow> nat \<Rightarrow> number list" where
  "coords d a = map (\<lambda>i. positions d ! (i * 3 + a)) [0..<countOf (pointCount d)]"

definition lower :: "number \<Rightarrow> number \<Rightarrow> number" where
  "lower m y = (if num_lt y m then y else m)"

definition upper :: "number \<Rightarrow> number \<Rightarrow> number" where
  "upper m y = (if num_lt m y then y else m)"

definition pointAt :: "number list \<Rightarrow> nat \<Rightarrow> Vector3" where
  "pointAt ps i = (ps ! (i * 3), ps ! (i * 3 + 1), ps ! (i * 3 + 2))"

text \<open>The state of the loop before the first point.\<close>

definition decoding0 :: "header \<Rightarrow> decoding" where
  "decoding0 h =
     (let N = countOf (h_pointCount h); sp = hasSplat (h_properties h) in
      \<lparr>positions = replicate (N * 3) (Num 0), colors = replicate (N * 3) (Num 0),
       elevations = replicate N (Num 0),
       scales = (if sp then Some (replicate (N * 3) (Num 0)) else None),
       rotations = (if sp then Some (replicate (N * 4) (Num 0)) else None),
       boundingBox = newBox3, pointCount = h_pointCount h,
       minY = Infinity, maxY = NegInfinity\<rparr>)"

text \<open>What holds of the box, the bounds and the elevations after \<open>k\<close> points of \<open>N\<close>.\<close>

definition geomInv :: "nat \<Rightarrow> nat \<Rightarrow> decoding \<Rightarrow> bool" where
  "geomInv N k st =
     (length (positions st) = N * 3 \<and> length (elevations st) = N \<and>
      boundingBox st = foldl expandByPoint newBox3 (map (pointAt (positions st)) [0..<k]) \<and>
      minY st = foldl lower Infinity (map (\<lambda>j. positions st ! (j * 3 + 1)) [0..<k]) \<and>
      maxY st = foldl upper NegInfinity (map (\<lambda>j. positions st ! (j * 3 + 1)) [0..<k]) \<and>
      take k (elevations st) = map (\<lambda>j. positions st ! (j * 3 + 1)) [0..<k])"

text \<open>The colour of the point \<open>j\<close> in \<open>cols\<close>: each channel is \<open>1 / (1 + exp (- v))\<close>,
  rounded to a single, for the float \<open>v\<close> that the view holds at the offset of
  \<open>f_dc_0\<close>, \<open>f_dc_1\<close> or \<open>f_dc_2\<close> in the record \<open>j\<close>.\<close>

definition shColorAt :: "layout \<Rightarrow> number list \<Rightarrow> nat \<Rightarrow> bool" where
  "shColorAt L cols j =
     (\<exists>r g b. readFloat32 L j ''f_dc_0'' = Inr r \<and> readFloat32 L j ''f_dc_1'' = Inr g \<and>
        readFloat32 L j ''f_dc_2'' = Inr b \<and>
        cols ! (j * 3) = fround (num_div (Num 1) (num_add (Num 1) (Math_exp (num_neg r)))) \<and>
        cols ! (j * 3 + 1) = fround (num_div (Num 1) (num_add (Num 1) (Math_exp (num_neg g)))) \<and>
        cols ! (j * 3 + 2) = fround (num_div (Num 1) (num_add (Num 1) (Math_exp (num_neg b)))))"

text \<open>The rotation of the point \<open>j\<close> in \<open>ro\<close> is made of the four floats of \<open>rot_0 .. rot_3\<close>
  in the record \<open>j\<close>, each divided by the norm of the four and rounded to a single, with
  the one of \<open>rot_3\<close> first.\<close>

definition rotationAt :: "layout \<Rightarrow> number list \<Rightarrow> nat \<Rightarrow> bool" where
  "rotationAt L ro j =
     (\<exists>q0 q1 q2 q3 len.
        readFloat32 L j ''rot_0'' = Inr q0 \<and> readFloat32 L j ''rot_1'' = Inr q1 \<and>
        readFloat32 L j ''rot_2'' = Inr q2 \<and> readFloat32 L j ''rot_3'' = Inr q3 \<and>
        len = Math_sqrt (num_add (num_add (num_add (num_mul q0 q0) (num_mul q1 q1))
                                          (num_mul q2 q2)) (num_mul q3 q3)) \<and>
        ro ! (j * 4) = fround (num_div q3 len) \<and>
        ro ! (j * 4 + 1) = fround (num_div q0 len) \<and>
        ro ! (j * 4 + 2) = fround (num_div q1 len) \<and>
        ro ! (j * 4 + 3) = fround (num_div q2 len))"

definition colorInv :: "layout \<Rightarrow> nat \<Rightarrow> nat \<Rightarrow> decoding \<Rightarrow> bool" where
  "colorInv L N k st = (length (colors st) = N * 3 \<and> (\<forall>j<k. shColorAt L (colors st) j))"

definition rotInv :: "layout \<Rightarrow> nat \<Rightarrow> nat \<Rightarrow> decoding \<Rightarrow> bool" where
  "rotInv L N k st =
     (\<exists>ro. rotations st = Some ro \<and> length ro = N * 4 \<and> (\<forall>j<k. rotationAt L ro j))"

text \<open>An error of the runtime, as opposed to an \<open>Error\<close> that the loader constructs.\<close>

definition runtimeError :: "exn \<Rightarrow> bool" where
  "runtimeError e = (case e of Error m \<Rightarrow> False | RangeError m \<Rightarrow> True | TypeError m \<Rightarrow> True)"

section \<open>Sample files\<close>

text \<open>A file is the lines of its header, each ended by a line feed, then the payload, then
  10 KiB of zero bytes (the loader reads the first 10 KiB of any file, and ignores what
  follows the last record).\<close>

definition encode :: "string \<Rightarrow> byte list" where
  "encode s = map (\<lambda>c. of_char c) s"

definition linesText :: "string list \<Rightarrow> string" where
  "linesText ls = concat (map (\<lambda>l. l @ [CHR 0x0A]) ls)"

definition padding :: "byte list" where
  "padding = replicate 10240 0"

definition plyFile :: "string list \<Rightarrow> byte list \<Rightarrow> ArrayBuffer" where
  "plyFile ls payload = encode (linesText ls) @ payload @ padding"

text \<open>Three points with the colours as bytes; the heights are 2, 4 and 6.\<close>

definition elevHeader :: "string list" where
  "elevHeader = [''ply'', ''format binary_little_endian 1.0'', ''element vertex 3'',
     ''property float x'', ''property float y'', ''property float z'',
     ''property uchar red'', ''property uchar green'', ''property uchar blue'', ''end_header'']"

definition elevPayload :: "byte list" where
  "elevPayload =
     [0, 0, 0x80, 0x3F,  0, 0, 0, 0x40,  0, 0, 0x40, 0x40,  255, 0, 51,
      0, 0, 0, 0,  0, 0, 0x80, 0x40,  0, 0, 0x80, 0xBF,  0, 255, 0,
      0, 0, 0, 0x40,  0, 0, 0xC0, 0x40,  0, 0, 0, 0,  0, 0, 255]"

definition elevFile :: ArrayBuffer where
  "elevFile = plyFile elevHeader elevPayload"

definition classicProperties :: "property list" where
  "classicProperties =
     [\<lparr>prop_type = ''float'', prop_name = ''x'', prop_offset = 0\<rparr>,
      \<lparr>prop_type = ''float'', prop_name = ''y'', prop_offset = 4\<rparr>,
      \<lparr>prop_type = ''float'', prop_name = ''z'', prop_offset = 8\<rparr>,
      \<lparr>prop_type = ''uchar'', prop_name = ''red'', prop_offset = 12\<rparr>,
      \<lparr>prop_type = ''uchar'', prop_name = ''green'', prop_offset = 13\<rparr>,
      \<lparr>prop_type = ''uchar'', prop_name = ''blue'', prop_offset = 14\<rparr>]"

definition elevParsed :: header where
  "elevParsed = \<lparr>h_pointCount = Some 3, h_isBinary = True,
                  h_properties = classicProperties, h_currentOffset = 15\<rparr>"

definition elevData :: PlyData where
  "elevData =
     \<lparr>positions = [Num 1, Num 2, Num 3, Num 0, Num 4, Num (- 1), Num 2, Num 6, Num 0],
      colors = [Num 1, Num 0, Num (13421773 / 67108864), Num 0, Num 1, Num 0,
                Num 0, Num 0, Num 1],
      elevations = [Num 0, Num (1 / 2), Num 1],
      scales = None, rotations = None,
      boundingBox = \<lparr>box_min = (Num 0, Num 2, Num (- 1)), box_max = (Num 2, Num 6, Num 3)\<rparr>,
      pointCount = Some 3\<rparr>"

text \<open>The same three points at the heights 0, 1 and 3.\<close>

definition thirdPayload :: "byte list" where
  "thirdPayload =
     [0, 0, 0x80, 0x3F,  0, 0, 0, 0,  0, 0, 0x40, 0x40,  255, 0, 51,
      0, 0, 0, 0,  0, 0, 0x80, 0x3F,  0, 0, 0x80, 0xBF,  0, 255, 0,
      0, 0, 0, 0x40,  0, 0, 0x40, 0x40,  0, 0, 0, 0,  0, 0, 255]"

definition thirdFile :: ArrayBuffer where
  "thirdFile = plyFile elevHeader thirdPayload"

definition thirdData :: PlyData where
  "thirdData =
     \<lparr>positions = [Num 1, Num 0, Num 3, Num 0, Num 1, Num (- 1), Num 2, Num 3, Num 0],
      colors = [Num 1, Num 0, Num (13421773 / 67108864), Num 0, Num 1, Num 0,
                Num 0, Num 0, Num 1],
      elevations = [Num 0, Num (11184811 / 33554432), Num 1],
      scales = None, rotations = None,
      boundingBox = \<lparr>box_min = (Num 0, Num 0, Num (- 1)), box_max = (Num 2, Num 3, Num 3)\<rparr>,
      pointCount = Some 3\<rparr>"

text \<open>Two points, both at the height 7.\<close>

definition flatHeader :: "string list" where
  "flatHeader = [''ply'', ''format binary_little_endian 1.0'', ''element vertex 2'',
     ''property float x'', ''property float y'', ''property float z'',
     ''property uchar red'', ''property uchar green'', ''property uchar blue'', ''end_header'']"

definition flatPayload :: "byte list" where
  "flatPayload =
     [0, 0, 0x80, 0x3F,  0, 0, 0xE0, 0x40,  0, 0, 0x40, 0x40,  255, 0, 51,
      0, 0, 0, 0,  0, 0, 0xE0, 0x40,  0, 0, 0x80, 0xBF,  0, 255, 0]"

definition flatFile :: ArrayBuffer where
  "flatFile = plyFile flatHeader flatPayload"

definition flatParsed :: header where
  "flatParsed = \<lparr>h_pointCount = Some 2, h_isBinary = True,
                  h_properties = classicProperties, h_currentOffset = 15\<rparr>"

definition flatData :: PlyData where
  "flatData =
     \<lparr>positions = [Num 1, Num 7, Num 3, Num 0, Num 7, Num (- 1)],
      colors = [Num 1, Num 0, Num (13421773 / 67108864), Num 0, Num 1, Num 0],
      elevations = [Num (1 / 2), Num (1 / 2)],
      scales = None, rotations = None,
      boundingBox = \<lparr>box_min = (Num 0, Num 7, Num (- 1)), box_max = (Num 1, Num 7, Num 3)\<rparr>,
      pointCount = Some 2\<rparr>"

text \<open>Two points; the height of the first is a NaN of binary32 (the bytes
  \<open>00 00 C0 7F\<close>) and the height of the second is 2.\<close>

definition nanPayload :: "byte list" where
  "nanPayload =
     [0, 0, 0x80, 0x3F,  0, 0, 0xC0, 0x7F,  0, 0, 0x40, 0x40,  255, 0, 51,
      0, 0, 0, 0,  0, 0, 0, 0x40,  0, 0, 0x80, 0xBF,  0, 255, 0]"

definition nanFile :: ArrayBuffer where
  "nanFile = plyFile flatHeader nanPayload"

definition nanData :: PlyData where
  "nanData =
     \<lparr>positions = [Num 1, NaN, Num 3, Num 0, Num 2, Num (- 1)],
      colors = [Num 1, Num 0, Num (13421773 / 67108864), Num 0, Num 1, Num 0],
      elevations = [Num (1 / 2), Num (1 / 2)],
      scales = None, rotations = None,
      boundingBox = \<lparr>box_min = (Num 0, NaN, Num (- 1)), box_max = (Num 1, NaN, Num 3)\<rparr>,
      pointCount = Some 2\<rparr>"

text \<open>One splat that carries both colour schemes: \<open>f_dc\<close> is \<open>(0, 0, 0)\<close>, the bytes of
  red, green and blue are 255, the three log-scales are 0 and \<open>rot_0 .. rot_3\<close> is
  \<open>(3, 0, 0, 4)\<close>.\<close>

definition splatHeader :: "string list" where
  "splatHeader = [''ply'', ''format binary_little_endian 1.0'', ''element vertex 1'',
     ''property float x'', ''property float y'', ''property float z'',
     ''property float f_dc_0'', ''property float f_dc_1'', ''property float f_dc_2'',
     ''property uchar red'', ''property uchar green'', ''property uchar blue'',
     ''property float scale_0'', ''property float scale_1'', ''property float scale_2'',
     ''property float rot_0'', ''property float rot_1'', ''property float rot_2'',
     ''property float rot_3'', ''end_header'']"

definition splatPayload :: "byte list" where
  "splatPayload =
     [0, 0, 0x80, 0x3F,  0, 0, 0, 0x40,  0, 0, 0x40, 0x40,
      0, 0, 0, 0,  0, 0, 0, 0,  0, 0, 0, 0,
      255, 255, 255,
      0, 0, 0, 0,  0, 0, 0, 0,  0, 0, 0, 0,
      0, 0, 0x40, 0x40,  0, 0, 0, 0,  0, 0, 0, 0,  0, 0, 0x80, 0x40]"

definition splatFile :: ArrayBuffer where
  "splatFile = plyFile splatHeader splatPayload"

definition splatParsed :: header where
  "splatParsed = \<lparr>h_pointCount = Some 1, h_isBinary = True,
     h_properties =
       [\<lparr>prop_type = ''float'', prop_name = ''x'', prop_offset = 0\<rparr>,
        \<lparr>prop_type = ''float'', prop_name = ''y'', prop_offset = 4\<rparr>,
        \<lparr>prop_type = ''float'', prop_name = ''z'', prop_offset = 8\<rparr>,
        \<lparr>prop_type = ''float'', prop_name = ''f_dc_0'', prop_offset = 12\<rparr>,
        \<lparr>prop_type = ''float'', prop_name = ''f_dc_1'', prop_offset = 16\<rparr>,
        \<lparr>prop_type = ''float'', prop_name = ''f_dc_2'', prop_offset = 20\<rparr>,
        \<lparr>prop_type = ''uchar'', prop_name = ''red'', prop_offset = 24\<rparr>,
        \<lparr>prop_type = ''uchar'', prop_name = ''green'', prop_offset = 25\<rparr>,
        \<lparr>prop_type = ''uchar'', prop_name = ''blue'', prop_offset = 26\<rparr>,
        \<lparr>prop_type = ''float'', prop_name = ''scale_0'', prop_offset = 27\<rparr>,
        \<lparr>prop_type = ''float'', prop_name = ''scale_1'', prop_offset = 31\<rparr>,
        \<lparr>prop_type = ''float'', prop_name = ''scale_2'', prop_offset = 35\<rparr>,
        \<lparr>prop_type = ''float'', prop_name = ''rot_0'', prop_offset = 39\<rparr>,
        \<lparr>prop_type = ''float'', prop_name = ''rot_1'', prop_offset = 43\<rparr>,
        \<lparr>prop_type = ''float'', prop_name = ''rot_2'', prop_offset = 47\<rparr>,
        \<lparr>prop_type = ''float'', prop_name = ''rot_3'', prop_offset = 51\<rparr>],
     h_currentOffset = 55\<rparr>"

definition splatData :: PlyData where
  "splatData =
     \<lparr>positions = [Num 1, Num 2, Num 3],
      colors = [Num (1 / 2), Num (1 / 2), Num (1 / 2)],
      elevations = [Num (1 / 2)],
      scales = Some [Num 1, Num 1, Num 1],
      rotations = Some [Num (13421773 / 16777216), Num (5033165 / 8388608), Num 0, Num 0],
      boundingBox = \<lparr>box_min = (Num 1, Num 2, Num 3), box_max = (Num 1, Num 2, Num 3)\<rparr>,
      pointCount = Some 1\<rparr>"

text \<open>The same splat with 0 in the bytes of red, green and blue.\<close>

definition greyPayload :: "byte list" where
  "greyPayload =
     [0, 0, 0x80, 0x3F,  0, 0, 0, 0x40,  0, 0, 0x40, 0x40,
      0, 0, 0, 0,  0, 0, 0, 0,  0, 0, 0, 0,
      0, 0, 0,
      0, 0, 0, 0,  0, 0, 0, 0,  0, 0, 0, 0,
      0, 0, 0x40, 0x40,  0, 0, 0, 0,  0, 0, 0, 0,  0, 0, 0x80, 0x40]"

definition greyFile :: ArrayBuffer where
  "greyFile = plyFile splatHeader greyPayload"

text \<open>One point that carries both colour schemes, with \<open>f_dc_2\<close> declared as one byte
  directly before red, green and blue: the four bytes that the loader reads at the offset of
  \<open>f_dc_2\<close> are that byte and the three of red, green and blue. The two payloads differ
  in the bytes of green and blue only.\<close>

definition overlapHeader :: "string list" where
  "overlapHeader = [''ply'', ''format binary_little_endian 1.0'', ''element vertex 1'',
     ''property float x'', ''property float y'', ''property float z'',
     ''property float f_dc_0'', ''property float f_dc_1'', ''property uchar f_dc_2'',
     ''property uchar red'', ''property uchar green'', ''property uchar blue'', ''end_header'']"

definition darkPayload :: "byte list" where
  "darkPayload =
     [0, 0, 0x80, 0x3F,  0, 0, 0, 0x40,  0, 0, 0x40, 0x40,
      0, 0, 0, 0,  0, 0, 0, 0,  0,
      0, 0, 0]"

definition brightPayload :: "byte list" where
  "brightPayload =
     [0, 0, 0x80, 0x3F,  0, 0, 0, 0x40,  0, 0, 0x40, 0x40,
      0, 0, 0, 0,  0, 0, 0, 0,  0,
      0, 0x80, 0x7F]"

definition darkFile :: ArrayBuffer where
  "darkFile = plyFile overlapHeader darkPayload"

definition brightFile :: ArrayBuffer where
  "brightFile = plyFile overlapHeader brightPayload"

definition overlapParsed :: header where
  "overlapParsed = \<lparr>h_pointCount = Some 1, h_isBinary = True,
     h_properties =
       [\<lparr>prop_type = ''float'', prop_name = ''x'', prop_offset = 0\<rparr>,
        \<lparr>prop_type = ''float'', prop_name = ''y'', prop_offset = 4\<rparr>,
        \<lparr>prop_type = ''float'', prop_name = ''z'', prop_offset = 8\<rparr>,
        \<lparr>prop_type = ''float'', prop_name = ''f_dc_0'', prop_offset = 12\<rparr>,
        \<lparr>prop_type = ''float'', prop_name = ''f_dc_1'', prop_offset = 16\<rparr>,
        \<lparr>prop_type = ''uchar'', prop_name = ''f_dc_2'', prop_offset = 20\<rparr>,
        \<lparr>prop_type = ''uchar'', prop_name = ''red'', prop_offset = 21\<rparr>,
        \<lparr>prop_type = ''uchar'', prop_name = ''green'', prop_offset = 22\<rparr>,
        \<lparr>prop_type = ''uchar'', prop_name = ''blue'', prop_offset = 23\<rparr>],
     h_currentOffset = 24\<rparr>"

definition darkData :: PlyData where
  "darkData =
     \<lparr>positions = [Num 1, Num 2, Num 3],
      colors = [Num (1 / 2), Num (1 / 2), Num (1 / 2)],
      elevations = [Num (1 / 2)],
      scales = None, rotations = None,
      boundingBox = \<lparr>box_min = (Num 1, Num 2, Num 3), box_max = (Num 1, Num 2, Num 3)\<rparr>,
      pointCount = Some 1\<rparr>"

definition brightData :: PlyData where
  "brightData =
     \<lparr>positions = [Num 1, Num 2, Num 3],
      colors = [Num (1 / 2), Num (1 / 2), Num 1],
      elevations = [Num (1 / 2)],
      scales = None, rotations = None,
      boundingBox = \<lparr>box_min = (Num 1, Num 2, Num 3), box_max = (Num 1, Num 2, Num 3)\<rparr>,
      pointCount = Some 1\<rparr>"

text \<open>One point with no colour at all.\<close>

definition plainHeader :: "string list" where
  "plainHeader = [''ply'', ''format binary_little_endian 1.0'', ''element vertex 1'',
     ''property float x'', ''property float y'', ''property float z'', ''end_header'']"

definition plainPayload :: "byte list" where
  "plainPayload = [0, 0, 0x80, 0x3F,  0, 0, 0, 0x40,  0, 0, 0x40, 0x40]"

definition plainFile :: ArrayBuffer where
  "plainFile = plyFile plainHeader plainPayload"

definition plainParsed :: header where
  "plainParsed = \<lparr>h_pointCount = Some 1, h_isBinary = True,
     h_properties =
       [\<lparr>prop_type = ''float'', prop_name = ''x'', prop_offset = 0\<rparr>,
        \<lparr>prop_type = ''float'', prop_name = ''y'', prop_offset = 4\<rparr>,
        \<lparr>prop_type = ''float'', prop_name = ''z'', prop_offset = 8\<rparr>],
     h_currentOffset = 12\<rparr>"

text \<open>The same header without its last line: nothing in the first 10 KiB of the file ends
  the header.\<close>

definition openHeader :: "string list" where
  "openHeader = [''ply'', ''format binary_little_endian 1.0'', ''element vertex 1'',
     ''property float x'', ''property float y'', ''property float z'']"

definition openFile :: ArrayBuffer where
  "openFile = plyFile openHeader plainPayload"

text \<open>A state of the application that shows the first sample, in the colormap mode.\<close>

definition shownState :: AppState where
  "shownState = initialState\<lparr>plyData := Some elevData, renderMode := COLORMAP,
                              stats := \<lparr>fps = 60, stat_pointCount = Some 3\<rparr>\<rparr>"

text \<open>Inputs of the shaders: a camera five units in front of the origin, a crop box from
  \<open>(0, 0, 0)\<close> to \<open>(1, 1, 1)\<close>, and a splat at the origin whose first scale is zero.\<close>

definition identity4 :: mat4 where
  "identity4 = ((1, 0, 0, 0), (0, 1, 0, 0), (0, 0, 1, 0), (0, 0, 0, 1))"

definition sampleUniforms :: uniforms where
  "sampleUniforms =
     \<lparr>u_point_size = 5, u_scale = 1, u_splat_scale = 1,
      u_crop_min = (0, 0, 0), u_crop_max = (1, 1, 1), u_crop_enabled = True,
      u_render_mode = 0, u_focal = (1, 1), u_opacity = 1,
      modelViewMatrix = ((1, 0, 0, 0), (0, 1, 0, 0), (0, 0, 1, 0), (0, 0, - 5, 1)),
      projectionMatrix = identity4\<rparr>"

definition flatSplat :: attributes where
  "flatSplat = \<lparr>position = (0, 0, 0), color = (Num 1, Num 1, Num 1), elevation = Num 0,
                 a_scale = (Num 0, Num 1, Num 1), a_rotation = (Num 1, Num 0, Num 0, Num 0)\<rparr>"


definition zeroVertex :: vertex where
  "zeroVertex = \<lparr>v_color = (Num 0, Num 0, Num 0), v_discard = 0,
                  v_cov_a = (Num 0, Num 0, Num 0), v_cov_b = (Num 0, Num 0, Num 0),
                  v_radius = Num 0, gl_PointSize = Num 0,
                  gl_Position = (Num 0, Num 0, Num 0, Num 0)\<rparr>"

section \<open>Facts about the loader\<close>

subsection \<open>Rounding\<close>

lemma normExp_numeral:
  "normExp (numeral k) x e =
     (if 2 \<le> x then normExp (pred_numeral k) (x / 2) (e + 1)
      else if x < 1 then normExp (pred_numeral k) (2 * x) (e - 1)
      else e)"
  by (simp add: numeral_eq_Suc)

lemmas round_eval =
  toDouble_def toFloat32_def roundTo_def withSign_def nearest_def quantize_def ulp_def
  normExp_numeral roundEven_def tieEven_def pow2_def

lemmas arith_simps =
  num_add_def num_sub_def num_mul_def num_div_def Math_sqrt_def Math_exp_def rounded_def
  fround_def round_eval

lemma pow2_powi: "pow2 e = 2 powi e"
  by (simp add: pow2_def power_int_def field_simps)

lemma pow2_pos: "0 < pow2 e"
  by (simp add: pow2_powi)

lemma pow2_add: "pow2 (a + b) = pow2 a * pow2 b"
  by (simp add: pow2_powi power_int_add)

lemma pow2_Suc: "pow2 (e + 1) = 2 * pow2 e"
  by (simp add: pow2_add) (simp add: pow2_def)

lemma pow2_pred: "pow2 (e - 1) = pow2 e / 2"
  using pow2_Suc [of "e - 1"] by simp

lemma pow2_nat: "pow2 (int n) = 2 ^ n"
  by (simp add: pow2_def)

lemma pow2_mono: "a \<le> b \<Longrightarrow> pow2 a \<le> pow2 b"
  by (simp add: pow2_powi power_int_increasing)

lemma pow2_strict_mono:
  assumes "a < b"
  shows "pow2 a < pow2 b"
proof -
  have "pow2 b = pow2 a * pow2 (b - a)" by (simp add: pow2_add [symmetric])
  moreover have "1 < pow2 (b - a)" using assms by (simp add: pow2_def)
  ultimately show ?thesis using pow2_pos [of a] by simp
qed

lemma pow2_less_iff: "(pow2 a < pow2 b) = (a < b)"
proof
  assume "pow2 a < pow2 b"
  then show "a < b" using pow2_mono [of b a] by (cases "a < b") simp_all
qed (rule pow2_strict_mono)

lemma normExp_unit: "1 \<le> a \<Longrightarrow> a < 2 \<Longrightarrow> normExp n a k = k"
  by (cases n) simp_all

text \<open>With enough steps, \<open>normExp\<close> finds the exponent of a positive number.\<close>

lemma normExp_ge1:
  "1 \<le> a \<Longrightarrow> a < 2 ^ n \<Longrightarrow>
     pow2 (normExp n a k - k) \<le> a \<and> a < pow2 (normExp n a k - k + 1)"
proof (induction n arbitrary: a k)
  case 0
  then show ?case by simp
next
  case (Suc n)
  show ?case
  proof (cases "2 \<le> a")
    case True
    then have "1 \<le> a / 2" "a / 2 < 2 ^ n" using Suc.prems by simp_all
    from Suc.IH [OF this, of "k + 1"] True show ?thesis
      using pow2_Suc [of "normExp n (a / 2) (k + 1) - k"]
        pow2_pred [of "normExp n (a / 2) (k + 1) - k"]
      by (simp add: algebra_simps)
  next
    case False
    with Suc.prems show ?thesis by (simp add: pow2_def)
  qed
qed

lemma normExp_lt1:
  "0 < a \<Longrightarrow> a < 1 \<Longrightarrow> 1 \<le> a * 2 ^ n \<Longrightarrow>
     pow2 (normExp n a k - k) \<le> a \<and> a < pow2 (normExp n a k - k + 1)"
proof (induction n arbitrary: a k)
  case 0
  then show ?case by simp
next
  case (Suc n)
  show ?case
  proof (cases "2 * a < 1")
    case True
    have "0 < 2 * a" "1 \<le> 2 * a * 2 ^ n" using Suc.prems by (simp_all add: mult.assoc)
    from Suc.IH [OF this(1) True this(2), of "k - 1"] Suc.prems show ?thesis
      using pow2_Suc [of "normExp n (2 * a) (k - 1) - k"]
        pow2_Suc [of "normExp n (2 * a) (k - 1) - k + 1"]
      by (simp add: algebra_simps)
  next
    case False
    then have "normExp n (2 * a) (k - 1) = k - 1"
      using Suc.prems by (intro normExp_unit) simp_all
    with Suc.prems False show ?thesis by (simp add: pow2_def)
  qed
qed

lemma normExp_tiny: "0 < a \<Longrightarrow> a * 2 ^ n < 1 \<Longrightarrow> normExp n a k = k - int n"
proof (induction n arbitrary: a k)
  case 0
  then show ?case by simp
next
  case (Suc n)
  have "a * 2 ^ n \<le> a * 2 ^ Suc n" using Suc.prems by simp
  then have "a < 1" using Suc.prems(1,2)
    by (smt (verit) mult_le_cancel_left1 one_le_power)
  moreover have "0 < 2 * a" "2 * a * 2 ^ n < 1" using Suc.prems by (simp_all add: mult.assoc)
  ultimately show ?case using Suc.IH [OF \<open>0 < 2 * a\<close> \<open>2 * a * 2 ^ n < 1\<close>, of "k - 1"] by simp
qed

lemma normExp_below:
  assumes "0 < a" "a < 2 ^ n"
  shows "pow2 (normExp n a 0) \<le> a \<or> normExp n a 0 = - int n"
proof (cases "1 \<le> a")
  case True
  from normExp_ge1 [OF this assms(2), of 0] show ?thesis by simp
next
  case False
  show ?thesis
  proof (cases "1 \<le> a * 2 ^ n")
    case True
    from normExp_lt1 [OF assms(1) _ this, of 0] False show ?thesis by simp
  next
    case False
    then show ?thesis using normExp_tiny [OF assms(1), of n 0] by simp
  qed
qed

lemma roundEven_of_int: "roundEven (of_int z) = z"
  by (simp add: roundEven_def tieEven_def)

text \<open>A number that the format holds is rounded to itself: \<open>m * 2 ^ e\<close> with \<open>m\<close> below
  \<open>2 ^ p\<close>, \<open>e\<close> not below the exponent of the least subnormal, and the whole below
  \<open>2 ^ (emax + 1)\<close>.\<close>

lemma nearest_exact:
  assumes a: "a = of_int m * pow2 e" and m: "0 < m" "m < 2 ^ p"
    and e: "emin - (int p - 1) \<le> e" and top: "a < pow2 (emax + 1)"
  shows "nearest p emin emax a = a"
proof -
  define F where "F = nat (max (emax + 1) (1 - emin))"
  define ex where "ex = normExp F a 0"
  define e' where "e' = max emin ex"
  have apos: "0 < a" using a m(1) by (simp add: pow2_pos)
  have F1: "emax + 1 \<le> int F" and F2: "- int F < emin" unfolding F_def by linarith+
  have "a < pow2 (int F)" using top pow2_mono [OF F1] by simp
  then have aF: "a < 2 ^ F" by (simp add: pow2_nat)
  have le: "e' \<le> e + int p - 1"
  proof (cases "ex \<le> emin")
    case True
    then show ?thesis using e by (simp add: e'_def)
  next
    case False
    with F2 have "ex \<noteq> - int F" by simp
    with normExp_below [OF apos aF] have "pow2 ex \<le> a" by (simp add: ex_def)
    also have "a < 2 ^ p * pow2 e" using m(2) by (simp add: a pow2_pos)
    also have "\<dots> = pow2 (int p + e)" by (simp add: pow2_add pow2_nat)
    finally have "ex < int p + e" by (simp add: pow2_less_iff)
    with False show ?thesis by (simp add: e'_def)
  qed
  define s where "s = nat (e + int p - 1 - e')"
  have s: "e = (e' - (int p - 1)) + int s" using le by (simp add: s_def)
  have u: "ulp p emin emax a = pow2 (e' - (int p - 1))"
    by (simp add: ulp_def e'_def ex_def F_def)
  define u0 where "u0 = pow2 (e' - (int p - 1))"
  have u0: "0 < u0" by (simp add: u0_def pow2_pos)
  have "pow2 e = u0 * 2 ^ s" by (subst s) (simp add: pow2_add pow2_nat u0_def)
  then have a': "a = of_int (m * 2 ^ s) * u0" by (simp add: a)
  then have q: "a / u0 = of_int (m * 2 ^ s)" using u0 by simp
  have "nearest p emin emax a = of_int (roundEven (a / u0)) * u0"
    by (simp add: nearest_def quantize_def u u0_def)
  also have "\<dots> = of_int (m * 2 ^ s) * u0" by (simp only: q roundEven_of_int)
  also have "\<dots> = a" by (simp only: a')
  finally show ?thesis .
qed

lemma roundTo_exact:
  assumes x: "x = of_int m * pow2 e" and m: "\<bar>m\<bar> < 2 ^ p"
    and e: "emin - (int p - 1) \<le> e" and top: "\<bar>x\<bar> < pow2 (emax + 1)"
  shows "roundTo p emin emax x = Num x"
proof (cases "x = 0")
  case True
  then show ?thesis by (simp add: roundTo_def)
next
  case False
  then have m0: "m \<noteq> 0" using x by auto
  have ax: "\<bar>x\<bar> = of_int \<bar>m\<bar> * pow2 e"
    using pow2_pos [of e] by (simp add: x abs_mult)
  have "nearest p emin emax \<bar>x\<bar> = \<bar>x\<bar>"
    using ax _ m e top by (rule nearest_exact) (use m0 in simp)
  then show ?thesis using False top
    by (cases "0 < x") (simp_all add: roundTo_def withSign_def)
qed

lemma and_mask_bound: "unat ((w :: 32 word) AND 0x7FFFFF) < 2 ^ 23"
proof -
  have "w AND 0x7FFFFF \<le> 0x7FFFFF" by (rule word_and_le1)
  then have "unat (w AND 0x7FFFFF) \<le> unat (0x7FFFFF :: 32 word)" by (simp add: word_le_nat_alt)
  then show ?thesis by simp
qed

lemma exp_field_bound: "unat ((w :: 32 word) AND 0xFF) \<le> 255"
proof -
  have "w AND 0xFF \<le> 0xFF" by (rule word_and_le1)
  then have "unat (w AND 0xFF) \<le> unat (0xFF :: 32 word)" by (simp add: word_le_nat_alt)
  then show ?thesis by simp
qed

lemma toFloat32_finite:
  assumes sg: "sg = 1 \<or> sg = - 1"
    and "(m :: nat) < 2 ^ 24" "(k :: int) \<le> 104" "- 149 \<le> k"
  shows "toFloat32 (sg * (real m * pow2 k)) = Num (sg * (real m * pow2 k))"
proof -
  define z where "z = (if sg = 1 then int m else - int m)"
  have x: "sg * (real m * pow2 k) = of_int z * pow2 k" using sg by (auto simp: z_def)
  have zb: "\<bar>z\<bar> < 2 ^ 24" using assms(2) by (simp add: z_def)
  have "\<bar>of_int z * pow2 k\<bar> = real m * pow2 k"
    using pow2_pos [of k] by (simp add: z_def abs_mult)
  also have "\<dots> < 2 ^ 24 * pow2 k" using assms(2) pow2_pos [of k] by simp
  also have "\<dots> = pow2 (24 + k)" by (simp add: pow2_add) (simp add: pow2_def)
  also have "\<dots> \<le> pow2 (127 + 1)" using assms(3) by (intro pow2_mono) simp
  finally have top: "\<bar>of_int z * pow2 k\<bar> < pow2 (127 + 1)" .
  show ?thesis
    unfolding x toFloat32_def
    by (rule roundTo_exact [OF refl _ _ top]) (use zb assms(4) in simp_all)
qed

text \<open>The value of a binary32 bit pattern is a single: a store into a \<open>Float32Array\<close>
  leaves it as it is.\<close>

lemma fround_float32_value: "fround (float32_value w) = float32_value w"
proof -
  define sg where "sg = (if bit w 31 then - 1 else 1 :: real)"
  define ee where "ee = unat (drop_bit 23 w AND 0xFF)"
  define m where "m = unat (w AND 0x7FFFFF)"
  have sg: "sg = 1 \<or> sg = - 1" by (simp add: sg_def)
  have mb: "m < 2 ^ 23" unfolding m_def by (rule and_mask_bound)
  have eb: "ee \<le> 255" unfolding ee_def by (rule exp_field_bound)
  have v: "float32_value w =
     (if ee = 255 then (if m = 0 then (if bit w 31 then NegInfinity else Infinity) else NaN)
      else if ee = 0 then Num (sg * real m / 2 ^ 149)
      else if ee < 150 then Num (sg * (2 ^ 23 + real m) / 2 ^ (150 - ee))
      else Num (sg * (2 ^ 23 + real m) * 2 ^ (ee - 150)))"
    by (simp add: float32_value_def Let_def sg_def ee_def m_def)
  show ?thesis
  proof (cases "ee = 255")
    case True
    then show ?thesis by (simp add: v fround_def)
  next
    case False
    with eb have e254: "ee \<le> 254" by simp
    show ?thesis
    proof (cases "ee = 0")
      case True
      have "pow2 (- 149) = 1 / 2 ^ 149" by (simp add: pow2_def)
      with True have val: "float32_value w = Num (sg * (real m * pow2 (- 149)))" by (simp add: v)
      have "toFloat32 (sg * (real m * pow2 (- 149))) = Num (sg * (real m * pow2 (- 149)))"
        using sg by (rule toFloat32_finite) (use mb in simp_all)
      then show ?thesis by (simp add: val fround_def)
    next
      case nz: False
      define M where "M = 2 ^ 23 + m"
      have Mb: "M < 2 ^ 24" using mb by (simp add: M_def)
      define k where "k = int ee - 150"
      have kb: "k \<le> 104" "- 149 \<le> k" using e254 nz by (simp_all add: k_def)
      have val: "float32_value w = Num (sg * (real M * pow2 k))"
      proof (cases "ee < 150")
        case True
        then have "pow2 k = 1 / 2 ^ (150 - ee)"
          by (simp add: pow2_def k_def nat_diff_distrib')
        with True nz False show ?thesis by (simp add: v M_def)
      next
        case ge: False
        then have "pow2 k = 2 ^ (ee - 150)"
          by (simp add: pow2_def k_def nat_diff_distrib')
        with ge nz False show ?thesis by (simp add: v M_def)
      qed
      have "toFloat32 (sg * (real M * pow2 k)) = Num (sg * (real M * pow2 k))"
        using sg by (rule toFloat32_finite) (use Mb kb in simp_all)
      then show ?thesis by (simp add: val fround_def)
    qed
  qed
qed

lemma getFloat32_fround: "getFloat32 v off = Inr x \<Longrightarrow> fround x = x"
  by (auto simp: getFloat32_def fround_float32_value split: if_splits)

subsection \<open>Results and errors\<close>

declare decodeLoop.simps [simp del]

lemma bind_Inr [simp]: "bind (Inr v) f = f v"
  by (simp add: bind_def)

lemma bind_Inl [simp]: "bind (Inl e) f = Inl e"
  by (simp add: bind_def)

lemma bind_eq_Inr: "(bind m f = Inr r) = (\<exists>v. m = Inr v \<and> f v = Inr r)"
  by (cases m) simp_all

lemma bind_eq_Inl: "(bind m f = Inl e) = (m = Inl e \<or> (\<exists>v. m = Inr v \<and> f v = Inl e))"
  by (cases m) simp_all

lemma bind_runtimeError:
  assumes "bind m f = Inl e" and "m = Inl e \<Longrightarrow> runtimeError e"
    and "\<And>v. m = Inr v \<Longrightarrow> f v = Inl e \<Longrightarrow> runtimeError e"
  shows "runtimeError e"
  using assms by (auto simp: bind_eq_Inl)

lemma getFloat32_runtimeError: "getFloat32 v off = Inl e \<Longrightarrow> runtimeError e"
  by (auto simp: getFloat32_def runtimeError_def split: if_splits)

lemma getUint8_runtimeError: "getUint8 v off = Inl e \<Longrightarrow> runtimeError e"
  by (auto simp: getUint8_def runtimeError_def split: if_splits)

lemma offsetOf_runtimeError: "offsetOf m k = Inl e \<Longrightarrow> runtimeError e"
  by (auto simp: offsetOf_def runtimeError_def split: option.splits)

lemma readFloat32_runtimeError: "readFloat32 L i k = Inl e \<Longrightarrow> runtimeError e"
  unfolding readFloat32_def
  by (erule bind_runtimeError) (auto dest: offsetOf_runtimeError getFloat32_runtimeError)

lemma readFloat32_fround: "readFloat32 L i k = Inr x \<Longrightarrow> fround x = x"
  unfolding readFloat32_def by (auto simp: bind_eq_Inr dest: getFloat32_fround)

lemma readUint8_runtimeError: "readUint8 L i k = Inl e \<Longrightarrow> runtimeError e"
  unfolding readUint8_def
  by (erule bind_runtimeError) (auto dest: offsetOf_runtimeError getUint8_runtimeError)

lemma decodeColor_runtimeError: "decodeColor L i cols = Inl e \<Longrightarrow> runtimeError e"
  unfolding decodeColor_def Let_def
  by (auto simp: bind_eq_Inl dest: readFloat32_runtimeError readUint8_runtimeError
      split: if_splits)

lemma decodeSplat_runtimeError: "decodeSplat L i scs rots = Inl e \<Longrightarrow> runtimeError e"
  unfolding decodeSplat_def Let_def
  by (auto simp: bind_eq_Inl runtimeError_def dest!: readFloat32_runtimeError
      split: if_splits option.splits)

lemma decodePoint_runtimeError: "decodePoint L i st = Inl e \<Longrightarrow> runtimeError e"
  unfolding decodePoint_def Let_def
  by (auto simp: bind_eq_Inl dest: readFloat32_runtimeError decodeColor_runtimeError
      decodeSplat_runtimeError)

lemma decodeLoop_runtimeError: "decodeLoop L i n st = Inl e \<Longrightarrow> runtimeError e"
proof (induction L i n st rule: decodeLoop.induct)
  case (1 L i n st)
  show ?case
  proof (cases "belowCount i n")
    case True
    with "1.prems" have "decodePoint L i st = Inl e \<or>
        (\<exists>s. decodePoint L i st = Inr s \<and> decodeLoop L (i + 1) n s = Inl e)"
      by (subst (asm) decodeLoop.simps) (simp add: bind_eq_Inl)
    then show ?thesis
      using "1.IH" [OF True] by (auto dest: decodePoint_runtimeError)
  next
    case False
    with "1.prems" show ?thesis by (subst (asm) decodeLoop.simps) simp
  qed
qed

lemma newFloat32Array_runtimeError: "newFloat32Array n = Inl e \<Longrightarrow> runtimeError e"
  by (auto simp: newFloat32Array_def runtimeError_def split: option.splits if_splits)

lemma optionalArray_runtimeError: "optionalArray b n = Inl e \<Longrightarrow> runtimeError e"
  by (auto simp: optionalArray_def bind_eq_Inl dest: newFloat32Array_runtimeError split: if_splits)

lemma newDataView_runtimeError: "newDataView b off = Inl e \<Longrightarrow> runtimeError e"
  by (auto simp: newDataView_def runtimeError_def split: if_splits)

lemma decodePoints_runtimeError: "decodePoints buffer h off = Inl e \<Longrightarrow> runtimeError e"
  unfolding decodePoints_def Let_def
  by (auto simp: bind_eq_Inl dest: newFloat32Array_runtimeError optionalArray_runtimeError
      newDataView_runtimeError decodeLoop_runtimeError)

subsection \<open>The order of the numbers\<close>

lemma num_le_refl: "a \<noteq> NaN \<Longrightarrow> num_le a a"
  by (simp add: num_le_def)

lemma num_le_trans: "num_le a b \<Longrightarrow> num_le b c \<Longrightarrow> num_le a c"
  by (cases a; cases b; cases c) (auto simp: num_le_def)

lemma num_le_Infinity: "a \<noteq> NaN \<Longrightarrow> num_le a Infinity"
  by (cases a) (auto simp: num_le_def)

lemma num_le_NegInfinity: "a \<noteq> NaN \<Longrightarrow> num_le NegInfinity a"
  by (cases a) (auto simp: num_le_def)

lemma num_le_antisym: "num_le a b \<Longrightarrow> num_le b a \<Longrightarrow> a = b"
  by (cases a; cases b) (auto simp: num_le_def)

lemma not_lt_le: "a \<noteq> NaN \<Longrightarrow> b \<noteq> NaN \<Longrightarrow> \<not> num_lt b a \<Longrightarrow> num_le a b"
  by (cases a; cases b) (auto simp: num_le_def)

lemma lt_le: "num_lt a b \<Longrightarrow> num_le a b"
  by (simp add: num_le_def)

lemma foldl_lower:
  assumes "NaN \<notin> set ys" "m \<noteq> NaN"
  shows "(foldl lower m ys = m \<or> foldl lower m ys \<in> set ys) \<and> num_le (foldl lower m ys) m
         \<and> (\<forall>v \<in> set ys. num_le (foldl lower m ys) v)"
  using assms
proof (induction ys arbitrary: m)
  case Nil
  then show ?case by (simp add: num_le_refl)
next
  case (Cons y ys)
  from Cons.prems have y: "y \<noteq> NaN" and ys: "NaN \<notin> set ys" by auto
  have lm: "lower m y \<noteq> NaN" using y Cons.prems(2) by (simp add: lower_def)
  note IH = Cons.IH [OF ys lm]
  have a: "num_le (lower m y) m" "num_le (lower m y) y"
    using y Cons.prems(2) by (auto simp: lower_def lt_le num_le_refl not_lt_le)
  have b: "lower m y = m \<or> lower m y = y" by (simp add: lower_def)
  show ?case using IH a b by (auto intro: num_le_trans)
qed

lemma foldl_upper:
  assumes "NaN \<notin> set ys" "m \<noteq> NaN"
  shows "(foldl upper m ys = m \<or> foldl upper m ys \<in> set ys) \<and> num_le m (foldl upper m ys)
         \<and> (\<forall>v \<in> set ys. num_le v (foldl upper m ys))"
  using assms
proof (induction ys arbitrary: m)
  case Nil
  then show ?case by (simp add: num_le_refl)
next
  case (Cons y ys)
  from Cons.prems have y: "y \<noteq> NaN" and ys: "NaN \<notin> set ys" by auto
  have lm: "upper m y \<noteq> NaN" using y Cons.prems(2) by (simp add: upper_def)
  note IH = Cons.IH [OF ys lm]
  have a: "num_le m (upper m y)" "num_le y (upper m y)"
    using y Cons.prems(2) by (auto simp: upper_def lt_le num_le_refl not_lt_le)
  have b: "upper m y = m \<or> upper m y = y" by (simp add: upper_def)
  show ?case using IH a b by (auto intro: num_le_trans)
qed

lemma least_foldl_lower:
  assumes "NaN \<notin> set ys" "ys \<noteq> []"
  shows "least (foldl lower Infinity ys) ys"
proof -
  let ?r = "foldl lower Infinity ys"
  from foldl_lower [OF assms(1), of Infinity]
  have r: "?r = Infinity \<or> ?r \<in> set ys" and all: "\<forall>v \<in> set ys. num_le ?r v" by auto
  from assms(2) obtain y where y: "y \<in> set ys" by (cases ys) auto
  have "?r \<in> set ys"
  proof (cases "?r = Infinity")
    case True
    with all y have "num_le Infinity y" by auto
    moreover have "num_le y Infinity" using y assms(1) by (auto intro: num_le_Infinity)
    ultimately have "y = Infinity" by (auto dest: num_le_antisym)
    with y True show ?thesis by simp
  next
    case False
    with r show ?thesis by simp
  qed
  with all show ?thesis by (simp add: least_def)
qed

lemma greatest_foldl_upper:
  assumes "NaN \<notin> set ys" "ys \<noteq> []"
  shows "greatest (foldl upper NegInfinity ys) ys"
proof -
  let ?r = "foldl upper NegInfinity ys"
  from foldl_upper [OF assms(1), of NegInfinity]
  have r: "?r = NegInfinity \<or> ?r \<in> set ys" and all: "\<forall>v \<in> set ys. num_le v ?r" by auto
  from assms(2) obtain y where y: "y \<in> set ys" by (cases ys) auto
  have "?r \<in> set ys"
  proof (cases "?r = NegInfinity")
    case True
    with all y have "num_le y NegInfinity" by auto
    moreover have "num_le NegInfinity y" using y assms(1) by (auto intro: num_le_NegInfinity)
    ultimately have "y = NegInfinity" by (auto dest: num_le_antisym)
    with y True show ?thesis by simp
  next
    case False
    with r show ?thesis by simp
  qed
  with all show ?thesis by (simp add: greatest_def)
qed

lemma Math_min_lower: "a \<noteq> NaN \<Longrightarrow> b \<noteq> NaN \<Longrightarrow> Math_min a b = lower a b"
  by (cases a; cases b) (simp_all add: lower_def)

lemma Math_max_upper: "a \<noteq> NaN \<Longrightarrow> b \<noteq> NaN \<Longrightarrow> Math_max a b = upper a b"
  by (cases a; cases b) (simp_all add: upper_def)

lemma lower_not_NaN: "a \<noteq> NaN \<Longrightarrow> b \<noteq> NaN \<Longrightarrow> lower a b \<noteq> NaN"
  by (simp add: lower_def)

lemma upper_not_NaN: "a \<noteq> NaN \<Longrightarrow> b \<noteq> NaN \<Longrightarrow> upper a b \<noteq> NaN"
  by (simp add: upper_def)

lemma foldl_Math_min:
  "NaN \<notin> set ys \<Longrightarrow> m \<noteq> NaN \<Longrightarrow> foldl Math_min m ys = foldl lower m ys"
  by (induction ys arbitrary: m) (auto simp: Math_min_lower lower_not_NaN)

lemma foldl_Math_max:
  "NaN \<notin> set ys \<Longrightarrow> m \<noteq> NaN \<Longrightarrow> foldl Math_max m ys = foldl upper m ys"
  by (induction ys arbitrary: m) (auto simp: Math_max_upper upper_not_NaN)

lemma lower_NaN: "lower m NaN = m"
  by (simp add: lower_def)

lemma upper_NaN: "upper m NaN = m"
  by (cases m) (simp_all add: upper_def)

lemma foldl_lower_numbers: "foldl lower m ys = foldl lower m (numbers ys)"
  by (induction ys arbitrary: m) (simp_all add: numbers_def lower_NaN)

lemma foldl_upper_numbers: "foldl upper m ys = foldl upper m (numbers ys)"
  by (induction ys arbitrary: m) (simp_all add: numbers_def upper_NaN)

lemma numbers_NaN_free: "NaN \<notin> set (numbers ys)"
  by (simp add: numbers_def)

lemma minimumOf_foldl: "minimumOf (foldl lower Infinity ys) ys"
proof (cases "numbers ys = []")
  case True
  then show ?thesis using foldl_lower_numbers [of Infinity ys] by (simp add: minimumOf_def)
next
  case False
  then show ?thesis
    using least_foldl_lower [OF numbers_NaN_free False] foldl_lower_numbers [of Infinity ys]
    by (simp add: minimumOf_def)
qed

lemma maximumOf_foldl: "maximumOf (foldl upper NegInfinity ys) ys"
proof (cases "numbers ys = []")
  case True
  then show ?thesis using foldl_upper_numbers [of NegInfinity ys] by (simp add: maximumOf_def)
next
  case False
  then show ?thesis
    using greatest_foldl_upper [OF numbers_NaN_free False] foldl_upper_numbers [of NegInfinity ys]
    by (simp add: maximumOf_def)
qed

lemma Math_min_NaN: "Math_min m NaN = NaN"
  by (cases m) simp_all

lemma Math_max_NaN: "Math_max m NaN = NaN"
  by (cases m) simp_all

lemma foldl_Math_min_from_NaN: "foldl Math_min NaN ys = NaN"
  by (induction ys) simp_all

lemma foldl_Math_max_from_NaN: "foldl Math_max NaN ys = NaN"
  by (induction ys) simp_all

lemma foldl_Math_min_NaN: "NaN \<in> set ys \<Longrightarrow> foldl Math_min m ys = NaN"
  by (induction ys arbitrary: m) (auto simp: Math_min_NaN foldl_Math_min_from_NaN)

lemma foldl_Math_max_NaN: "NaN \<in> set ys \<Longrightarrow> foldl Math_max m ys = NaN"
  by (induction ys arbitrary: m) (auto simp: Math_max_NaN foldl_Math_max_from_NaN)

lemma extentOf_foldl:
  assumes "ys \<noteq> []"
  shows "extentOf (foldl Math_min Infinity ys) (foldl Math_max NegInfinity ys) ys"
proof (cases "NaN \<in> set ys")
  case True
  then show ?thesis by (simp add: extentOf_def foldl_Math_min_NaN foldl_Math_max_NaN)
next
  case False
  then show ?thesis
    using assms
    by (simp add: extentOf_def foldl_Math_min foldl_Math_max least_foldl_lower
        greatest_foldl_upper)
qed

lemma box_min_foldl:
  "box_min (foldl expandByPoint b pts) = foldl vec_min (box_min b) pts"
  by (induction pts arbitrary: b) (simp_all add: expandByPoint_def)

lemma box_max_foldl:
  "box_max (foldl expandByPoint b pts) = foldl vec_max (box_max b) pts"
  by (induction pts arbitrary: b) (simp_all add: expandByPoint_def)

lemma foldl_vec_min:
  "foldl vec_min (a, b, c) pts =
     (foldl Math_min a (map fst pts), foldl Math_min b (map (\<lambda>p. fst (snd p)) pts),
      foldl Math_min c (map (\<lambda>p. snd (snd p)) pts))"
  by (induction pts arbitrary: a b c) (auto simp: vec_min_def)

lemma foldl_vec_max:
  "foldl vec_max (a, b, c) pts =
     (foldl Math_max a (map fst pts), foldl Math_max b (map (\<lambda>p. fst (snd p)) pts),
      foldl Math_max c (map (\<lambda>p. snd (snd p)) pts))"
  by (induction pts arbitrary: a b c) (auto simp: vec_max_def)

subsection \<open>The loop over the points\<close>

lemma belowCount_countOf: "belowCount i n = (i < countOf n)"
  by (auto simp: belowCount_def countOf_def split: option.splits)

lemma decodeLoop_invariant:
  assumes "decodeLoop L i n st = Inr st'"
    and "P i st"
    and "i \<le> countOf n"
    and "\<And>k s s'. k < countOf n \<Longrightarrow> P k s \<Longrightarrow> decodePoint L k s = Inr s' \<Longrightarrow> P (Suc k) s'"
  shows "P (countOf n) st'"
  using assms
proof (induction L i n st rule: decodeLoop.induct)
  case (1 L i n st)
  show ?case
  proof (cases "belowCount i n")
    case True
    with "1.prems"(1) obtain s1 where s1: "decodePoint L i st = Inr s1"
      and rest: "decodeLoop L (i + 1) n s1 = Inr st'"
      by (subst (asm) decodeLoop.simps) (auto simp: bind_eq_Inr)
    from True have lt: "i < countOf n" by (simp add: belowCount_countOf)
    have "P (Suc i) s1" using "1.prems"(4) [OF lt "1.prems"(2) s1] .
    then show ?thesis
      using "1.IH" [OF True rest _ _ "1.prems"(4)] lt by simp
  next
    case False
    with "1.prems"(1) have "st' = st"
      by (subst (asm) decodeLoop.simps) simp
    moreover from False "1.prems"(3) have "i = countOf n"
      by (simp add: belowCount_countOf)
    ultimately show ?thesis using "1.prems"(2) by simp
  qed
qed

lemma decodePoint_Inr:
  assumes "decodePoint L i st = Inr st'"
  obtains x y z cols' scs' rots' where
    "readFloat32 L i ''x'' = Inr x" "readFloat32 L i ''y'' = Inr y" "readFloat32 L i ''z'' = Inr z"
    "decodeColor L i (colors st) = Inr cols'"
    "decodeSplat L i (scales st) (rotations st) = Inr (scs', rots')"
    "st' = st\<lparr>positions := (positions st)[i * 3 := x, i * 3 + 1 := y, i * 3 + 2 := z],
              colors := cols', scales := scs', rotations := rots',
              elevations := (elevations st)[i := y],
              minY := (if num_lt y (minY st) then y else minY st),
              maxY := (if num_gt y (maxY st) then y else maxY st),
              boundingBox := expandByPoint (boundingBox st) (x, y, z)\<rparr>"
proof -
  from assms obtain x y z cols' scs' rots' where
    r: "readFloat32 L i ''x'' = Inr x" "readFloat32 L i ''y'' = Inr y"
       "readFloat32 L i ''z'' = Inr z"
    and c: "decodeColor L i (colors st) = Inr cols'"
       "decodeSplat L i (scales st) (rotations st) = Inr (scs', rots')"
    and s: "st' = st\<lparr>positions := (positions st)[i * 3 := fround x, i * 3 + 1 := fround y,
                                                  i * 3 + 2 := fround z],
              colors := cols', scales := scs', rotations := rots',
              elevations := (elevations st)[i := fround y],
              minY := (if num_lt y (minY st) then y else minY st),
              maxY := (if num_gt y (maxY st) then y else maxY st),
              boundingBox := expandByPoint (boundingBox st) (x, y, z)\<rparr>"
    unfolding decodePoint_def Let_def by (auto simp: bind_eq_Inr)
  have f: "fround x = x" "fround y = y" "fround z = z"
    using r by (auto dest: readFloat32_fround)
  show ?thesis using that [OF r c] s unfolding f by simp
qed

lemma update3_old:
  "j < k \<Longrightarrow> a \<le> 2 \<Longrightarrow> ps[k * 3 := x, k * 3 + 1 := y, k * 3 + 2 := z] ! (j * 3 + a) = ps ! (j * 3 + a)"
  by simp

lemma update3_new:
  assumes "k * 3 + 2 < length ps"
  shows "ps[k * 3 := x, k * 3 + 1 := y, k * 3 + 2 := z] ! (k * 3) = x"
    and "ps[k * 3 := x, k * 3 + 1 := y, k * 3 + 2 := z] ! (k * 3 + 1) = y"
    and "ps[k * 3 := x, k * 3 + 1 := y, k * 3 + 2 := z] ! (k * 3 + 2) = z"
  using assms by simp_all

lemma map_pointAt_update:
  "map (pointAt (ps[k * 3 := x, k * 3 + 1 := y, k * 3 + 2 := z])) [0..<k] = map (pointAt ps) [0..<k]"
  by (simp add: pointAt_def)

lemma map_y_update:
  "map (\<lambda>j. ps[k * 3 := x, k * 3 + 1 := y, k * 3 + 2 := z] ! (j * 3 + 1)) [0..<k]
     = map (\<lambda>j. ps ! (j * 3 + 1)) [0..<k]"
  by simp

lemma pointAt_update:
  "k * 3 + 2 < length ps \<Longrightarrow> pointAt (ps[k * 3 := x, k * 3 + 1 := y, k * 3 + 2 := z]) k = (x, y, z)"
  by (simp add: pointAt_def)

lemma geomInv_step:
  assumes k: "k < N" and inv: "geomInv N k s" and step: "decodePoint L k s = Inr s'"
  shows "geomInv N (Suc k) s'"
proof -
  from step obtain x y z cols' scs' rots' where
    s': "s' = s\<lparr>positions := (positions s)[k * 3 := x, k * 3 + 1 := y, k * 3 + 2 := z],
              colors := cols', scales := scs', rotations := rots',
              elevations := (elevations s)[k := y],
              minY := (if num_lt y (minY s) then y else minY s),
              maxY := (if num_gt y (maxY s) then y else maxY s),
              boundingBox := expandByPoint (boundingBox s) (x, y, z)\<rparr>"
    by (rule decodePoint_Inr)
  define ps where "ps = positions s"
  define ps' where "ps' = ps[k * 3 := x, k * 3 + 1 := y, k * 3 + 2 := z]"
  define ys where "ys = map (\<lambda>j. ps ! (j * 3 + 1)) [0..<k]"
  from inv have len: "length ps = N * 3" and lenE: "length (elevations s) = N"
    and box: "boundingBox s = foldl expandByPoint newBox3 (map (pointAt ps) [0..<k])"
    and lo: "minY s = foldl lower Infinity ys"
    and hi: "maxY s = foldl upper NegInfinity ys"
    and el: "take k (elevations s) = ys"
    by (simp_all add: geomInv_def ps_def ys_def)
  from k len have idx: "k * 3 + 2 < length ps" by simp
  have sel: "positions s' = ps'" "elevations s' = (elevations s)[k := y]"
    "boundingBox s' = expandByPoint (boundingBox s) (x, y, z)"
    "minY s' = lower (minY s) y" "maxY s' = upper (maxY s) y"
    by (simp_all add: s' ps_def ps'_def lower_def upper_def num_gt_def)
  have u: "[0..<Suc k] = [0..<k] @ [k]" by simp
  have m1: "map (pointAt ps') [0..<k] = map (pointAt ps) [0..<k]"
    unfolding ps'_def by (rule map_pointAt_update)
  have m2: "map (\<lambda>j. ps' ! (j * 3 + 1)) [0..<k] = ys"
    unfolding ps'_def ys_def by (rule map_y_update)
  have p: "pointAt ps' k = (x, y, z)"
    unfolding ps'_def using idx by (rule pointAt_update)
  have py: "ps' ! (k * 3 + 1) = y"
    unfolding ps'_def using idx by (rule update3_new)
  have c1: "length ps' = N * 3" by (simp add: ps'_def len)
  have c2: "length ((elevations s)[k := y]) = N" by (simp add: lenE)
  have c3: "expandByPoint (boundingBox s) (x, y, z)
              = foldl expandByPoint newBox3 (map (pointAt ps') [0..<Suc k])"
    by (simp only: u map_append foldl_append m1 p list.map foldl.simps box)
  have ys': "map (\<lambda>j. ps' ! (j * 3 + 1)) [0..<Suc k] = ys @ [y]"
    by (simp only: u map_append m2 py list.map)
  have c4: "lower (minY s) y = foldl lower Infinity (map (\<lambda>j. ps' ! (j * 3 + 1)) [0..<Suc k])"
    by (simp only: ys' foldl_append foldl.simps lo)
  have c5: "upper (maxY s) y = foldl upper NegInfinity (map (\<lambda>j. ps' ! (j * 3 + 1)) [0..<Suc k])"
    by (simp only: ys' foldl_append foldl.simps hi)
  have c6: "take (Suc k) ((elevations s)[k := y]) = map (\<lambda>j. ps' ! (j * 3 + 1)) [0..<Suc k]"
    using k lenE el by (simp only: ys') (simp add: take_Suc_conv_app_nth)
  show ?thesis
    unfolding geomInv_def sel using c1 c2 c3 c4 c5 c6 by blast
qed

lemma geomInv_loop:
  assumes "decodeLoop L 0 n st = Inr st'" and "geomInv (countOf n) 0 st"
  shows "geomInv (countOf n) (countOf n) st'"
  using assms(1)
proof (rule decodeLoop_invariant [where P = "geomInv (countOf n)"])
  show "geomInv (countOf n) 0 st" by (rule assms(2))
  show "0 \<le> countOf n" by simp
  show "geomInv (countOf n) (Suc k) s'"
    if "k < countOf n" "geomInv (countOf n) k s" "decodePoint L k s = Inr s'" for k s s'
    using that by (rule geomInv_step)
qed

lemma shColorAt_update:
  "j < k \<Longrightarrow> shColorAt L (cols[k * 3 := u, k * 3 + 1 := v, k * 3 + 2 := w]) j = shColorAt L cols j"
  by (simp add: shColorAt_def)

lemma rotationAt_update:
  "j < k \<Longrightarrow> rotationAt L (ro[k * 4 := t, k * 4 + 1 := u, k * 4 + 2 := v, k * 4 + 3 := w]) j
     = rotationAt L ro j"
  by (simp add: rotationAt_def)

lemma decodeColor_sh:
  assumes "decodeColor L k cols = Inr cols'" "l_useSHColor L" "k * 3 + 2 < length cols"
  shows "length cols' = length cols \<and> shColorAt L cols' k \<and>
         (\<forall>j<k. shColorAt L cols' j = shColorAt L cols j)"
proof -
  from assms(1,2) obtain r g b where
    rd: "readFloat32 L k ''f_dc_0'' = Inr r" "readFloat32 L k ''f_dc_1'' = Inr g"
        "readFloat32 L k ''f_dc_2'' = Inr b"
    and c: "cols' = cols[k * 3 := fround (sigmoid r), k * 3 + 1 := fround (sigmoid g),
                          k * 3 + 2 := fround (sigmoid b)]"
    unfolding decodeColor_def Let_def by (auto simp: bind_eq_Inr)
  have "shColorAt L cols' k"
    unfolding shColorAt_def using rd assms(3) by (simp add: c sigmoid_def)
  moreover have "\<forall>j<k. shColorAt L cols' j = shColorAt L cols j"
    unfolding c by (intro allI impI) (rule shColorAt_update)
  ultimately show ?thesis by (simp add: c)
qed

lemma decodeSplat_rot:
  assumes "decodeSplat L k scs (Some ro) = Inr (scs', rots')" "l_hasSplat L"
    "k * 4 + 3 < length ro"
  shows "\<exists>ro'. rots' = Some ro' \<and> length ro' = length ro \<and> rotationAt L ro' k \<and>
         (\<forall>j<k. rotationAt L ro' j = rotationAt L ro j)"
proof -
  from assms(1,2) obtain qx qy qz qw where
    rd: "readFloat32 L k ''rot_0'' = Inr qx" "readFloat32 L k ''rot_1'' = Inr qy"
        "readFloat32 L k ''rot_2'' = Inr qz" "readFloat32 L k ''rot_3'' = Inr qw"
    and c: "rots' = Some (ro[k * 4 := fround (num_div qw (quatNorm qx qy qz qw)),
                            k * 4 + 1 := fround (num_div qx (quatNorm qx qy qz qw)),
                            k * 4 + 2 := fround (num_div qy (quatNorm qx qy qz qw)),
                            k * 4 + 3 := fround (num_div qz (quatNorm qx qy qz qw))])"
    unfolding decodeSplat_def Let_def
    by (auto simp: bind_eq_Inr split: option.splits)
  define ro' where "ro' = ro[k * 4 := fround (num_div qw (quatNorm qx qy qz qw)),
                            k * 4 + 1 := fround (num_div qx (quatNorm qx qy qz qw)),
                            k * 4 + 2 := fround (num_div qy (quatNorm qx qy qz qw)),
                            k * 4 + 3 := fround (num_div qz (quatNorm qx qy qz qw))]"
  have "rotationAt L ro' k"
    unfolding rotationAt_def using rd assms(3) by (simp add: ro'_def quatNorm_def)
  moreover have "\<forall>j<k. rotationAt L ro' j = rotationAt L ro j"
    unfolding ro'_def by (intro allI impI) (rule rotationAt_update)
  moreover have "length ro' = length ro" by (simp add: ro'_def)
  ultimately show ?thesis using c by (simp add: ro'_def)
qed

lemma colorInv_step:
  assumes k: "k < N" and inv: "colorInv L N k s" and step: "decodePoint L k s = Inr s'"
    and sh: "l_useSHColor L"
  shows "colorInv L N (Suc k) s'"
proof -
  from step obtain cols' where dc: "decodeColor L k (colors s) = Inr cols'"
    and c: "colors s' = cols'"
    by (rule decodePoint_Inr) simp
  from inv have len: "length (colors s) = N * 3" and old: "\<forall>j<k. shColorAt L (colors s) j"
    by (simp_all add: colorInv_def)
  from k len have "k * 3 + 2 < length (colors s)" by simp
  from decodeColor_sh [OF dc sh this]
  have "length cols' = N * 3" "shColorAt L cols' k" "\<forall>j<k. shColorAt L cols' j"
    using len old by simp_all
  then show ?thesis
    unfolding colorInv_def c by (auto simp: less_Suc_eq)
qed

lemma rotInv_step:
  assumes k: "k < N" and inv: "rotInv L N k s" and step: "decodePoint L k s = Inr s'"
    and sp: "l_hasSplat L"
  shows "rotInv L N (Suc k) s'"
proof -
  from step obtain scs' rots' where
    ds: "decodeSplat L k (scales s) (rotations s) = Inr (scs', rots')"
    and c: "rotations s' = rots'"
    by (rule decodePoint_Inr) simp
  from inv obtain ro where ro: "rotations s = Some ro" and len: "length ro = N * 4"
    and old: "\<forall>j<k. rotationAt L ro j"
    by (auto simp: rotInv_def)
  from k len have "k * 4 + 3 < length ro" by simp
  from decodeSplat_rot [OF ds [unfolded ro] sp this] obtain ro' where
    "rots' = Some ro'" "length ro' = N * 4" "rotationAt L ro' k" "\<forall>j<k. rotationAt L ro' j"
    using len old by auto
  then show ?thesis
    unfolding rotInv_def c by (auto simp: less_Suc_eq)
qed

lemma colorInv_loop:
  assumes "decodeLoop L 0 n st = Inr st'" and "colorInv L (countOf n) 0 st" and "l_useSHColor L"
  shows "colorInv L (countOf n) (countOf n) st'"
  using assms(1)
proof (rule decodeLoop_invariant [where P = "colorInv L (countOf n)"])
  show "colorInv L (countOf n) 0 st" by (rule assms(2))
  show "0 \<le> countOf n" by simp
  show "colorInv L (countOf n) (Suc k) s'"
    if "k < countOf n" "colorInv L (countOf n) k s" "decodePoint L k s = Inr s'" for k s s'
    using that assms(3) by (rule colorInv_step)
qed

lemma rotInv_loop:
  assumes "decodeLoop L 0 n st = Inr st'" and "rotInv L (countOf n) 0 st" and "l_hasSplat L"
  shows "rotInv L (countOf n) (countOf n) st'"
  using assms(1)
proof (rule decodeLoop_invariant [where P = "rotInv L (countOf n)"])
  show "rotInv L (countOf n) 0 st" by (rule assms(2))
  show "0 \<le> countOf n" by simp
  show "rotInv L (countOf n) (Suc k) s'"
    if "k < countOf n" "rotInv L (countOf n) k s" "decodePoint L k s = Inr s'" for k s s'
    using that assms(3) by (rule rotInv_step)
qed

lemma decodeLoop_pointCount:
  assumes "decodeLoop L 0 n st = Inr st'"
  shows "pointCount st' = pointCount st"
  using assms
proof (rule decodeLoop_invariant [where P = "\<lambda>k s. pointCount s = pointCount st"])
  show "pointCount st = pointCount st" by simp
  show "0 \<le> countOf n" by simp
  show "pointCount s' = pointCount st"
    if "k < countOf n" "pointCount s = pointCount st" "decodePoint L k s = Inr s'" for k s s'
    using that(3,2) by (auto elim!: decodePoint_Inr)
qed

lemma geomInv_decoding0: "geomInv (countOf (h_pointCount h)) 0 (decoding0 h)"
  by (simp add: geomInv_def decoding0_def Let_def)

subsection \<open>A load that succeeds\<close>

lemma newFloat32Array_Inr:
  "newFloat32Array n = Inr a \<Longrightarrow> a = replicate (countOf n) (Num 0) \<and> (\<forall>k. n = Some k \<longrightarrow> 0 \<le> k)"
  by (auto simp: newFloat32Array_def countOf_def split: option.splits if_splits)

lemma countOf_scaleCount:
  assumes "0 < c" "newFloat32Array (scaleCount n c) = Inr a"
  shows "countOf (scaleCount n c) = countOf n * nat c"
proof (cases n)
  case None
  then show ?thesis by (simp add: scaleCount_def countOf_def)
next
  case (Some k)
  with assms(2) have "0 \<le> k * c"
    by (auto simp: newFloat32Array_def scaleCount_def split: if_splits)
  with assms(1) have "0 \<le> k" by (simp add: zero_le_mult_iff)
  then show ?thesis using Some assms(1)
    by (simp add: scaleCount_def countOf_def nat_mult_distrib)
qed

lemma newFloat32Array_scale:
  assumes "newFloat32Array (scaleCount n c) = Inr a" "0 < c"
  shows "a = replicate (countOf n * nat c) (Num 0)"
  using newFloat32Array_Inr [OF assms(1)] countOf_scaleCount [OF assms(2,1)] by simp

lemma optionalArray_Inr:
  assumes "optionalArray b (scaleCount n c) = Inr a" "0 < c"
  shows "a = (if b then Some (replicate (countOf n * nat c) (Num 0)) else None)"
  using assms
  by (auto simp: optionalArray_def bind_eq_Inr dest: newFloat32Array_scale split: if_splits)

lemma newDataView_Inr: "newDataView buffer e = Inr view \<Longrightarrow> view = drop (nat e) buffer"
  by (auto simp: newDataView_def split: if_splits)

lemma decodePoints_Inr:
  assumes "decodePoints buffer h e = Inr st"
  obtains view where "newDataView buffer e = Inr view"
    and "decodeLoop (layoutOf view h) 0 (h_pointCount h) (decoding0 h) = Inr st"
    and "\<forall>k. h_pointCount h = Some k \<longrightarrow> 0 \<le> k"
proof -
  from assms obtain pos cols elev scs rots view where
    a: "newFloat32Array (scaleCount (h_pointCount h) 3) = Inr pos"
    "newFloat32Array (scaleCount (h_pointCount h) 3) = Inr cols"
    "newFloat32Array (h_pointCount h) = Inr elev"
    "optionalArray (hasSplat (h_properties h)) (scaleCount (h_pointCount h) 3) = Inr scs"
    "optionalArray (hasSplat (h_properties h)) (scaleCount (h_pointCount h) 4) = Inr rots"
    and v: "newDataView buffer e = Inr view"
    and l: "decodeLoop (layoutOf view h) 0 (h_pointCount h)
             \<lparr>positions = pos, colors = cols, elevations = elev, scales = scs,
              rotations = rots, boundingBox = newBox3, pointCount = h_pointCount h,
              minY = Infinity, maxY = NegInfinity\<rparr> = Inr st"
    unfolding decodePoints_def Let_def by (auto simp: bind_eq_Inr)
  have "pos = replicate (countOf (h_pointCount h) * 3) (Num 0)"
    "cols = replicate (countOf (h_pointCount h) * 3) (Num 0)"
    "elev = replicate (countOf (h_pointCount h)) (Num 0)"
    "scs = (if hasSplat (h_properties h) then Some (replicate (countOf (h_pointCount h) * 3) (Num 0)) else None)"
    "rots = (if hasSplat (h_properties h) then Some (replicate (countOf (h_pointCount h) * 4) (Num 0)) else None)"
    using newFloat32Array_scale [OF a(1)] newFloat32Array_scale [OF a(2)]
      newFloat32Array_Inr [OF a(3)] optionalArray_Inr [OF a(4)] optionalArray_Inr [OF a(5)]
    by simp_all
  then have "decodeLoop (layoutOf view h) 0 (h_pointCount h) (decoding0 h) = Inr st"
    using l by (simp add: decoding0_def Let_def)
  moreover have "\<forall>k. h_pointCount h = Some k \<longrightarrow> 0 \<le> k"
    using newFloat32Array_Inr [OF a(3)] by simp
  ultimately show ?thesis using v that by blast
qed

lemma loadPlyBuffer_Inr:
  assumes "loadPlyBuffer buffer = Inr d"
  obtains h e view st where "parseHeader buffer = Inr (h, e)" and "validateHeader h = Inr ()"
    and "newDataView buffer e = Inr view"
    and "decodeLoop (layoutOf view h) 0 (h_pointCount h) (decoding0 h) = Inr st"
    and "\<forall>k. h_pointCount h = Some k \<longrightarrow> 0 < k"
    and "d = finish st"
proof -
  from assms obtain h e st where p: "parseHeader buffer = Inr (h, e)"
    and v: "validateHeader h = Inr ()" and dp: "decodePoints buffer h e = Inr st"
    and d: "d = finish st"
    unfolding loadPlyBuffer_def by (auto simp: bind_eq_Inr)
  from dp obtain view where view: "newDataView buffer e = Inr view"
    and loop: "decodeLoop (layoutOf view h) 0 (h_pointCount h) (decoding0 h) = Inr st"
    and nonneg: "\<forall>k. h_pointCount h = Some k \<longrightarrow> 0 \<le> k"
    by (rule decodePoints_Inr)
  from v have "h_pointCount h \<noteq> Some 0"
    by (auto simp: validateHeader_def split: if_splits)
  with nonneg have "\<forall>k. h_pointCount h = Some k \<longrightarrow> 0 < k"
    by (metis order_le_less)
  with p v view loop d show ?thesis using that by blast
qed

lemma load_geometry:
  assumes "loadPlyBuffer buffer = Inr d"
  obtains st where "d = finish st" and "pointCount st = pointCount d"
    and "geomInv (countOf (pointCount d)) (countOf (pointCount d)) st"
    and "\<forall>k. pointCount d = Some k \<longrightarrow> 0 < k"
proof -
  from assms obtain h e view st where v: "validateHeader h = Inr ()"
    and loop: "decodeLoop (layoutOf view h) 0 (h_pointCount h) (decoding0 h) = Inr st"
    and pos: "\<forall>k. h_pointCount h = Some k \<longrightarrow> 0 < k"
    and d: "d = finish st"
    by (rule loadPlyBuffer_Inr)
  have pc: "pointCount st = h_pointCount h"
    using decodeLoop_pointCount [OF loop] by (simp add: decoding0_def Let_def)
  have pcd: "pointCount d = h_pointCount h" using pc d by (simp add: finish_def)
  have "geomInv (countOf (h_pointCount h)) (countOf (h_pointCount h)) st"
    using loop geomInv_decoding0 by (rule geomInv_loop)
  with pc pcd pos d show ?thesis using that by simp
qed

lemma coords_NaN_free:
  assumes "NaN \<notin> set ps" "length ps = N * 3" "a \<le> 2"
  shows "NaN \<notin> set (map (\<lambda>i. ps ! (i * 3 + a)) [0..<N])"
proof
  assume "NaN \<in> set (map (\<lambda>i. ps ! (i * 3 + a)) [0..<N])"
  then obtain i where i: "i < N" and eq: "ps ! (i * 3 + a) = NaN" by auto
  from i assms(2,3) have "i * 3 + a < length ps" by simp
  then have "ps ! (i * 3 + a) \<in> set ps" by (rule nth_mem)
  with eq assms(1) show False by simp
qed

subsection \<open>The header\<close>

lemma missingColorMessage_distinct:
  "missingColorMessage ps \<noteq> ''Only binary_little_endian PLY format is supported.''"
  "missingColorMessage ps \<noteq> ''No vertices found in PLY file.''"
  "missingColorMessage ps \<noteq> ''PLY file must contain x, y, z properties.''"
  by (simp_all add: missingColorMessage_def)

lemma validateHeader_missingColor:
  "(validateHeader h = Inl (Error (missingColorMessage (h_properties h)))) =
     (h_isBinary h \<and> h_pointCount h \<noteq> Some 0 \<and> hasPosition (h_properties h) \<and>
      \<not> hasClassicColor (h_properties h) \<and> \<not> hasSHColor (h_properties h))"
  using missingColorMessage_distinct [of "h_properties h"]
  by (auto simp: validateHeader_def)

lemma splitStr_length: "l \<in> set (splitStr s c) \<Longrightarrow> length l \<le> length s"
proof (induction s arbitrary: l)
  case Nil
  then show ?case by simp
next
  case (Cons a s)
  then show ?case
    by (cases "splitStr s c") (fastforce split: if_splits)+
qed

lemma startsWith_short: "length line < length p \<Longrightarrow> \<not> startsWith line p"
  by (auto simp: startsWith_def)

lemma headerLine_short:
  assumes "length line < 27" "headerLine h line = Inr h'"
  shows "h_isBinary h' = h_isBinary h"
proof -
  have "\<not> startsWith line ''format binary_little_endian''"
    using assms(1) by (intro startsWith_short) simp
  with assms(2) show ?thesis
    by (auto simp: headerLine_def Let_def split: if_splits option.splits)
qed

lemma headerLoop_short:
  "\<forall>l \<in> set ls. length l < 27 \<Longrightarrow> headerLoop h ls = Inr h' \<Longrightarrow> h_isBinary h' = h_isBinary h"
proof (induction ls arbitrary: h)
  case Nil
  then show ?case by simp
next
  case (Cons l ls)
  from Cons.prems(2) obtain h1 where h1: "headerLine h l = Inr h1"
    and rest: "headerLoop h1 ls = Inr h'"
    by (auto simp: bind_eq_Inr)
  from Cons.prems(1) have "length l < 27" "\<forall>l \<in> set ls. length l < 27" by simp_all
  with Cons.IH [OF _ rest] headerLine_short [OF _ h1] show ?case by simp
qed

lemma substring_length: "length (substring s 0 10) \<le> 10"
  by (simp add: substring_def Let_def)

lemma indexOf_neg: "indexOf s p < 0 \<Longrightarrow> indexOf s p = - 1"
  by (induction s) (auto simp: Let_def split: if_splits)

lemma headerLine_TypeError: "headerLine h line = Inl e \<Longrightarrow> \<exists>m. e = TypeError m"
  by (auto simp: headerLine_def Let_def split: if_splits option.splits)

lemma headerLoop_TypeError: "headerLoop h ls = Inl e \<Longrightarrow> \<exists>m. e = TypeError m"
  by (induction ls arbitrary: h) (auto simp: bind_eq_Inl dest: headerLine_TypeError)

lemma no_terminator_parse:
  assumes "indexOf (decode (take 10240 buffer)) ''end_header'' < 0"
  shows "(\<exists>m. parseHeader buffer = Inl (RangeError m)) \<or>
         (\<exists>m. parseHeader buffer = Inl (TypeError m)) \<or>
         (\<exists>h e. parseHeader buffer = Inr (h, e) \<and> \<not> h_isBinary h)"
proof (cases "length buffer < 10240")
  case True
  then show ?thesis by (simp add: parseHeader_def newUint8Array_def)
next
  case False
  define ht where "ht = decode (take 10240 buffer)"
  define ls where "ls = splitStr (substring ht 0 10) (CHR 0x0A)"
  have he: "headerEndOf ht = 10"
    using indexOf_neg [OF assms] by (simp add: headerEndOf_def ht_def)
  have ph: "parseHeader buffer = bind (headerLoop header0 ls) (\<lambda>h. Inr (h, 10))"
    using False by (simp add: parseHeader_def newUint8Array_def Let_def ht_def [symmetric] he ls_def)
  have short: "\<forall>l \<in> set ls. length l < 27"
  proof
    fix l assume "l \<in> set ls"
    then have "length l \<le> length (substring ht 0 10)"
      unfolding ls_def by (rule splitStr_length)
    also have "\<dots> \<le> 10" by (rule substring_length)
    finally show "length l < 27" by simp
  qed
  show ?thesis
  proof (cases "headerLoop header0 ls")
    case (Inl e)
    then obtain m where "e = TypeError m" by (auto dest: headerLoop_TypeError)
    with Inl ph show ?thesis by simp
  next
    case (Inr h)
    from headerLoop_short [OF short Inr] have "\<not> h_isBinary h" by (simp add: header0_def)
    with Inr ph show ?thesis by simp
  qed
qed

lemma unat_of_char: "unat (of_char a :: 8 word) = of_char a"
proof -
  have "(of_char a :: 8 word) = of_nat (of_char a)" by (simp add: of_nat_of_char)
  then have "unat (of_char a :: 8 word) = take_bit 8 (of_char a :: nat)"
    by (simp only: unsigned_of_nat) simp
  then show ?thesis by (simp add: take_bit_eq_mod)
qed

lemma decode_encode: "decode (encode s) = s"
  by (induction s) (simp_all add: decode_def encode_def unat_of_char)

lemma decode_append: "decode (xs @ ys) = decode xs @ decode ys"
  by (simp add: decode_def)

lemma indexOf_found_length: "0 \<le> indexOf s p \<Longrightarrow> length p \<le> length s"
proof (induction s)
  case Nil
  then show ?case by (simp split: if_splits)
next
  case (Cons c cs)
  show ?case
  proof (cases "startsWith (c # cs) p")
    case True
    then have "length (take (length p) (c # cs)) = length p" by (simp add: startsWith_def)
    then show ?thesis by (simp add: min_def split: if_splits)
  next
    case False
    with Cons.prems have "0 \<le> indexOf cs p" by (simp add: Let_def split: if_splits)
    from Cons.IH [OF this] show ?thesis by simp
  qed
qed

lemma startsWith_append:
  "length p \<le> length s \<Longrightarrow> startsWith (s @ t) p = startsWith s p"
  by (simp add: startsWith_def)

lemma indexOf_append: "0 \<le> indexOf s p \<Longrightarrow> indexOf (s @ t) p = indexOf s p"
proof (induction s)
  case Nil
  then show ?case by (cases t) (simp_all add: startsWith_def split: if_splits)
next
  case (Cons c cs)
  from indexOf_found_length [OF Cons.prems] have len: "length p \<le> length (c # cs)" .
  have sw: "startsWith ((c # cs) @ t) p = startsWith (c # cs) p"
    using len by (rule startsWith_append)
  show ?case
  proof (cases "startsWith (c # cs) p")
    case True
    with sw show ?thesis by simp
  next
    case False
    with Cons.prems have "0 \<le> indexOf cs p" by (simp add: Let_def split: if_splits)
    from Cons.IH [OF this] False sw show ?thesis by (simp add: Let_def)
  qed
qed

lemma parseHeader_prefix:
  assumes f: "0 \<le> indexOf hdr ''end_header''"
    and found: "headerEndOf hdr = int (length hdr)"
    and short: "length hdr \<le> 10240"
    and long: "10240 \<le> length hdr + length rest"
  shows "parseHeader (encode hdr @ rest) =
           bind (headerLoop header0 (splitStr hdr (CHR 0x0A))) (\<lambda>h. Inr (h, int (length hdr)))"
proof -
  define t where "t = decode (take (10240 - length hdr) rest)"
  have len: "length (encode hdr) = length hdr" by (simp add: encode_def)
  have tk: "decode (take 10240 (encode hdr @ rest)) = hdr @ t"
    using short by (simp add: len t_def decode_encode decode_append)
  have he: "headerEndOf (hdr @ t) = int (length hdr)"
    using found indexOf_append [OF f] by (simp add: headerEndOf_def)
  have sub: "substring (hdr @ t) 0 (int (length hdr)) = hdr"
    by (simp add: substring_def Let_def min_def max_def)
  have nu: "newUint8Array (encode hdr @ rest) 0 (1024 * 10) = Inr (take 10240 (encode hdr @ rest))"
    using long by (simp add: newUint8Array_def len)
  show ?thesis
    by (simp only: parseHeader_def nu bind_Inr Let_def tk he sub)
qed

subsection \<open>The application\<close>

lemma handleLoad_failure:
  "loadPly source = Inl e \<Longrightarrow> plyData (handleLoad s source) = None"
  by (simp add: handleLoad_def Let_def)

lemma loadPly_File: "loadPly (File buffer) = loadPlyBuffer buffer"
  by (simp add: loadPly_def readAsArrayBuffer_def)

subsection \<open>The crop test\<close>


section \<open>The sample files, loaded\<close>

lemma length_padding: "length padding = 10240"
  by (simp add: padding_def)

lemma parseHeader_plyFile:
  assumes "0 \<le> indexOf (linesText ls) ''end_header''"
    and "headerEndOf (linesText ls) = int (length (linesText ls))"
    and "length (linesText ls) \<le> 10240"
  shows "parseHeader (plyFile ls payload) =
           bind (headerLoop header0 (splitStr (linesText ls) (CHR 0x0A)))
                (\<lambda>h. Inr (h, int (length (linesText ls))))"
  unfolding plyFile_def using assms
  by (rule parseHeader_prefix) (simp add: length_padding)

lemma decodePoints_plyFile:
  "decodePoints (plyFile ls payload) h (int (length (linesText ls))) =
     decodePoints (payload @ padding) h 0"
  by (simp add: plyFile_def decodePoints_def newDataView_def encode_def)

lemma decodeLoop_step:
  "belowCount i n \<Longrightarrow> decodeLoop L i n st = bind (decodePoint L i st) (decodeLoop L (i + 1) n)"
  by (subst decodeLoop.simps) simp

lemma decodeLoop_stop: "\<not> belowCount i n \<Longrightarrow> decodeLoop L i n st = Inr st"
  by (subst decodeLoop.simps) simp

lemma getFloat32_append:
  "off + 4 \<le> length v \<Longrightarrow> getFloat32 (v @ pad) off = getFloat32 v off"
  by (simp add: getFloat32_def nth_append)

lemma getUint8_append:
  "off + 1 \<le> length v \<Longrightarrow> getUint8 (v @ pad) off = getUint8 v off"
  by (simp add: getUint8_def nth_append)

lemma list_update_numeral:
  "(x # xs)[numeral k := v] = x # xs[pred_numeral k := v]"
  by (simp add: numeral_eq_Suc)

lemma replicate_numeral:
  "replicate (numeral k) x = x # replicate (pred_numeral k) x"
  by (simp add: numeral_eq_Suc)

lemmas load_simps =
  decodePoints_def scaleCount_def newFloat32Array_def optionalArray_def newDataView_def
  hasSplat_def hasSHColor_def has_def propMapOf_def layoutOf_def Let_def replicate_numeral

lemmas loop_simps =
  decodeLoop_step decodeLoop_stop belowCount_def decodePoint_def readFloat32_def readUint8_def
  offsetOf_def getFloat32_append getUint8_append decodeColor_def decodeSplat_def Let_def
  list_update_numeral expandByPoint_def newBox3_def vec_min_def vec_max_def num_gt_def

lemmas read_simps = getFloat32_def getUint8_def float32_value_def bits32_def

lemma fround_values:
  "fround (Num 0) = Num 0" "fround (Num 1) = Num 1" "fround (Num 2) = Num 2"
  "fround (Num 3) = Num 3" "fround (Num 4) = Num 4" "fround (Num 6) = Num 6"
  "fround (Num 7) = Num 7" "fround (Num (- 1)) = Num (- 1)" "fround (Num (1 / 2)) = Num (1 / 2)"
  "fround NaN = NaN"
  by (simp_all add: arith_simps)

lemma byte_colours:
  "fround (num_div (Num 0) (Num 255)) = Num 0"
  "fround (num_div (Num 255) (Num 255)) = Num 1"
  "fround (num_div (Num 51) (Num 255)) = Num (13421773 / 67108864)"
  by (simp_all add: arith_simps)

subsection \<open>The first sample\<close>

lemmas header_simps =
  headerLine_def startsWith_def parseInt_def elemAt_def typeSize_def trim_def isWhiteSpace_def
  digitValue_def header0_def classicProperties_def Let_def

lemma elev_lines: "splitStr (linesText elevHeader) (CHR 0x0A) = elevHeader @ [[]]"
  by code_simp

lemma elev_header: "headerLoop header0 (elevHeader @ [[]]) = Inr elevParsed"
  by (simp add: elevHeader_def elevParsed_def header_simps)

lemma elev_text:
  "0 \<le> indexOf (linesText elevHeader) ''end_header''"
  "headerEndOf (linesText elevHeader) = int (length (linesText elevHeader))"
  "length (linesText elevHeader) \<le> 10240"
  by code_simp+

lemma elevHeader_parse:
  "parseHeader (plyFile elevHeader payload) = Inr (elevParsed, int (length (linesText elevHeader)))"
  by (subst parseHeader_plyFile) (simp_all add: elev_text elev_lines elev_header)

lemma elev_parse:
  "parseHeader elevFile = Inr (elevParsed, int (length (linesText elevHeader)))"
  unfolding elevFile_def by (rule elevHeader_parse)

lemma elev_valid: "validateHeader elevParsed = Inr ()"
  by code_simp

lemma elev_reads:
  "length elevPayload = 45"
  "getFloat32 elevPayload 0 = Inr (Num 1)"
  "getFloat32 elevPayload 4 = Inr (Num 2)"
  "getFloat32 elevPayload 8 = Inr (Num 3)"
  "getUint8 elevPayload 12 = Inr (Num 255)"
  "getUint8 elevPayload 13 = Inr (Num 0)"
  "getUint8 elevPayload 14 = Inr (Num 51)"
  "getFloat32 elevPayload 15 = Inr (Num 0)"
  "getFloat32 elevPayload 19 = Inr (Num 4)"
  "getFloat32 elevPayload 23 = Inr (Num (- 1))"
  "getUint8 elevPayload 27 = Inr (Num 0)"
  "getUint8 elevPayload 28 = Inr (Num 255)"
  "getUint8 elevPayload 29 = Inr (Num 0)"
  "getFloat32 elevPayload 30 = Inr (Num 2)"
  "getFloat32 elevPayload 34 = Inr (Num 6)"
  "getFloat32 elevPayload 38 = Inr (Num 0)"
  "getUint8 elevPayload 42 = Inr (Num 0)"
  "getUint8 elevPayload 43 = Inr (Num 0)"
  "getUint8 elevPayload 44 = Inr (Num 255)"
  by (simp_all add: read_simps elevPayload_def)

lemma elev_decode:
  "decodePoints (elevPayload @ padding) elevParsed 0 =
     Inr \<lparr>positions = [Num 1, Num 2, Num 3, Num 0, Num 4, Num (- 1), Num 2, Num 6, Num 0],
          colors = [Num 1, Num 0, Num (13421773 / 67108864), Num 0, Num 1, Num 0,
                    Num 0, Num 0, Num 1],
          elevations = [Num 2, Num 4, Num 6], scales = None, rotations = None,
          boundingBox = \<lparr>box_min = (Num 0, Num 2, Num (- 1)), box_max = (Num 2, Num 6, Num 3)\<rparr>,
          pointCount = Some 3, minY = Num 2, maxY = Num 6\<rparr>"
  apply (simp add: load_simps elevParsed_def classicProperties_def)
  apply (simp add: loop_simps elev_reads fround_values byte_colours)
  done

lemma elev_load: "loadPlyBuffer elevFile = Inr elevData"
  using decodePoints_plyFile [of elevHeader elevPayload elevParsed]
  by (simp add: loadPlyBuffer_def elev_parse elev_valid elevFile_def [symmetric]
      elev_decode finish_def normalizeElevations_def num_gt_def elevData_def arith_simps)

subsection \<open>The sample with the heights 0, 1 and 3\<close>

lemma third_parse:
  "parseHeader thirdFile = Inr (elevParsed, int (length (linesText elevHeader)))"
  unfolding thirdFile_def by (rule elevHeader_parse)

lemma third_reads:
  "length thirdPayload = 45"
  "getFloat32 thirdPayload 0 = Inr (Num 1)"
  "getFloat32 thirdPayload 4 = Inr (Num 0)"
  "getFloat32 thirdPayload 8 = Inr (Num 3)"
  "getUint8 thirdPayload 12 = Inr (Num 255)"
  "getUint8 thirdPayload 13 = Inr (Num 0)"
  "getUint8 thirdPayload 14 = Inr (Num 51)"
  "getFloat32 thirdPayload 15 = Inr (Num 0)"
  "getFloat32 thirdPayload 19 = Inr (Num 1)"
  "getFloat32 thirdPayload 23 = Inr (Num (- 1))"
  "getUint8 thirdPayload 27 = Inr (Num 0)"
  "getUint8 thirdPayload 28 = Inr (Num 255)"
  "getUint8 thirdPayload 29 = Inr (Num 0)"
  "getFloat32 thirdPayload 30 = Inr (Num 2)"
  "getFloat32 thirdPayload 34 = Inr (Num 3)"
  "getFloat32 thirdPayload 38 = Inr (Num 0)"
  "getUint8 thirdPayload 42 = Inr (Num 0)"
  "getUint8 thirdPayload 43 = Inr (Num 0)"
  "getUint8 thirdPayload 44 = Inr (Num 255)"
  by (simp_all add: read_simps thirdPayload_def)

lemma third_decode:
  "decodePoints (thirdPayload @ padding) elevParsed 0 =
     Inr \<lparr>positions = [Num 1, Num 0, Num 3, Num 0, Num 1, Num (- 1), Num 2, Num 3, Num 0],
          colors = [Num 1, Num 0, Num (13421773 / 67108864), Num 0, Num 1, Num 0,
                    Num 0, Num 0, Num 1],
          elevations = [Num 0, Num 1, Num 3], scales = None, rotations = None,
          boundingBox = \<lparr>box_min = (Num 0, Num 0, Num (- 1)), box_max = (Num 2, Num 3, Num 3)\<rparr>,
          pointCount = Some 3, minY = Num 0, maxY = Num 3\<rparr>"
  apply (simp add: load_simps elevParsed_def classicProperties_def)
  apply (simp add: loop_simps third_reads fround_values byte_colours)
  done

lemma third_load: "loadPlyBuffer thirdFile = Inr thirdData"
  using decodePoints_plyFile [of elevHeader thirdPayload elevParsed]
  by (simp add: loadPlyBuffer_def third_parse elev_valid thirdFile_def [symmetric]
      third_decode finish_def normalizeElevations_def num_gt_def thirdData_def arith_simps)

subsection \<open>The flat sample\<close>

lemma flat_lines: "splitStr (linesText flatHeader) (CHR 0x0A) = flatHeader @ [[]]"
  by code_simp

lemma flat_header: "headerLoop header0 (flatHeader @ [[]]) = Inr flatParsed"
  by (simp add: flatHeader_def flatParsed_def header_simps)

lemma flat_text:
  "0 \<le> indexOf (linesText flatHeader) ''end_header''"
  "headerEndOf (linesText flatHeader) = int (length (linesText flatHeader))"
  "length (linesText flatHeader) \<le> 10240"
  by code_simp+

lemma flatHeader_parse:
  "parseHeader (plyFile flatHeader payload) = Inr (flatParsed, int (length (linesText flatHeader)))"
  by (subst parseHeader_plyFile) (simp_all add: flat_text flat_lines flat_header)

lemma flat_parse:
  "parseHeader flatFile = Inr (flatParsed, int (length (linesText flatHeader)))"
  unfolding flatFile_def by (rule flatHeader_parse)

lemma flat_valid: "validateHeader flatParsed = Inr ()"
  by code_simp

lemma flat_reads:
  "length flatPayload = 30"
  "getFloat32 flatPayload 0 = Inr (Num 1)"
  "getFloat32 flatPayload 4 = Inr (Num 7)"
  "getFloat32 flatPayload 8 = Inr (Num 3)"
  "getUint8 flatPayload 12 = Inr (Num 255)"
  "getUint8 flatPayload 13 = Inr (Num 0)"
  "getUint8 flatPayload 14 = Inr (Num 51)"
  "getFloat32 flatPayload 15 = Inr (Num 0)"
  "getFloat32 flatPayload 19 = Inr (Num 7)"
  "getFloat32 flatPayload 23 = Inr (Num (- 1))"
  "getUint8 flatPayload 27 = Inr (Num 0)"
  "getUint8 flatPayload 28 = Inr (Num 255)"
  "getUint8 flatPayload 29 = Inr (Num 0)"
  by (simp_all add: read_simps flatPayload_def)

lemma flat_decode:
  "decodePoints (flatPayload @ padding) flatParsed 0 =
     Inr \<lparr>positions = [Num 1, Num 7, Num 3, Num 0, Num 7, Num (- 1)],
          colors = [Num 1, Num 0, Num (13421773 / 67108864), Num 0, Num 1, Num 0],
          elevations = [Num 7, Num 7], scales = None, rotations = None,
          boundingBox = \<lparr>box_min = (Num 0, Num 7, Num (- 1)), box_max = (Num 1, Num 7, Num 3)\<rparr>,
          pointCount = Some 2, minY = Num 7, maxY = Num 7\<rparr>"
  apply (simp add: load_simps flatParsed_def classicProperties_def)
  apply (simp add: loop_simps flat_reads fround_values byte_colours)
  done

lemma flat_load: "loadPlyBuffer flatFile = Inr flatData"
  using decodePoints_plyFile [of flatHeader flatPayload flatParsed]
  by (simp add: loadPlyBuffer_def flat_parse flat_valid flatFile_def [symmetric]
      flat_decode finish_def normalizeElevations_def num_gt_def flatData_def arith_simps)

subsection \<open>The sample with a height that is NaN\<close>

lemma nan_parse:
  "parseHeader nanFile = Inr (flatParsed, int (length (linesText flatHeader)))"
  unfolding nanFile_def by (rule flatHeader_parse)

lemma nan_reads:
  "length nanPayload = 30"
  "getFloat32 nanPayload 0 = Inr (Num 1)"
  "getFloat32 nanPayload 4 = Inr NaN"
  "getFloat32 nanPayload 8 = Inr (Num 3)"
  "getUint8 nanPayload 12 = Inr (Num 255)"
  "getUint8 nanPayload 13 = Inr (Num 0)"
  "getUint8 nanPayload 14 = Inr (Num 51)"
  "getFloat32 nanPayload 15 = Inr (Num 0)"
  "getFloat32 nanPayload 19 = Inr (Num 2)"
  "getFloat32 nanPayload 23 = Inr (Num (- 1))"
  "getUint8 nanPayload 27 = Inr (Num 0)"
  "getUint8 nanPayload 28 = Inr (Num 255)"
  "getUint8 nanPayload 29 = Inr (Num 0)"
  by (simp_all add: read_simps nanPayload_def)

lemma nan_decode:
  "decodePoints (nanPayload @ padding) flatParsed 0 =
     Inr \<lparr>positions = [Num 1, NaN, Num 3, Num 0, Num 2, Num (- 1)],
          colors = [Num 1, Num 0, Num (13421773 / 67108864), Num 0, Num 1, Num 0],
          elevations = [NaN, Num 2], scales = None, rotations = None,
          boundingBox = \<lparr>box_min = (Num 0, NaN, Num (- 1)), box_max = (Num 1, NaN, Num 3)\<rparr>,
          pointCount = Some 2, minY = Num 2, maxY = Num 2\<rparr>"
  apply (simp add: load_simps flatParsed_def classicProperties_def)
  apply (simp add: loop_simps nan_reads fround_values byte_colours)
  done

lemma nan_load: "loadPlyBuffer nanFile = Inr nanData"
  using decodePoints_plyFile [of flatHeader nanPayload flatParsed]
  by (simp add: loadPlyBuffer_def nan_parse flat_valid nanFile_def [symmetric]
      nan_decode finish_def normalizeElevations_def num_gt_def nanData_def arith_simps)

subsection \<open>The splat\<close>

lemma splat_lines: "splitStr (linesText splatHeader) (CHR 0x0A) = splatHeader @ [[]]"
  by code_simp

lemma splat_header: "headerLoop header0 (splatHeader @ [[]]) = Inr splatParsed"
  by (simp add: splatHeader_def splatParsed_def header_simps)

lemma splat_text:
  "0 \<le> indexOf (linesText splatHeader) ''end_header''"
  "headerEndOf (linesText splatHeader) = int (length (linesText splatHeader))"
  "length (linesText splatHeader) \<le> 10240"
  by code_simp+

lemma splatHeader_parse:
  "parseHeader (plyFile splatHeader payload) =
     Inr (splatParsed, int (length (linesText splatHeader)))"
  by (subst parseHeader_plyFile) (simp_all add: splat_text splat_lines splat_header)

lemma splat_parse:
  "parseHeader splatFile = Inr (splatParsed, int (length (linesText splatHeader)))"
  unfolding splatFile_def by (rule splatHeader_parse)

lemma grey_parse:
  "parseHeader greyFile = Inr (splatParsed, int (length (linesText splatHeader)))"
  unfolding greyFile_def by (rule splatHeader_parse)

lemma splat_valid: "validateHeader splatParsed = Inr ()"
  by code_simp

lemma splat_schemes:
  "hasClassicColor (h_properties splatParsed)" "hasSHColor (h_properties splatParsed)"
  "hasSplat (h_properties splatParsed)"
  by code_simp+

lemma splat_reads:
  "length splatPayload = 55"
  "getFloat32 splatPayload 0 = Inr (Num 1)"
  "getFloat32 splatPayload 4 = Inr (Num 2)"
  "getFloat32 splatPayload 8 = Inr (Num 3)"
  "getFloat32 splatPayload 12 = Inr (Num 0)"
  "getFloat32 splatPayload 16 = Inr (Num 0)"
  "getFloat32 splatPayload 20 = Inr (Num 0)"
  "getFloat32 splatPayload 27 = Inr (Num 0)"
  "getFloat32 splatPayload 31 = Inr (Num 0)"
  "getFloat32 splatPayload 35 = Inr (Num 0)"
  "getFloat32 splatPayload 39 = Inr (Num 3)"
  "getFloat32 splatPayload 43 = Inr (Num 0)"
  "getFloat32 splatPayload 47 = Inr (Num 0)"
  "getFloat32 splatPayload 51 = Inr (Num 4)"
  by (simp_all add: read_simps splatPayload_def)

lemma sqrt_25: "sqrt 25 = 5"
  by (rule real_sqrt_unique) simp_all

lemma quatNorm_3004: "quatNorm (Num 3) (Num 0) (Num 0) (Num 4) = Num 5"
  by (simp add: quatNorm_def arith_simps sqrt_25)

lemma quotients_3004:
  "fround (num_div (Num 4) (Num 5)) = Num (13421773 / 16777216)"
  "fround (num_div (Num 3) (Num 5)) = Num (5033165 / 8388608)"
  "fround (num_div (Num 0) (Num 5)) = Num 0"
  by (simp_all add: arith_simps)

lemma sigmoid_0: "sigmoid (Num 0) = Num (1 / 2)"
  by (simp add: sigmoid_def arith_simps)

lemma sigmoid_Infinity: "sigmoid Infinity = Num 1"
  by (simp add: sigmoid_def arith_simps)

lemma exp_0: "fround (Math_exp (Num 0)) = Num 1"
  by (simp add: arith_simps)

lemma splat_decode:
  "decodePoints (splatPayload @ padding) splatParsed 0 =
     Inr \<lparr>positions = [Num 1, Num 2, Num 3],
          colors = [Num (1 / 2), Num (1 / 2), Num (1 / 2)],
          elevations = [Num 2],
          scales = Some [Num 1, Num 1, Num 1],
          rotations = Some [Num (13421773 / 16777216), Num (5033165 / 8388608), Num 0, Num 0],
          boundingBox = \<lparr>box_min = (Num 1, Num 2, Num 3), box_max = (Num 1, Num 2, Num 3)\<rparr>,
          pointCount = Some 1, minY = Num 2, maxY = Num 2\<rparr>"
  apply (simp add: load_simps splatParsed_def)
  apply (simp add: loop_simps splat_reads quatNorm_3004 sigmoid_0 fround_values quotients_3004
      exp_0)
  done

lemma splat_load: "loadPlyBuffer splatFile = Inr splatData"
  using decodePoints_plyFile [of splatHeader splatPayload splatParsed]
  by (simp add: loadPlyBuffer_def splat_parse splat_valid splatFile_def [symmetric]
      splat_decode finish_def normalizeElevations_def num_gt_def splatData_def arith_simps)

lemma grey_reads:
  "length greyPayload = 55"
  "getFloat32 greyPayload 0 = Inr (Num 1)"
  "getFloat32 greyPayload 4 = Inr (Num 2)"
  "getFloat32 greyPayload 8 = Inr (Num 3)"
  "getFloat32 greyPayload 12 = Inr (Num 0)"
  "getFloat32 greyPayload 16 = Inr (Num 0)"
  "getFloat32 greyPayload 20 = Inr (Num 0)"
  "getFloat32 greyPayload 27 = Inr (Num 0)"
  "getFloat32 greyPayload 31 = Inr (Num 0)"
  "getFloat32 greyPayload 35 = Inr (Num 0)"
  "getFloat32 greyPayload 39 = Inr (Num 3)"
  "getFloat32 greyPayload 43 = Inr (Num 0)"
  "getFloat32 greyPayload 47 = Inr (Num 0)"
  "getFloat32 greyPayload 51 = Inr (Num 4)"
  by (simp_all add: read_simps greyPayload_def)

lemma grey_decode:
  "decodePoints (greyPayload @ padding) splatParsed 0 =
     Inr \<lparr>positions = [Num 1, Num 2, Num 3],
          colors = [Num (1 / 2), Num (1 / 2), Num (1 / 2)],
          elevations = [Num 2],
          scales = Some [Num 1, Num 1, Num 1],
          rotations = Some [Num (13421773 / 16777216), Num (5033165 / 8388608), Num 0, Num 0],
          boundingBox = \<lparr>box_min = (Num 1, Num 2, Num 3), box_max = (Num 1, Num 2, Num 3)\<rparr>,
          pointCount = Some 1, minY = Num 2, maxY = Num 2\<rparr>"
  apply (simp add: load_simps splatParsed_def)
  apply (simp add: loop_simps grey_reads quatNorm_3004 sigmoid_0 fround_values quotients_3004
      exp_0)
  done

lemma grey_load: "loadPlyBuffer greyFile = Inr splatData"
  using decodePoints_plyFile [of splatHeader greyPayload splatParsed]
  by (simp add: loadPlyBuffer_def grey_parse splat_valid greyFile_def [symmetric]
      grey_decode finish_def normalizeElevations_def num_gt_def splatData_def arith_simps)

subsection \<open>The samples whose \<open>f_dc_2\<close> is one byte\<close>

lemma overlap_lines: "splitStr (linesText overlapHeader) (CHR 0x0A) = overlapHeader @ [[]]"
  by code_simp

lemma overlap_header: "headerLoop header0 (overlapHeader @ [[]]) = Inr overlapParsed"
  by (simp add: overlapHeader_def overlapParsed_def header_simps)

lemma overlap_text:
  "0 \<le> indexOf (linesText overlapHeader) ''end_header''"
  "headerEndOf (linesText overlapHeader) = int (length (linesText overlapHeader))"
  "length (linesText overlapHeader) \<le> 10240"
  by code_simp+

lemma overlapHeader_parse:
  "parseHeader (plyFile overlapHeader payload) =
     Inr (overlapParsed, int (length (linesText overlapHeader)))"
  by (subst parseHeader_plyFile) (simp_all add: overlap_text overlap_lines overlap_header)

lemma overlap_valid: "validateHeader overlapParsed = Inr ()"
  by code_simp

lemma overlap_schemes:
  "hasClassicColor (h_properties overlapParsed)" "hasSHColor (h_properties overlapParsed)"
  by code_simp+

lemma dark_reads:
  "length darkPayload = 24"
  "getFloat32 darkPayload 0 = Inr (Num 1)"
  "getFloat32 darkPayload 4 = Inr (Num 2)"
  "getFloat32 darkPayload 8 = Inr (Num 3)"
  "getFloat32 darkPayload 12 = Inr (Num 0)"
  "getFloat32 darkPayload 16 = Inr (Num 0)"
  "getFloat32 darkPayload 20 = Inr (Num 0)"
  by (simp_all add: read_simps darkPayload_def)

lemma bright_reads:
  "length brightPayload = 24"
  "getFloat32 brightPayload 0 = Inr (Num 1)"
  "getFloat32 brightPayload 4 = Inr (Num 2)"
  "getFloat32 brightPayload 8 = Inr (Num 3)"
  "getFloat32 brightPayload 12 = Inr (Num 0)"
  "getFloat32 brightPayload 16 = Inr (Num 0)"
  "getFloat32 brightPayload 20 = Inr Infinity"
  by (simp_all add: read_simps brightPayload_def)

lemma dark_decode:
  "decodePoints (darkPayload @ padding) overlapParsed 0 =
     Inr \<lparr>positions = [Num 1, Num 2, Num 3],
          colors = [Num (1 / 2), Num (1 / 2), Num (1 / 2)],
          elevations = [Num 2], scales = None, rotations = None,
          boundingBox = \<lparr>box_min = (Num 1, Num 2, Num 3), box_max = (Num 1, Num 2, Num 3)\<rparr>,
          pointCount = Some 1, minY = Num 2, maxY = Num 2\<rparr>"
  apply (simp add: load_simps overlapParsed_def)
  apply (simp add: loop_simps dark_reads sigmoid_0 fround_values)
  done

lemma bright_decode:
  "decodePoints (brightPayload @ padding) overlapParsed 0 =
     Inr \<lparr>positions = [Num 1, Num 2, Num 3],
          colors = [Num (1 / 2), Num (1 / 2), Num 1],
          elevations = [Num 2], scales = None, rotations = None,
          boundingBox = \<lparr>box_min = (Num 1, Num 2, Num 3), box_max = (Num 1, Num 2, Num 3)\<rparr>,
          pointCount = Some 1, minY = Num 2, maxY = Num 2\<rparr>"
  apply (simp add: load_simps overlapParsed_def)
  apply (simp add: loop_simps bright_reads sigmoid_0 sigmoid_Infinity fround_values)
  done

lemma dark_load: "loadPlyBuffer darkFile = Inr darkData"
  using decodePoints_plyFile [of overlapHeader darkPayload overlapParsed]
  by (simp add: loadPlyBuffer_def overlapHeader_parse overlap_valid darkFile_def
      dark_decode finish_def normalizeElevations_def num_gt_def darkData_def arith_simps)

lemma bright_load: "loadPlyBuffer brightFile = Inr brightData"
  using decodePoints_plyFile [of overlapHeader brightPayload overlapParsed]
  by (simp add: loadPlyBuffer_def overlapHeader_parse overlap_valid brightFile_def
      bright_decode finish_def normalizeElevations_def num_gt_def brightData_def arith_simps)

subsection \<open>The sample without colours\<close>

lemma plain_lines: "splitStr (linesText plainHeader) (CHR 0x0A) = plainHeader @ [[]]"
  by code_simp

lemma plain_header: "headerLoop header0 (plainHeader @ [[]]) = Inr plainParsed"
  by (simp add: plainHeader_def plainParsed_def header_simps)

lemma plain_text:
  "0 \<le> indexOf (linesText plainHeader) ''end_header''"
  "headerEndOf (linesText plainHeader) = int (length (linesText plainHeader))"
  "length (linesText plainHeader) \<le> 10240"
  by code_simp+

lemma plain_parse:
  "parseHeader plainFile = Inr (plainParsed, int (length (linesText plainHeader)))"
  unfolding plainFile_def
  by (subst parseHeader_plyFile) (simp_all add: plain_text plain_lines plain_header)

lemma plain_schemes:
  "h_isBinary plainParsed" "h_pointCount plainParsed \<noteq> Some 0"
  "hasPosition (h_properties plainParsed)"
  "\<not> hasClassicColor (h_properties plainParsed)" "\<not> hasSHColor (h_properties plainParsed)"
  "join (map prop_name (h_properties plainParsed)) '', '' = ''x, y, z''"
  by code_simp+

subsection \<open>The sample whose header does not end\<close>

lemma indexOf_found_set: "0 \<le> indexOf s p \<Longrightarrow> set p \<subseteq> set s"
proof (induction s)
  case Nil
  then show ?case by (simp split: if_splits)
next
  case (Cons c cs)
  show ?case
  proof (cases "startsWith (c # cs) p")
    case True
    then have "p = take (length p) (c # cs)" by (simp add: startsWith_def)
    then have "set p \<subseteq> set (take (length p) (c # cs))" by simp
    also have "\<dots> \<subseteq> set (c # cs)" by (rule set_take_subset)
    finally show ?thesis .
  next
    case False
    with Cons.prems have "0 \<le> indexOf cs p" by (simp add: Let_def split: if_splits)
    from Cons.IH [OF this] show ?thesis by auto
  qed
qed

lemma open_text:
  "CHR ''h'' \<notin> set (linesText openHeader)"
  "CHR ''h'' \<notin> set (decode plainPayload)"
  "take 10 (linesText openHeader) = ''ply'' @ [CHR 0x0A] @ ''format''"
  "length (linesText openHeader) \<le> 10240"
  "10 \<le> length (linesText openHeader)"
  "headerLoop header0 (splitStr (''ply'' @ [CHR 0x0A] @ ''format'') (CHR 0x0A)) = Inr header0"
  by code_simp+

lemma decode_padding: "decode padding = replicate 10240 (CHR 0x00)"
proof -
  have "char_of (0 :: nat) = CHR 0x00" by code_simp
  then show ?thesis by (simp add: decode_def padding_def)
qed

lemma open_headerText:
  "decode (take 10240 openFile) =
     linesText openHeader @ decode (take (10240 - length (linesText openHeader)) (plainPayload @ padding))"
proof -
  have "length (encode (linesText openHeader)) = length (linesText openHeader)"
    by (simp add: encode_def)
  then show ?thesis
    using open_text(4)
    by (simp add: openFile_def plyFile_def decode_append decode_encode)
qed

lemma open_no_terminator: "indexOf (decode (take 10240 openFile)) ''end_header'' = - 1"
proof -
  have "set (decode (take 10240 openFile)) \<subseteq> set (decode openFile)"
    by (simp add: decode_def set_take_subset image_mono)
  also have "\<dots> = set (linesText openHeader) \<union> set (decode plainPayload) \<union> set (decode padding)"
    by (simp add: openFile_def plyFile_def decode_append decode_encode Un_assoc)
  finally have "CHR ''h'' \<notin> set (decode (take 10240 openFile))"
    using open_text(1,2) by (auto simp: decode_padding)
  then have "\<not> 0 \<le> indexOf (decode (take 10240 openFile)) ''end_header''"
    by (auto dest: indexOf_found_set)
  then show ?thesis by (simp add: indexOf_neg)
qed

lemma open_parse: "parseHeader openFile = Inr (header0, 10)"
proof -
  have len: "10240 \<le> length openFile"
    by (simp add: openFile_def plyFile_def length_padding)
  have he: "headerEndOf (decode (take 10240 openFile)) = 10"
    by (simp add: headerEndOf_def open_no_terminator)
  have sub: "substring (decode (take 10240 openFile)) 0 10 = ''ply'' @ [CHR 0x0A] @ ''format''"
    unfolding open_headerText using open_text(3,5)
    by (simp add: substring_def Let_def min_def max_def)
  have nu: "newUint8Array openFile 0 (1024 * 10) = Inr (take 10240 openFile)"
    using len by (simp add: newUint8Array_def)
  show ?thesis
    by (simp only: parseHeader_def nu bind_Inr Let_def he sub open_text(6))
qed

lemma open_load:
  "loadPlyBuffer openFile = Inl (Error ''Only binary_little_endian PLY format is supported.'')"
  by (simp add: loadPlyBuffer_def open_parse validateHeader_def header0_def)

section \<open>The claims\<close>

subsection \<open>The application after a load\<close>

text \<open>
  Claim C1, as amended. If a load attempt fails with any error, the application does not
  keep the previous dataset: whatever dataset it held, its state afterwards holds none
  (\<open>plyData\<close> is null), the error message is recorded (or a default text when the message is
  empty), the point count of the statistics is 0, the render mode is Original, no splat data
  is announced and the loading flag is off.
\<close>

theorem failed_load_clears_dataset:
  assumes "loadPly source = Inl e"
  shows "plyData (handleLoad s source) = None \<and>
         error (handleLoad s source) =
           Some (if message e = [] then ''An unknown error occurred while loading the model.''
                 else message e) \<and>
         stat_pointCount (stats (handleLoad s source)) = Some 0 \<and>
         renderMode (handleLoad s source) = ORIGINAL \<and>
         \<not> splatDataAvailable (handleLoad s source) \<and>
         \<not> isLoading (handleLoad s source)"
  using assms by (simp add: handleLoad_def Let_def)

theorem failed_load_clears_dataset_witness:
  "loadPly (File []) = Inl (RangeError ''Invalid typed array length'') \<and>
   plyData shownState = Some elevData \<and>
   plyData (handleLoad shownState (File [])) = None \<and>
   error (handleLoad shownState (File [])) = Some ''Invalid typed array length'' \<and>
   stat_pointCount (stats (handleLoad shownState (File []))) = Some 0 \<and>
   renderMode (handleLoad shownState (File [])) = ORIGINAL"
proof -
  have f: "loadPly (File []) = Inl (RangeError ''Invalid typed array length'')"
    by (simp add: loadPly_File loadPlyBuffer_def parseHeader_def newUint8Array_def)
  show ?thesis
    using failed_load_clears_dataset [OF f, of shownState] f
    by (simp add: shownState_def)
qed

theorem failed_load_keeps_dataset_counterexample:
  "plyData shownState = Some elevData \<and>
   loadPly Unreadable = Inl (Error ''Failed to read local file.'') \<and>
   plyData (handleLoad shownState Unreadable) \<noteq> Some elevData"
  by (simp add: shownState_def handleLoad_def loadPly_def readAsArrayBuffer_def Let_def)

text \<open>
  Claim C10. After every successful load the render mode is set anew, whatever it was: it
  is Splat exactly when the dataset carries both scales and rotations, and Original
  otherwise. The dataset of the state is the one that was loaded.
\<close>

theorem render_mode_after_load:
  assumes "loadPly source = Inr d"
  shows "renderMode (handleLoad s source) =
           (if scales d \<noteq> None \<and> rotations d \<noteq> None then SPLAT else ORIGINAL) \<and>
         splatDataAvailable (handleLoad s source) = (scales d \<noteq> None \<and> rotations d \<noteq> None) \<and>
         plyData (handleLoad s source) = Some d"
  using assms by (simp add: handleLoad_def Let_def hasSplatData_def)

theorem render_mode_after_load_witness:
  "renderMode shownState = COLORMAP \<and>
   loadPly (File splatFile) = Inr splatData \<and>
   renderMode (handleLoad shownState (File splatFile)) = SPLAT \<and>
   loadPly (File elevFile) = Inr elevData \<and>
   renderMode (handleLoad shownState (File elevFile)) = ORIGINAL"
proof -
  have a: "loadPly (File splatFile) = Inr splatData" by (simp add: loadPly_File splat_load)
  have b: "loadPly (File elevFile) = Inr elevData" by (simp add: loadPly_File elev_load)
  show ?thesis
    using render_mode_after_load [OF a, of shownState] render_mode_after_load [OF b, of shownState]
      a b
    by (simp add: shownState_def splatData_def elevData_def)
qed

subsection \<open>The header\<close>

text \<open>
  Claim C2, as amended. For every buffer whose first 10 KiB hold no \<open>end_header\<close>, the
  loader fails. There is no error of its own for this case: the error is the one for a
  format that is not binary little endian, or a RangeError or TypeError of the runtime. The
  application then holds no dataset, whatever it held before.
\<close>

theorem missing_terminator_fails:
  assumes "indexOf (decode (take 10240 buffer)) ''end_header'' < 0"
  shows "((\<exists>m. loadPlyBuffer buffer = Inl (RangeError m)) \<or>
          (\<exists>m. loadPlyBuffer buffer = Inl (TypeError m)) \<or>
          loadPlyBuffer buffer = Inl (Error ''Only binary_little_endian PLY format is supported.'')) \<and>
         plyData (handleLoad s (File buffer)) = None"
proof -
  have fails: "(\<exists>m. loadPlyBuffer buffer = Inl (RangeError m)) \<or>
          (\<exists>m. loadPlyBuffer buffer = Inl (TypeError m)) \<or>
          loadPlyBuffer buffer = Inl (Error ''Only binary_little_endian PLY format is supported.'')"
    using no_terminator_parse [OF assms]
    by (auto simp: loadPlyBuffer_def validateHeader_def)
  then obtain e where "loadPly (File buffer) = Inl e"
    unfolding loadPly_File by blast
  then have "plyData (handleLoad s (File buffer)) = None" by (rule handleLoad_failure)
  with fails show ?thesis by simp
qed

theorem missing_terminator_fails_witness:
  "indexOf (decode (take 10240 openFile)) ''end_header'' < 0 \<and>
   ((\<exists>m. loadPlyBuffer openFile = Inl (RangeError m)) \<or>
    (\<exists>m. loadPlyBuffer openFile = Inl (TypeError m)) \<or>
    loadPlyBuffer openFile = Inl (Error ''Only binary_little_endian PLY format is supported.'')) \<and>
   plyData (handleLoad shownState (File openFile)) = None"
proof -
  have h: "indexOf (decode (take 10240 openFile)) ''end_header'' < 0"
    by (simp add: open_no_terminator)
  show ?thesis
    using missing_terminator_fails [OF h, of shownState] h by blast
qed

theorem missing_terminator_error_counterexample:
  "indexOf (decode (take 10240 openFile)) ''end_header'' = - 1 \<and>
   loadPlyBuffer openFile = Inl (Error ''Only binary_little_endian PLY format is supported.'') \<and>
   plyData shownState = Some elevData \<and>
   plyData (handleLoad shownState (File openFile)) \<noteq> Some elevData"
  using handleLoad_failure [of "File openFile" _ shownState]
  by (simp add: open_no_terminator open_load loadPly_File shownState_def)

text \<open>
  Claim C3, as amended. For every header that the loader has parsed, the load fails with the
  error for missing colours exactly when neither colour scheme is complete in the property
  list (and the checks before it pass: the format is binary little endian, the vertex count
  is not 0, and x, y and z are present). A header with both schemes complete does not fail
  so. The message of the error lists the names of the properties found, separated by a
  comma and a space.
\<close>

theorem missing_color_exactly_when_no_scheme:
  assumes "parseHeader buffer = Inr (h, e)"
  shows "(loadPlyBuffer buffer =
            Inl (Error (''PLY file must contain color properties. Found: '' @
                        join (map prop_name (h_properties h)) '', ''))) =
         (h_isBinary h \<and> h_pointCount h \<noteq> Some 0 \<and> hasPosition (h_properties h) \<and>
          \<not> hasClassicColor (h_properties h) \<and> \<not> hasSHColor (h_properties h))"
proof -
  let ?m = "missingColorMessage (h_properties h)"
  have "(loadPlyBuffer buffer = Inl (Error ?m)) = (validateHeader h = Inl (Error ?m))"
  proof
    assume "loadPlyBuffer buffer = Inl (Error ?m)"
    then have "validateHeader h = Inl (Error ?m) \<or> decodePoints buffer h e = Inl (Error ?m)"
      using assms by (auto simp: loadPlyBuffer_def bind_eq_Inl)
    moreover have "decodePoints buffer h e \<noteq> Inl (Error ?m)"
      using decodePoints_runtimeError [of buffer h e "Error ?m"] by (auto simp: runtimeError_def)
    ultimately show "validateHeader h = Inl (Error ?m)" by simp
  next
    assume "validateHeader h = Inl (Error ?m)"
    then show "loadPlyBuffer buffer = Inl (Error ?m)"
      using assms by (simp add: loadPlyBuffer_def)
  qed
  then show ?thesis
    unfolding validateHeader_missingColor by (simp add: missingColorMessage_def)
qed

theorem missing_color_exactly_when_no_scheme_witness:
  "parseHeader plainFile = Inr (plainParsed, int (length (linesText plainHeader))) \<and>
   \<not> hasClassicColor (h_properties plainParsed) \<and> \<not> hasSHColor (h_properties plainParsed) \<and>
   loadPlyBuffer plainFile =
     Inl (Error ''PLY file must contain color properties. Found: x, y, z'')"
  using missing_color_exactly_when_no_scheme [OF plain_parse] plain_parse plain_schemes
  by simp

theorem both_schemes_missing_color_counterexample:
  "parseHeader splatFile = Inr (splatParsed, int (length (linesText splatHeader))) \<and>
   hasClassicColor (h_properties splatParsed) \<and> hasSHColor (h_properties splatParsed) \<and>
   loadPlyBuffer splatFile = Inr splatData"
  by (simp add: splat_parse splat_schemes splat_load)

subsection \<open>The points\<close>

lemma drop_plyFile: "drop (length (linesText ls)) (plyFile ls payload) = payload @ padding"
  by (simp add: plyFile_def encode_def)

lemma splat_layout_reads:
  "readFloat32 (layoutOf (splatPayload @ padding) splatParsed) 0 ''rot_0'' = Inr (Num 3)"
  "readFloat32 (layoutOf (splatPayload @ padding) splatParsed) 0 ''rot_1'' = Inr (Num 0)"
  "readFloat32 (layoutOf (splatPayload @ padding) splatParsed) 0 ''rot_2'' = Inr (Num 0)"
  "readFloat32 (layoutOf (splatPayload @ padding) splatParsed) 0 ''rot_3'' = Inr (Num 4)"
  "readFloat32 (layoutOf (splatPayload @ padding) splatParsed) 0 ''f_dc_0'' = Inr (Num 0)"
  "readFloat32 (layoutOf (splatPayload @ padding) splatParsed) 0 ''f_dc_1'' = Inr (Num 0)"
  "readFloat32 (layoutOf (splatPayload @ padding) splatParsed) 0 ''f_dc_2'' = Inr (Num 0)"
  "readUint8 (layoutOf (splatPayload @ padding) splatParsed) 0 ''red'' = Inr (Num 255)"
  by (simp_all add: readFloat32_def readUint8_def layoutOf_def propMapOf_def offsetOf_def
      splatParsed_def getFloat32_append getUint8_append splat_reads)
     (simp add: read_simps splatPayload_def)

lemma splat_view:
  "drop (nat (int (length (linesText splatHeader)))) splatFile = splatPayload @ padding"
  by (simp add: splatFile_def drop_plyFile)

lemma grey_view:
  "drop (nat (int (length (linesText splatHeader)))) greyFile = greyPayload @ padding"
  by (simp add: greyFile_def drop_plyFile)

lemma grey_layout_reads:
  "readFloat32 (layoutOf (greyPayload @ padding) splatParsed) 0 ''f_dc_0'' = Inr (Num 0)"
  "readFloat32 (layoutOf (greyPayload @ padding) splatParsed) 0 ''f_dc_1'' = Inr (Num 0)"
  "readFloat32 (layoutOf (greyPayload @ padding) splatParsed) 0 ''f_dc_2'' = Inr (Num 0)"
  "readUint8 (layoutOf (greyPayload @ padding) splatParsed) 0 ''red'' = Inr (Num 0)"
  by (simp_all add: readFloat32_def readUint8_def layoutOf_def propMapOf_def offsetOf_def
      splatParsed_def getFloat32_append getUint8_append grey_reads)
     (simp add: read_simps greyPayload_def)

lemma overlap_layout_reads:
  "readFloat32 (layoutOf (darkPayload @ padding) overlapParsed) 0 ''f_dc_2'' = Inr (Num 0)"
  "readFloat32 (layoutOf (brightPayload @ padding) overlapParsed) 0 ''f_dc_2'' = Inr Infinity"
  "readUint8 (layoutOf (darkPayload @ padding) overlapParsed) 0 ''green'' = Inr (Num 0)"
  "readUint8 (layoutOf (darkPayload @ padding) overlapParsed) 0 ''blue'' = Inr (Num 0)"
  "readUint8 (layoutOf (brightPayload @ padding) overlapParsed) 0 ''green'' = Inr (Num 128)"
  "readUint8 (layoutOf (brightPayload @ padding) overlapParsed) 0 ''blue'' = Inr (Num 127)"
  by (simp_all add: readFloat32_def readUint8_def layoutOf_def propMapOf_def offsetOf_def
      overlapParsed_def getFloat32_append getUint8_append dark_reads bright_reads)
     (simp_all add: read_simps darkPayload_def brightPayload_def)

lemma dark_parse:
  "parseHeader darkFile = Inr (overlapParsed, int (length (linesText overlapHeader)))"
  unfolding darkFile_def by (rule overlapHeader_parse)

lemma bright_parse:
  "parseHeader brightFile = Inr (overlapParsed, int (length (linesText overlapHeader)))"
  unfolding brightFile_def by (rule overlapHeader_parse)

lemma sample_coords:
  "coords elevData 0 = [Num 1, Num 0, Num 2]"
  "coords elevData 1 = [Num 2, Num 4, Num 6]"
  "coords elevData 2 = [Num 3, Num (- 1), Num 0]"
  "coords flatData 1 = [Num 7, Num 7]"
  "coords thirdData 1 = [Num 0, Num 1, Num 3]"
  "coords nanData 0 = [Num 1, Num 0]"
  "coords nanData 1 = [NaN, Num 2]"
  "coords nanData 2 = [Num 3, Num (- 1)]"
  by (simp_all add: coords_def countOf_def elevData_def flatData_def thirdData_def nanData_def
      upt_rec)

text \<open>
  Claim C4, as amended. For every file that loads, with the splat extension in its header,
  the rotation of each point is made of the four floats \<open>rot_0 .. rot_3\<close> of its record, each
  divided by the norm of all four (the square root of the sum of the squares, in double
  precision) and rounded to a single by the store, and stored with the quotient of \<open>rot_3\<close>
  first and those of \<open>rot_0\<close>, \<open>rot_1\<close>, \<open>rot_2\<close> after it: the order of the components
  is not the one of the file. The raw \<open>(3, 0, 0, 4)\<close> gives
  \<open>(13421773 / 2^24, 5033165 / 2^23, 0, 0)\<close>, the singles nearest to 0.8 and to 0.6.
\<close>

theorem rotation_divided_and_reordered:
  assumes load: "loadPlyBuffer buffer = Inr d"
    and hdr: "parseHeader buffer = Inr (h, e)"
    and splat: "hasSplat (h_properties h)"
  shows "\<exists>ro. rotations d = Some ro \<and> length ro = countOf (pointCount d) * 4 \<and>
           (\<forall>i < countOf (pointCount d). rotationAt (layoutOf (drop (nat e) buffer) h) ro i)"
proof -
  from load obtain h' e' view st where p: "parseHeader buffer = Inr (h', e')"
    and view: "newDataView buffer e' = Inr view"
    and loop: "decodeLoop (layoutOf view h') 0 (h_pointCount h') (decoding0 h') = Inr st"
    and d: "d = finish st"
    by (rule loadPlyBuffer_Inr)
  from p hdr have eq: "h' = h" "e' = e" by simp_all
  define L where "L = layoutOf (drop (nat e) buffer) h"
  have L: "layoutOf view h' = L"
    using newDataView_Inr [OF view] by (simp add: L_def eq)
  have sp: "l_hasSplat L" using splat by (simp add: L_def layoutOf_def)
  have pc: "pointCount st = h_pointCount h"
    using decodeLoop_pointCount [OF loop] by (simp add: decoding0_def Let_def eq)
  have inv0: "rotInv L (countOf (h_pointCount h)) 0 (decoding0 h)"
    using splat by (simp add: rotInv_def decoding0_def Let_def)
  have loop': "decodeLoop L 0 (h_pointCount h) (decoding0 h) = Inr st"
    using loop L by (simp add: eq)
  have "rotInv L (countOf (h_pointCount h)) (countOf (h_pointCount h)) st"
    using loop' inv0 sp by (rule rotInv_loop)
  then show ?thesis
    unfolding L_def [symmetric] by (simp add: rotInv_def pc d finish_def)
qed

theorem rotation_divided_and_reordered_witness:
  "loadPlyBuffer splatFile = Inr splatData \<and>
   parseHeader splatFile = Inr (splatParsed, int (length (linesText splatHeader))) \<and>
   hasSplat (h_properties splatParsed) \<and>
   rotations splatData =
     Some [Num (13421773 / 16777216), Num (5033165 / 8388608), Num 0, Num 0] \<and>
   (\<exists>ro. rotations splatData = Some ro \<and> length ro = countOf (pointCount splatData) * 4 \<and>
      (\<forall>i < countOf (pointCount splatData).
         rotationAt (layoutOf (splatPayload @ padding) splatParsed) ro i))"
proof -
  have r: "rotations splatData =
     Some [Num (13421773 / 16777216), Num (5033165 / 8388608), Num 0, Num 0]"
    by (simp add: splatData_def)
  show ?thesis
    using rotation_divided_and_reordered [OF splat_load splat_parse splat_schemes(3)]
      splat_load splat_parse splat_schemes(3) r
    by (simp only: splat_view)
qed

theorem rotation_order_counterexample:
  "loadPlyBuffer splatFile = Inr splatData \<and>
   readFloat32 (layoutOf (splatPayload @ padding) splatParsed) 0 ''rot_0'' = Inr (Num 3) \<and>
   readFloat32 (layoutOf (splatPayload @ padding) splatParsed) 0 ''rot_1'' = Inr (Num 0) \<and>
   readFloat32 (layoutOf (splatPayload @ padding) splatParsed) 0 ''rot_2'' = Inr (Num 0) \<and>
   readFloat32 (layoutOf (splatPayload @ padding) splatParsed) 0 ''rot_3'' = Inr (Num 4) \<and>
   rotations splatData =
     Some [Num (13421773 / 16777216), Num (5033165 / 8388608), Num 0, Num 0] \<and>
   rotations splatData \<noteq> Some [Num (3 / 5), Num 0, Num 0, Num (4 / 5)] \<and>
   rotations splatData \<noteq> Some [fround (Num (3 / 5)), Num 0, Num 0, fround (Num (4 / 5))]"
  by (simp add: splat_load splat_layout_reads) (simp add: splatData_def arith_simps)

text \<open>
  Claim C5, as amended. For every file that loads: with \<open>lo\<close> the minimum and \<open>hi\<close> the
  maximum of the heights of the points (NaN left out), when \<open>hi - lo\<close> exceeds \<open>1e-6\<close> the
  elevation of each point is \<open>(y - lo) / (hi - lo)\<close> for its height \<open>y\<close>, computed in
  double precision and rounded to a single by the store, and otherwise every elevation is
  \<open>1/2\<close>. The heights 2, 4, 6 give the elevations 0, 1/2, 1, and the heights 7, 7 give
  1/2, 1/2. The heights 0, 1, 3 give \<open>11184811 / 2^25\<close> for the second point, the single
  nearest to one third, which is neither one third nor the double nearest to it.
\<close>

theorem elevation_normalization:
  assumes load: "loadPlyBuffer buffer = Inr d"
  shows "\<exists>lo hi. minimumOf lo (coords d 1) \<and> maximumOf hi (coords d 1) \<and>
           elevations d =
             (if num_gt (num_sub hi lo) (toDouble (1 / 1000000))
              then map (\<lambda>y. fround (num_div (num_sub y lo) (num_sub hi lo))) (coords d 1)
              else map (\<lambda>y. Num (1 / 2)) (coords d 1))"
proof -
  from load obtain st where d: "d = finish st"
    and inv: "geomInv (countOf (pointCount d)) (countOf (pointCount d)) st"
    by (rule load_geometry)
  define N where "N = countOf (pointCount d)"
  define ys where "ys = coords d 1"
  have psst: "positions st = positions d" by (simp add: d finish_def)
  have ysd: "ys = map (\<lambda>j. positions d ! (j * 3 + 1)) [0..<N]"
    by (simp add: ys_def coords_def N_def)
  from inv have lenE: "length (elevations st) = N"
    and lo: "minY st = foldl lower Infinity ys"
    and hi: "maxY st = foldl upper NegInfinity ys"
    and el: "take N (elevations st) = ys"
    by (simp_all add: geomInv_def N_def [symmetric] psst ysd)
  from el lenE have el': "elevations st = ys" by simp
  have "minimumOf (minY st) ys" "maximumOf (maxY st) ys"
    by (simp_all add: lo hi minimumOf_foldl maximumOf_foldl)
  moreover have "elevations d = normalizeElevations (minY st) (maxY st) ys"
    by (simp add: d finish_def el')
  ultimately show ?thesis
    unfolding ys_def [symmetric] normalizeElevations_def Let_def fround_values(9) by blast
qed

theorem elevation_normalization_witness:
  "loadPlyBuffer elevFile = Inr elevData \<and>
   (\<exists>lo hi. minimumOf lo (coords elevData 1) \<and> maximumOf hi (coords elevData 1) \<and>
      elevations elevData =
        (if num_gt (num_sub hi lo) (toDouble (1 / 1000000))
         then map (\<lambda>y. fround (num_div (num_sub y lo) (num_sub hi lo))) (coords elevData 1)
         else map (\<lambda>y. Num (1 / 2)) (coords elevData 1))) \<and>
   coords elevData 1 = [Num 2, Num 4, Num 6] \<and>
   elevations elevData = [Num 0, Num (1 / 2), Num 1] \<and>
   loadPlyBuffer flatFile = Inr flatData \<and>
   coords flatData 1 = [Num 7, Num 7] \<and>
   elevations flatData = [Num (1 / 2), Num (1 / 2)] \<and>
   (\<exists>lo hi. minimumOf lo (coords flatData 1) \<and> maximumOf hi (coords flatData 1) \<and>
      elevations flatData =
        (if num_gt (num_sub hi lo) (toDouble (1 / 1000000))
         then map (\<lambda>y. fround (num_div (num_sub y lo) (num_sub hi lo))) (coords flatData 1)
         else map (\<lambda>y. Num (1 / 2)) (coords flatData 1)))"
proof -
  have a: "elevations elevData = [Num 0, Num (1 / 2), Num 1]"
    by (simp add: elevData_def)
  have b: "elevations flatData = [Num (1 / 2), Num (1 / 2)]"
    by (simp add: flatData_def)
  show ?thesis
    using elevation_normalization [OF elev_load] elevation_normalization [OF flat_load]
      elev_load flat_load a b sample_coords(2,4)
    by blast
qed

theorem elevation_rounding_counterexample:
  "loadPlyBuffer thirdFile = Inr thirdData \<and>
   coords thirdData 1 = [Num 0, Num 1, Num 3] \<and>
   num_gt (num_sub (Num 3) (Num 0)) (toDouble (1 / 1000000)) \<and>
   elevations thirdData = [Num 0, Num (11184811 / 33554432), Num 1] \<and>
   elevations thirdData \<noteq> [Num 0, Num ((1 - 0) / (3 - 0)), Num 1] \<and>
   elevations thirdData \<noteq>
     [Num 0, num_div (num_sub (Num 1) (Num 0)) (num_sub (Num 3) (Num 0)), Num 1]"
  unfolding sample_coords
  by (simp add: third_load) (simp add: thirdData_def num_gt_def arith_simps)

text \<open>
  Claim C6, as amended. For every file that loads with a point count: there is at least one
  point, and on each axis where no coordinate is NaN the minimum of the bounding box is the
  least and its maximum the greatest of that coordinate over all the points. On an axis
  where a coordinate is NaN, the minimum and the maximum of the box are both NaN, which is
  not the extent of the points.
\<close>

theorem bounding_box_exact:
  assumes load: "loadPlyBuffer buffer = Inr d"
    and pc: "pointCount d = Some n"
  shows "0 < n \<and> length (positions d) = nat n * 3 \<and>
         (case box_min (boundingBox d) of (x0, y0, z0) \<Rightarrow>
          case box_max (boundingBox d) of (x1, y1, z1) \<Rightarrow>
            extentOf x0 x1 (coords d 0) \<and> extentOf y0 y1 (coords d 1) \<and>
            extentOf z0 z1 (coords d 2))"
proof -
  from load obtain st where d: "d = finish st"
    and inv: "geomInv (countOf (pointCount d)) (countOf (pointCount d)) st"
    and pos: "\<forall>k. pointCount d = Some k \<longrightarrow> 0 < k"
    by (rule load_geometry)
  define N where "N = nat n"
  define ps where "ps = positions d"
  from pc pos have n: "0 < n" by simp
  then have N: "0 < N" "countOf (pointCount d) = N" by (simp_all add: N_def pc countOf_def)
  have psst: "positions st = ps" "boundingBox st = boundingBox d"
    by (simp_all add: d finish_def ps_def)
  from inv have len: "length ps = N * 3"
    and box: "boundingBox d = foldl expandByPoint newBox3 (map (pointAt ps) [0..<N])"
    by (simp_all add: geomInv_def N psst)
  define c where "c a = map (\<lambda>i. ps ! (i * 3 + a)) [0..<N]" for a
  have cd: "coords d a = c a" for a by (simp add: coords_def c_def N ps_def)
  have ne: "c a \<noteq> []" for a using N by (simp add: c_def)
  have proj: "map fst (map (pointAt ps) [0..<N]) = c 0"
    "map (\<lambda>p. fst (snd p)) (map (pointAt ps) [0..<N]) = c 1"
    "map (\<lambda>p. snd (snd p)) (map (pointAt ps) [0..<N]) = c 2"
    by (simp_all add: c_def pointAt_def)
  have bmin: "box_min (boundingBox d) =
      (foldl Math_min Infinity (c 0), foldl Math_min Infinity (c 1),
       foldl Math_min Infinity (c 2))"
    unfolding box box_min_foldl
    by (simp add: newBox3_def foldl_vec_min proj del: map_map)
  have bmax: "box_max (boundingBox d) =
      (foldl Math_max NegInfinity (c 0), foldl Math_max NegInfinity (c 1),
       foldl Math_max NegInfinity (c 2))"
    unfolding box box_max_foldl
    by (simp add: newBox3_def foldl_vec_max proj del: map_map)
  have "extentOf (foldl Math_min Infinity (c a)) (foldl Math_max NegInfinity (c a)) (c a)" for a
    using ne by (rule extentOf_foldl)
  then show ?thesis
    using n len by (simp add: bmin bmax cd ps_def N_def)
qed

theorem bounding_box_exact_witness:
  "loadPlyBuffer elevFile = Inr elevData \<and> pointCount elevData = Some 3 \<and>
   NaN \<notin> set (positions elevData) \<and>
   box_min (boundingBox elevData) = (Num 0, Num 2, Num (- 1)) \<and>
   box_max (boundingBox elevData) = (Num 2, Num 6, Num 3) \<and>
   least (Num 0) (coords elevData 0) \<and> least (Num 2) (coords elevData 1) \<and>
   least (Num (- 1)) (coords elevData 2) \<and>
   greatest (Num 2) (coords elevData 0) \<and> greatest (Num 6) (coords elevData 1) \<and>
   greatest (Num 3) (coords elevData 2)"
proof -
  have a: "pointCount elevData = Some 3" "NaN \<notin> set (positions elevData)"
    "box_min (boundingBox elevData) = (Num 0, Num 2, Num (- 1))"
    "box_max (boundingBox elevData) = (Num 2, Num 6, Num 3)"
    by (simp_all add: elevData_def)
  have b: "NaN \<notin> set (coords elevData 0)" "NaN \<notin> set (coords elevData 1)"
    "NaN \<notin> set (coords elevData 2)"
    unfolding sample_coords by simp_all
  show ?thesis
    using bounding_box_exact [OF elev_load a(1)] elev_load a b
    by (simp add: extentOf_def)
qed

theorem bounding_box_nan_counterexample:
  "loadPlyBuffer nanFile = Inr nanData \<and> pointCount nanData = Some 2 \<and>
   coords nanData 1 = [NaN, Num 2] \<and>
   box_min (boundingBox nanData) = (Num 0, NaN, Num (- 1)) \<and>
   box_max (boundingBox nanData) = (Num 1, NaN, Num 3) \<and>
   \<not> least NaN (coords nanData 1) \<and> \<not> greatest NaN (coords nanData 1)"
  unfolding sample_coords
  by (simp add: nan_load) (auto simp: nanData_def least_def greatest_def num_le_def)

lemma sh_colours:
  assumes load: "loadPlyBuffer buffer = Inr d"
    and hdr: "parseHeader buffer = Inr (h, e)"
    and sh: "hasSHColor (h_properties h)"
  shows "pointCount d = h_pointCount h \<and>
         length (colors d) = countOf (h_pointCount h) * 3 \<and>
         (\<forall>i < countOf (h_pointCount h). shColorAt (layoutOf (drop (nat e) buffer) h) (colors d) i)"
proof -
  from load obtain h' e' view st where p: "parseHeader buffer = Inr (h', e')"
    and view: "newDataView buffer e' = Inr view"
    and loop: "decodeLoop (layoutOf view h') 0 (h_pointCount h') (decoding0 h') = Inr st"
    and d: "d = finish st"
    by (rule loadPlyBuffer_Inr)
  from p hdr have eq: "h' = h" "e' = e" by simp_all
  define L where "L = layoutOf (drop (nat e) buffer) h"
  have L: "layoutOf view h' = L"
    using newDataView_Inr [OF view] by (simp add: L_def eq)
  have shL: "l_useSHColor L" using sh by (simp add: L_def layoutOf_def)
  have pc: "pointCount st = h_pointCount h"
    using decodeLoop_pointCount [OF loop] by (simp add: decoding0_def Let_def eq)
  have inv0: "colorInv L (countOf (h_pointCount h)) 0 (decoding0 h)"
    by (simp add: colorInv_def decoding0_def Let_def)
  have loop': "decodeLoop L 0 (h_pointCount h) (decoding0 h) = Inr st"
    using loop L by (simp add: eq)
  have "colorInv L (countOf (h_pointCount h)) (countOf (h_pointCount h)) st"
    using loop' inv0 shL by (rule colorInv_loop)
  then show ?thesis
    unfolding L_def [symmetric] by (simp add: colorInv_def pc d finish_def)
qed

lemma shColorAt_same:
  assumes "shColorAt L cols i" "shColorAt L' cols' i"
    and "\<forall>k \<in> {''f_dc_0'', ''f_dc_1'', ''f_dc_2''}. readFloat32 L' i k = readFloat32 L i k"
    and "a < 3"
  shows "cols' ! (i * 3 + a) = cols ! (i * 3 + a)"
proof -
  from assms(4) have "a = 0 \<or> a = 1 \<or> a = 2" by auto
  then show ?thesis using assms(1,2,3) by (auto simp: shColorAt_def)
qed

text \<open>
  Claim C9, as amended. When the header holds both colour schemes complete and the file
  loads, every colour channel of every point is \<open>1 / (1 + exp (- v))\<close>, computed in double
  precision and rounded to a single by the store, for the float \<open>v\<close> that the four bytes at
  the offset of \<open>f_dc_0\<close>, \<open>f_dc_1\<close> or \<open>f_dc_2\<close> in the record of the point hold. The
  properties red, green and blue are not read: a second file with the same header that
  loads, and in which these reads give the same floats, has the same colours, whatever its
  other bytes. The bytes of red, green and blue change a colour all the same when the four
  bytes of such a read cover them, which happens when an \<open>f_dc\<close> property is declared with
  a type of less than four bytes directly before them.
\<close>

theorem both_schemes_use_sh:
  assumes load: "loadPlyBuffer buffer = Inr d"
    and hdr: "parseHeader buffer = Inr (h, e)"
    and both: "hasClassicColor (h_properties h)" "hasSHColor (h_properties h)"
  shows "length (colors d) = countOf (pointCount d) * 3 \<and>
         (\<forall>i < countOf (pointCount d).
            shColorAt (layoutOf (drop (nat e) buffer) h) (colors d) i) \<and>
         (\<forall>buffer' d'.
            loadPlyBuffer buffer' = Inr d' \<and> parseHeader buffer' = Inr (h, e) \<and>
            (\<forall>i < countOf (pointCount d). \<forall>k \<in> {''f_dc_0'', ''f_dc_1'', ''f_dc_2''}.
               readFloat32 (layoutOf (drop (nat e) buffer') h) i k =
               readFloat32 (layoutOf (drop (nat e) buffer) h) i k)
            \<longrightarrow> colors d' = colors d)"
proof -
  define N where "N = countOf (h_pointCount h)"
  define L where "L = layoutOf (drop (nat e) buffer) h"
  from sh_colours [OF load hdr both(2)]
  have pc: "pointCount d = h_pointCount h" and len: "length (colors d) = N * 3"
    and cols: "\<forall>i<N. shColorAt L (colors d) i"
    by (simp_all add: N_def L_def)
  have "colors d' = colors d"
    if l': "loadPlyBuffer buffer' = Inr d'" and h': "parseHeader buffer' = Inr (h, e)"
      and same: "\<forall>i<N. \<forall>k \<in> {''f_dc_0'', ''f_dc_1'', ''f_dc_2''}.
         readFloat32 (layoutOf (drop (nat e) buffer') h) i k = readFloat32 L i k"
    for buffer' d'
  proof (rule nth_equalityI)
    define L' where "L' = layoutOf (drop (nat e) buffer') h"
    from sh_colours [OF l' h' both(2)]
    have len': "length (colors d') = N * 3" and cols': "\<forall>i<N. shColorAt L' (colors d') i"
      by (simp_all add: N_def L'_def)
    show "length (colors d') = length (colors d)" by (simp add: len len')
    show "colors d' ! j = colors d ! j" if "j < length (colors d')" for j
    proof -
      from that len' have i: "j div 3 < N" by simp
      have a: "j mod 3 < 3" by simp
      have j: "j = j div 3 * 3 + j mod 3" by simp
      have s: "\<forall>k \<in> {''f_dc_0'', ''f_dc_1'', ''f_dc_2''}.
                 readFloat32 L' (j div 3) k = readFloat32 L (j div 3) k"
        using same i by (simp add: L'_def)
      have "colors d' ! (j div 3 * 3 + j mod 3) = colors d ! (j div 3 * 3 + j mod 3)"
        using cols i cols' s a by (intro shColorAt_same [of L "colors d" _ L']) auto
      then show ?thesis using j by simp
    qed
  qed
  then have ni: "\<forall>buffer' d'.
      loadPlyBuffer buffer' = Inr d' \<and> parseHeader buffer' = Inr (h, e) \<and>
      (\<forall>i<N. \<forall>k \<in> {''f_dc_0'', ''f_dc_1'', ''f_dc_2''}.
         readFloat32 (layoutOf (drop (nat e) buffer') h) i k = readFloat32 L i k)
      \<longrightarrow> colors d' = colors d"
    by blast
  show ?thesis
    unfolding pc N_def [symmetric] L_def [symmetric] using len cols ni by blast
qed

theorem both_schemes_use_sh_witness:
  "loadPlyBuffer splatFile = Inr splatData \<and>
   parseHeader splatFile = Inr (splatParsed, int (length (linesText splatHeader))) \<and>
   hasClassicColor (h_properties splatParsed) \<and> hasSHColor (h_properties splatParsed) \<and>
   readUint8 (layoutOf (splatPayload @ padding) splatParsed) 0 ''red'' = Inr (Num 255) \<and>
   colors splatData = [Num (1 / 2), Num (1 / 2), Num (1 / 2)] \<and>
   length (colors splatData) = countOf (pointCount splatData) * 3 \<and>
   0 < countOf (pointCount splatData) \<and>
   shColorAt (layoutOf (splatPayload @ padding) splatParsed) (colors splatData) 0 \<and>
   readUint8 (layoutOf (greyPayload @ padding) splatParsed) 0 ''red'' = Inr (Num 0) \<and>
   (\<exists>d'. loadPlyBuffer greyFile = Inr d' \<and> colors d' = colors splatData)"
proof -
  have c: "colors splatData = [Num (1 / 2), Num (1 / 2), Num (1 / 2)]"
    "0 < countOf (pointCount splatData)"
    by (simp_all add: splatData_def countOf_def)
  have n: "countOf (pointCount splatData) = 1" by (simp add: splatData_def countOf_def)
  note t = both_schemes_use_sh [OF splat_load splat_parse splat_schemes(1,2)]
  have same: "\<forall>i < countOf (pointCount splatData). \<forall>k \<in> {''f_dc_0'', ''f_dc_1'', ''f_dc_2''}.
      readFloat32 (layoutOf (drop (nat (int (length (linesText splatHeader)))) greyFile)
         splatParsed) i k =
      readFloat32 (layoutOf (drop (nat (int (length (linesText splatHeader)))) splatFile)
         splatParsed) i k"
    unfolding n splat_view grey_view
    by (simp add: splat_layout_reads grey_layout_reads)
  from t have "colors splatData = colors splatData \<and>
      (\<forall>d'. loadPlyBuffer greyFile = Inr d' \<longrightarrow> colors d' = colors splatData)"
    using grey_parse same by blast
  then have g: "\<exists>d'. loadPlyBuffer greyFile = Inr d' \<and> colors d' = colors splatData"
    using grey_load by blast
  show ?thesis
    using t splat_load splat_parse splat_schemes(1,2) splat_layout_reads(8)
      grey_layout_reads(4) c g
    by (simp only: splat_view)
qed

theorem classic_bytes_change_colour_counterexample:
  "parseHeader darkFile = Inr (overlapParsed, int (length (linesText overlapHeader))) \<and>
   parseHeader brightFile = Inr (overlapParsed, int (length (linesText overlapHeader))) \<and>
   hasClassicColor (h_properties overlapParsed) \<and> hasSHColor (h_properties overlapParsed) \<and>
   brightPayload = darkPayload[22 := 0x80, 23 := 0x7F] \<and>
   readUint8 (layoutOf (darkPayload @ padding) overlapParsed) 0 ''green'' = Inr (Num 0) \<and>
   readUint8 (layoutOf (darkPayload @ padding) overlapParsed) 0 ''blue'' = Inr (Num 0) \<and>
   readUint8 (layoutOf (brightPayload @ padding) overlapParsed) 0 ''green'' = Inr (Num 128) \<and>
   readUint8 (layoutOf (brightPayload @ padding) overlapParsed) 0 ''blue'' = Inr (Num 127) \<and>
   loadPlyBuffer darkFile = Inr darkData \<and>
   loadPlyBuffer brightFile = Inr brightData \<and>
   colors darkData = [Num (1 / 2), Num (1 / 2), Num (1 / 2)] \<and>
   colors brightData = [Num (1 / 2), Num (1 / 2), Num 1] \<and>
   colors brightData \<noteq> colors darkData"
  by (simp add: dark_parse bright_parse overlap_schemes overlap_layout_reads dark_load
      bright_load)
     (simp add: darkData_def brightData_def darkPayload_def brightPayload_def)

subsection \<open>The shaders\<close>


text \<open>
  Claim C7. In the splat mode, for every point and camera and whatever the arithmetic of the
  GPU: when the value \<open>d\<close> that the vertex shader computes for the determinant of the
  projected covariance, \<open>cov[0][0] * cov[1][1] - cov[0][1] * cov[0][1]\<close>, passes its test
  \<open>d <= 0.0\<close>, the vertex shader sets the discard flag and the fragment shader discards
  every fragment of the point: the point adds nothing to the frame.
\<close>

theorem nonpositive_determinant_discarded:
  assumes "u_render_mode U = 2"
    and "num_le (covDet G (projectedCovariance G U A)) (Num 0)"
  shows "v_discard (vertexShader G undef U A) = 1 \<and>
         (\<forall>pc. fragmentShader G U (vertexShader G undef U A) pc = Discarded)"
proof -
  have "v_discard (vertexShader G undef U A) = 1"
    using assms by (simp add: vertexShader_def Let_def split: prod.splits)
  then show ?thesis by (simp add: fragmentShader_def)
qed

lemma flatSplat_cam:
  "camPos binary32 (sampleUniforms\<lparr>u_render_mode := 2\<rparr>) flatSplat = (Num 0, Num 0, Num (- 5), Num 1)"
  by (simp add: sampleUniforms_def flatSplat_def camPos_def binary32_def fmat4_vec_def fvec4_add_def
      fvec4_scale_def liftMat4_def lift4_def fround_def round_eval)

lemma flatSplat_q:
  "g_normalize binary32 (Num 0, Num 0, Num 0, Num 1) = (Num 0, Num 0, Num 0, Num 1)"
  by (simp add: binary32_def normalize32_def fround_def round_eval)

lemma flatSplat_R:
  "rotationMatrix binary32 (Num 0, Num 0, Num 0, Num 1) =
     ((Num 1, Num 0, Num 0), (Num 0, Num 1, Num 0), (Num 0, Num 0, Num 1))"
  by (simp add: rotationMatrix_def binary32_def fround_def round_eval)

lemma flatSplat_V:
  "fmat3_mul binary32 (fmat3_mul binary32 (fmat3_mul binary32
      ((Num 1, Num 0, Num 0), (Num 0, Num 1, Num 0), (Num 0, Num 0, Num 1))
      ((Num 0, Num 0, Num 0), (Num 0, Num 1, Num 0), (Num 0, Num 0, Num 1)))
      (transpose3 ((Num 0, Num 0, Num 0), (Num 0, Num 1, Num 0), (Num 0, Num 0, Num 1))))
      (transpose3 ((Num 1, Num 0, Num 0), (Num 0, Num 1, Num 0), (Num 0, Num 0, Num 1)))
   = ((Num 0, Num 0, Num 0), (Num 0, Num 1, Num 0), (Num 0, Num 0, Num 1))"
  by (simp add: binary32_def fmat3_mul_def fmat3_vec_def fvec3_add_def fvec3_scale_def
      transpose3_def fround_def round_eval)

lemma flatSplat_J: "g_div binary32 (Num 1) (Num (- 5)) = Num (- (13421773 / 67108864))"
  by (simp add: binary32_def fround_def round_eval)

lemma flatSplat_W:
  "transpose3 (mat3_of_mat4 (liftMat4 ((1, 0, 0, 0), (0, 1, 0, 0), (0, 0, 1, 0), (0, 0, - 5, 1))))
     = ((Num 1, Num 0, Num 0), (Num 0, Num 1, Num 0), (Num 0, Num 0, Num 1))"
  by (simp add: transpose3_def mat3_of_mat4_def liftMat4_def lift4_def)

lemma flatSplat_covariance:
  "projectedCovariance binary32 (sampleUniforms\<lparr>u_render_mode := 2\<rparr>) flatSplat =
     transpose3
       (fmat3_mul binary32
          (fmat3_mul binary32
             (fmat3_mul binary32
                (fmat3_mul binary32
                   ((Num (- (13421773 / 67108864)), Num 0, Num 0),
                    (Num 0, Num (- (13421773 / 67108864)), Num 0), (Num 0, Num 0, Num 0))
                   ((Num 1, Num 0, Num 0), (Num 0, Num 1, Num 0), (Num 0, Num 0, Num 1)))
                ((Num 0, Num 0, Num 0), (Num 0, Num 1, Num 0), (Num 0, Num 0, Num 1)))
             (transpose3 ((Num 1, Num 0, Num 0), (Num 0, Num 1, Num 0), (Num 0, Num 0, Num 1))))
          (transpose3
             ((Num (- (13421773 / 67108864)), Num 0, Num 0),
              (Num 0, Num (- (13421773 / 67108864)), Num 0), (Num 0, Num 0, Num 0))))"
  apply (simp only: projectedCovariance_def flatSplat_cam)
  apply (simp add: flatSplat_def sampleUniforms_def Let_def flatSplat_q flatSplat_R flatSplat_V
      flatSplat_J flatSplat_W)
  done

lemma flatSplat_JW:
  "fmat3_mul binary32
     ((Num (- (13421773 / 67108864)), Num 0, Num 0),
      (Num 0, Num (- (13421773 / 67108864)), Num 0), (Num 0, Num 0, Num 0))
     ((Num 1, Num 0, Num 0), (Num 0, Num 1, Num 0), (Num 0, Num 0, Num 1))
   = ((Num (- (13421773 / 67108864)), Num 0, Num 0),
      (Num 0, Num (- (13421773 / 67108864)), Num 0), (Num 0, Num 0, Num 0))"
  by (simp add: binary32_def fmat3_mul_def fmat3_vec_def fvec3_add_def fvec3_scale_def
      fround_def round_eval)

lemma flatSplat_product:
  "covDet binary32 (transpose3
       (fmat3_mul binary32
          (fmat3_mul binary32
             (fmat3_mul binary32
                   ((Num (- (13421773 / 67108864)), Num 0, Num 0),
                    (Num 0, Num (- (13421773 / 67108864)), Num 0), (Num 0, Num 0, Num 0))
                ((Num 0, Num 0, Num 0), (Num 0, Num 1, Num 0), (Num 0, Num 0, Num 1)))
             (transpose3 ((Num 1, Num 0, Num 0), (Num 0, Num 1, Num 0), (Num 0, Num 0, Num 1))))
          (transpose3
             ((Num (- (13421773 / 67108864)), Num 0, Num 0),
              (Num 0, Num (- (13421773 / 67108864)), Num 0), (Num 0, Num 0, Num 0))))) = Num 0"
  by (simp add: binary32_def fmat3_mul_def fmat3_vec_def fvec3_add_def fvec3_scale_def
      transpose3_def covDet_def fround_def round_eval)

lemma flatSplat_determinant:
  "covDet binary32 (projectedCovariance binary32 (sampleUniforms\<lparr>u_render_mode := 2\<rparr>) flatSplat)
     = Num 0"
  by (simp only: flatSplat_covariance flatSplat_JW flatSplat_product)

theorem nonpositive_determinant_discarded_witness:
  "u_render_mode (sampleUniforms\<lparr>u_render_mode := 2\<rparr>) = 2 \<and>
   num_le (covDet binary32
             (projectedCovariance binary32 (sampleUniforms\<lparr>u_render_mode := 2\<rparr>) flatSplat))
          (Num 0) \<and>
   v_discard (vertexShader binary32 zeroVertex (sampleUniforms\<lparr>u_render_mode := 2\<rparr>) flatSplat)
     = 1 \<and>
   (\<forall>pc. fragmentShader binary32 (sampleUniforms\<lparr>u_render_mode := 2\<rparr>)
           (vertexShader binary32 zeroVertex (sampleUniforms\<lparr>u_render_mode := 2\<rparr>) flatSplat) pc
         = Discarded)"
proof -
  have m: "u_render_mode (sampleUniforms\<lparr>u_render_mode := 2\<rparr>) = 2" by simp
  have d: "num_le (covDet binary32
             (projectedCovariance binary32 (sampleUniforms\<lparr>u_render_mode := 2\<rparr>) flatSplat))
          (Num 0)"
    by (simp add: flatSplat_determinant num_le_def)
  show ?thesis
    using nonpositive_determinant_discarded [OF m d, of zeroVertex] m d by simp
qed





end
